(* ===== verification/Prelude.thy ===== *)
theory Prelude
  imports Complex_Main
begin

text \<open>
  Shared vocabulary of the development: the values a JavaScript \<open>throw\<close> can carry
  (\<open>exn\<close>), results of fallible code (\<open>exn + 'a\<close>, \<open>Inl\<close> for a throw or a rejected
  promise), JavaScript strings and numbers with the conversions the sources use
  (\<open>Number(s)\<close>, \<open>String(n)\<close>, \<open>.length\<close>, truthiness, \<open>??\<close>), and generic lemmas.

  A JavaScript string is represented by its UTF-8 bytes, one \<open>char\<close> per byte; \<open>js_length\<close>
  recovers \<open>.length\<close> (UTF-16 code units) from them. A JavaScript number is \<open>NaN\<close>, an
  infinity or an exact rational: the overflow to infinity of a double is modelled, its rounding
  to 53 bits is not.
\<close>

named_theorems js_simps \<open>conversions and tests of the JavaScript runtime\<close>

subsection \<open>Thrown values and results\<close>

text \<open>
  The errors the sources throw, catch or classify. \<open>QueryFailed\<close> is TypeORM's
  \<open>QueryFailedError\<close> with the \<open>driverError.code\<close> (\<open>None\<close> when it is no string) and the
  message; \<open>NonError\<close> is any thrown value that is no \<open>Error\<close>, with its \<open>String(...)\<close>.
\<close>

datatype exn =
    TypeError string
  | PlainError string
  | QueryFailed "string option" string
  | PermanentProcessingError string
  | TransientProcessingError string
  | HttpException nat string
  | NonError string

type_synonym 'a result = "exn + 'a"

text \<open>\<open>error instanceof Error ? error.message : String(error)\<close>\<close>

fun error_message :: "exn \<Rightarrow> string" where
  "error_message (TypeError m) = m"
| "error_message (PlainError m) = m"
| "error_message (QueryFailed c m) = m"
| "error_message (PermanentProcessingError m) = m"
| "error_message (TransientProcessingError m) = m"
| "error_message (HttpException s m) = m"
| "error_message (NonError m) = m"

definition bind_res :: "'a result \<Rightarrow> ('a \<Rightarrow> 'b result) \<Rightarrow> 'b result" where
  "bind_res r k = (case r of Inl e \<Rightarrow> Inl e | Inr a \<Rightarrow> k a)"

lemma bind_res_simps [simp]:
  "bind_res (Inl e) k = Inl e"
  "bind_res (Inr a) k = k a"
  by (simp_all add: bind_res_def)

lemma bind_res_Inr:
  "bind_res r k = Inr b \<longleftrightarrow> (\<exists>a. r = Inr a \<and> k a = Inr b)"
  by (cases r) simp_all

lemma bind_res_Inl:
  "bind_res r k = Inl e \<longleftrightarrow> r = Inl e \<or> (\<exists>a. r = Inr a \<and> k a = Inl e)"
  by (cases r) simp_all

subsection \<open>Nullish and truthy values\<close>

text \<open>\<open>undefined\<close> and \<open>null\<close> are \<open>None\<close>.\<close>

definition nullish :: "'a option \<Rightarrow> 'a \<Rightarrow> 'a" where
  "nullish x d = (case x of None \<Rightarrow> d | Some v \<Rightarrow> v)"

lemma nullish_simps [simp]:
  "nullish None d = d"
  "nullish (Some v) d = v"
  by (simp_all add: nullish_def)

definition truthy_str :: "string option \<Rightarrow> bool" where
  "truthy_str x = (case x of None \<Rightarrow> False | Some s \<Rightarrow> s \<noteq> [])"

lemma truthy_str_simps [simp]:
  "\<not> truthy_str None"
  "truthy_str (Some s) \<longleftrightarrow> s \<noteq> []"
  by (simp_all add: truthy_str_def)

lemma truthy_strE:
  assumes "truthy_str x"
  obtains s where "x = Some s" and "s \<noteq> []"
  using assms by (cases x) auto

subsection \<open>Strings\<close>

definition code :: "char \<Rightarrow> nat" where
  "code c = of_char c"

lemma code_less [simp]: "code c < 256"
  using of_char_of [where ?'a = nat, of "code c"] by (simp add: code_def)

lemma code_inj [simp]: "code c = code d \<longleftrightarrow> c = d"
  by (simp add: code_def)

lemma code_char_of [simp]: "n < 256 \<Longrightarrow> code (char_of n) = n"
  by (simp add: code_def)

text \<open>
  UTF-16 code units of a UTF-8 byte: a continuation byte adds none, the lead byte of a
  four-byte sequence adds two (a surrogate pair), any other byte adds one.
\<close>

definition utf16_units :: "char \<Rightarrow> nat" where
  "utf16_units c =
     (if 128 \<le> code c \<and> code c < 192 then 0 else if 240 \<le> code c then 2 else 1)"

definition js_length :: "string \<Rightarrow> nat" where
  "js_length s = sum_list (map utf16_units s)"

lemma js_length_simps [simp]:
  "js_length [] = 0"
  "js_length (c # s) = utf16_units c + js_length s"
  "js_length (s @ t) = js_length s + js_length t"
  by (simp_all add: js_length_def)

lemma js_length_ascii: "\<forall>c \<in> set s. code c < 128 \<Longrightarrow> js_length s = length s"
  by (induction s) (simp_all add: utf16_units_def)

text \<open>\<open>Array.prototype.join\<close>\<close>

fun js_join :: "string \<Rightarrow> string list \<Rightarrow> string" where
  "js_join sep [] = []"
| "js_join sep [s] = s"
| "js_join sep (s # t # ts) = s @ sep @ js_join sep (t # ts)"

subsection \<open>Decimal digits\<close>

definition is_digit :: "char \<Rightarrow> bool" where
  "is_digit c \<longleftrightarrow> 48 \<le> code c \<and> code c \<le> 57"

definition digit_val :: "char \<Rightarrow> nat" where
  "digit_val c = code c - 48"

definition digit_char :: "nat \<Rightarrow> char" where
  "digit_char d = char_of (48 + d)"

lemma digit_char [simp]:
  assumes "d < 10"
  shows "is_digit (digit_char d)" and "digit_val (digit_char d) = d" and "code (digit_char d) = 48 + d"
  using assms by (simp_all add: is_digit_def digit_val_def digit_char_def)

definition digits_val :: "string \<Rightarrow> int" where
  "digits_val ds = foldl (\<lambda>n d. 10 * n + int (digit_val d)) 0 ds"

lemma digits_val_simps [simp]:
  "digits_val [] = 0"
  "digits_val (ds @ [d]) = 10 * digits_val ds + int (digit_val d)"
  by (simp_all add: digits_val_def)

lemma digits_val_single [simp]: "digits_val [d] = int (digit_val d)"
  by (simp add: digits_val_def)

fun digits :: "nat \<Rightarrow> string" where
  "digits n = (if n < 10 then [digit_char n] else digits (n div 10) @ [digit_char (n mod 10)])"

declare digits.simps [simp del]

lemma digits_val_digits [simp]: "digits_val (digits n) = int n"
proof (induction n rule: digits.induct)
  case (1 n)
  show ?case
  proof (cases "n < 10")
    case True
    then show ?thesis by (simp add: digits.simps [of n])
  next
    case False
    have "10 * (n div 10) + n mod 10 = n" by simp
    then have "10 * int (n div 10) + int (n mod 10) = int n" by (metis of_nat_add of_nat_mult of_nat_numeral)
    with False "1.IH" show ?thesis by (simp add: digits.simps [of n])
  qed
qed

lemma digits_all: "\<forall>c \<in> set (digits n). is_digit c"
proof (induction n rule: digits.induct)
  case (1 n)
  then show ?case by (cases "n < 10") (auto simp: digits.simps [of n])
qed

lemma digits_not_Nil [simp]: "digits n \<noteq> []"
  by (subst digits.simps) simp

lemma hd_digits: "0 < n \<Longrightarrow> hd (digits n) \<noteq> CHR ''0''"
proof (induction n rule: digits.induct)
  case (1 n)
  have zero: "code (CHR ''0'') = 48" by (simp add: code_def)
  show ?case
  proof (cases "n < 10")
    case True
    have "code (digit_char n) = 48 + n" using True by simp
    with zero have "code (digit_char n) \<noteq> code (CHR ''0'')" using "1.prems" by linarith
    then have "digit_char n \<noteq> CHR ''0''" by auto
    with True show ?thesis by (simp add: digits.simps [of n])
  next
    case False
    with "1.IH" show ?thesis by (simp add: digits.simps [of n])
  qed
qed

lemma digits_0 [simp]: "digits 0 = ''0''"
proof -
  have "digit_char 0 = CHR ''0''"
    by code_simp
  then show ?thesis by (subst digits.simps) simp
qed

text \<open>A lower-case hexadecimal digit.\<close>

definition hex_digit :: "nat \<Rightarrow> char" where
  "hex_digit d = char_of (if d < 10 then 48 + d else 87 + d)"

text \<open>\<open>String(n)\<close> of an integer of magnitude below \<open>10\<^sup>2\<^sup>1\<close>\<close>

definition int_to_string :: "int \<Rightarrow> string" where
  "int_to_string i = (if i < 0 then CHR ''-'' # digits (nat (- i)) else digits (nat i))"

subsection \<open>Numbers\<close>

datatype jsnum = NaN | PInf | NInf | Fin rat

text \<open>
  A finite double lies strictly below \<open>2\<^sup>1\<^sup>0\<^sup>2\<^sup>4 - 2\<^sup>9\<^sup>7\<^sup>0\<close>; a decimal at or above that bound rounds
  to infinity.
\<close>

definition double_limit :: rat where
  "double_limit = 2 ^ 1024 - 2 ^ 970"

lemma double_limit_numeral [code]:
  "double_limit =
     179769313486231580793728971405303415079934132710037826936173778980444968292764750946649017977587207096330286416692887910946555547851940402630657488671505820681908902000708383676273854845817711531764475730270069855571366959622842914819860834936475292719074168444365510704342711559699508093042880177904174497792"
  by (simp add: double_limit_def)

definition to_jsnum :: "rat \<Rightarrow> jsnum" where
  "to_jsnum q = (if double_limit \<le> q then PInf else if q \<le> - double_limit then NInf else Fin q)"

fun is_finite :: "jsnum \<Rightarrow> bool" where
  "is_finite (Fin q) = True"
| "is_finite _ = False"

text \<open>\<open>x <= y\<close> and \<open>x < y\<close>: false whenever an operand is NaN\<close>

fun js_le :: "jsnum \<Rightarrow> jsnum \<Rightarrow> bool" where
  "js_le (Fin p) (Fin q) = (p \<le> q)"
| "js_le NaN y = False"
| "js_le x NaN = False"
| "js_le NInf y = True"
| "js_le x PInf = True"
| "js_le _ _ = False"

fun js_less :: "jsnum \<Rightarrow> jsnum \<Rightarrow> bool" where
  "js_less (Fin p) (Fin q) = (p < q)"
| "js_less NaN y = False"
| "js_less x NaN = False"
| "js_less NInf y = (y \<noteq> NInf)"
| "js_less x PInf = (x \<noteq> PInf)"
| "js_less _ _ = False"

definition scale10 :: "rat \<Rightarrow> int \<Rightarrow> rat" where
  "scale10 q e = (if 0 \<le> e then q * 10 ^ nat e else q / 10 ^ nat (- e))"

text \<open>A decimal literal's value: integer digits, fraction digits and exponent.\<close>

definition decimal_value :: "string \<Rightarrow> string \<Rightarrow> int \<Rightarrow> rat" where
  "decimal_value ip fp e = scale10 (of_int (digits_val (ip @ fp))) (e - int (length fp))"

lemma decimal_value_digits [simp]: "decimal_value (digits n) [] 0 = of_nat n"
  by (simp add: decimal_value_def scale10_def)

end
