(* ===== verification/Json.thy ===== *)
theory Json
  imports Prelude "HOL-Library.AList"
begin

text \<open>
  JSON values, \<open>Number(...)\<close>, \<open>JSON.parse\<close> and \<open>JSON.stringify\<close> of the JavaScript runtime, as far
  as the sources use them. A value the sources type as \<open>unknown\<close> is a \<open>json option\<close>, \<open>None\<close> for
  \<open>undefined\<close>. \<open>JSON.parse\<close> is a recursive-descent parser with fuel; \<open>json_parse\<close> starts it with
  twice the input length, which \<open>pvalue_fuel\<close> shows to be enough (more fuel changes nothing).
  The section ends with the round trip of \<open>json_text\<close> and \<open>json_parse\<close>.
\<close>

subsection \<open>Values\<close>

datatype json =
    JNull
  | JBool bool
  | JNum jsnum
  | JStr string
  | JArr "json list"
  | JObj "(string \<times> json) list"

text \<open>
  Reading a property: a \<open>TypeError\<close> on \<open>null\<close>, \<open>undefined\<close> on any value without it. None of the
  names the sources read is a built-in property of numbers, strings, arrays or objects.
\<close>

fun get_prop :: "json \<Rightarrow> string \<Rightarrow> json option result" where
  "get_prop JNull k = Inl (TypeError ''cannot read properties of null'')"
| "get_prop (JObj kvs) k = Inr (map_of kvs k)"
| "get_prop _ k = Inr None"

fun truthy :: "json \<Rightarrow> bool" where
  "truthy JNull = False"
| "truthy (JBool b) = b"
| "truthy (JNum n) = (n \<noteq> NaN \<and> n \<noteq> Fin 0)"
| "truthy (JStr s) = (s \<noteq> [])"
| "truthy (JArr js) = True"
| "truthy (JObj kvs) = True"

text \<open>\<open>typeof v === 'string' ? v : null\<close> and its kin\<close>

fun as_string :: "json option \<Rightarrow> string option" where
  "as_string (Some (JStr s)) = Some s"
| "as_string _ = None"

fun as_number :: "json option \<Rightarrow> jsnum option" where
  "as_number (Some (JNum n)) = Some n"
| "as_number _ = None"

text \<open>\<open>v && typeof v === 'object'\<close>: objects and arrays.\<close>

fun is_object :: "json option \<Rightarrow> bool" where
  "is_object (Some (JObj kvs)) = True"
| "is_object (Some (JArr js)) = True"
| "is_object _ = False"

lemma as_string_Some [simp]: "as_string v = Some s \<longleftrightarrow> v = Some (JStr s)"
  by (induction v rule: as_string.induct) auto

lemma as_number_Some [simp]: "as_number v = Some n \<longleftrightarrow> v = Some (JNum n)"
  by (induction v rule: as_number.induct) auto

lemma get_prop_Inl: "get_prop j k = Inl e \<longleftrightarrow> j = JNull \<and> e = TypeError ''cannot read properties of null''"
  by (cases j) auto

lemma get_prop_truthy: "truthy j \<Longrightarrow> \<exists>v. get_prop j k = Inr v"
  by (cases j) auto

subsection \<open>\<open>Number(s)\<close> of a string\<close>

text \<open>White space and line terminators of ECMAScript, as UTF-8.\<close>

definition ws_seqs :: "string list" where
  "ws_seqs = map (map char_of)
     ([[9], [10], [11], [12], [13], [32], [194, 160], [225, 154, 128]] @
      map (\<lambda>k. [226, 128, 128 + k]) [0..<11] @
      [[226, 128, 168], [226, 128, 169], [226, 128, 175], [226, 129, 159], [227, 128, 128],
       [239, 187, 191 :: nat]])"

fun strip_seqs :: "string list \<Rightarrow> nat \<Rightarrow> string \<Rightarrow> string" where
  "strip_seqs ws 0 s = s"
| "strip_seqs ws (Suc n) s =
     (case List.find (\<lambda>w. take (length w) s = w) ws of
        None \<Rightarrow> s
      | Some w \<Rightarrow> strip_seqs ws n (drop (length w) s))"

definition js_trim :: "string \<Rightarrow> string" where
  "js_trim s =
     (let t = strip_seqs ws_seqs (length s) s
      in rev (strip_seqs (map rev ws_seqs) (length t) (rev t)))"

definition take_sign :: "string \<Rightarrow> bool \<times> string" where
  "take_sign s = (case s of
       c # r \<Rightarrow> if c = CHR ''-'' then (True, r) else if c = CHR ''+'' then (False, r) else (False, s)
     | [] \<Rightarrow> (False, []))"

text \<open>An optional exponent: \<open>None\<close> where an \<open>e\<close> is followed by no digits.\<close>

definition take_exponent :: "string \<Rightarrow> (int \<times> string) option" where
  "take_exponent s = (case s of
       c # r \<Rightarrow>
         if c = CHR ''e'' \<or> c = CHR ''E'' then
           (let (neg, q) = take_sign r; ds = takeWhile is_digit q
            in if ds = [] then None
               else Some ((if neg then - digits_val ds else digits_val ds), dropWhile is_digit q))
         else Some (0, s)
     | [] \<Rightarrow> Some (0, []))"

fun js_neg :: "jsnum \<Rightarrow> jsnum" where
  "js_neg NaN = NaN"
| "js_neg PInf = NInf"
| "js_neg NInf = PInf"
| "js_neg (Fin q) = Fin (- q)"

definition unsigned_decimal :: "string \<Rightarrow> jsnum" where
  "unsigned_decimal s =
     (if s = ''Infinity'' then PInf
      else let ip = takeWhile is_digit s; r = dropWhile is_digit s;
               (fp, q) = (case r of
                   c # t \<Rightarrow> if c = CHR ''.'' then (takeWhile is_digit t, dropWhile is_digit t) else ([], r)
                 | [] \<Rightarrow> ([], []))
           in if ip = [] \<and> fp = [] then NaN
              else case take_exponent q of
                  Some (e, []) \<Rightarrow> to_jsnum (decimal_value ip fp e)
                | _ \<Rightarrow> NaN)"

definition hex_val :: "char \<Rightarrow> nat option" where
  "hex_val c =
     (if is_digit c then Some (digit_val c)
      else if 97 \<le> code c \<and> code c \<le> 102 then Some (code c - 87)
      else if 65 \<le> code c \<and> code c \<le> 70 then Some (code c - 55)
      else None)"

fun radix_value :: "int \<Rightarrow> int \<Rightarrow> string \<Rightarrow> int option" where
  "radix_value b n [] = Some n"
| "radix_value b n (c # r) =
     (case hex_val c of
        Some d \<Rightarrow> if int d < b then radix_value b (b * n + int d) r else None
      | None \<Rightarrow> None)"

definition radix_literal :: "int \<Rightarrow> string \<Rightarrow> jsnum" where
  "radix_literal b s =
     (case s of
        [] \<Rightarrow> NaN
      | _ \<Rightarrow> (case radix_value b 0 s of Some n \<Rightarrow> to_jsnum (of_int n) | None \<Rightarrow> NaN))"

definition js_number_str :: "string \<Rightarrow> jsnum" where
  "js_number_str s =
     (let t = js_trim s; p = take 2 t in
      if t = [] then Fin 0
      else if p = ''0x'' \<or> p = ''0X'' then radix_literal 16 (drop 2 t)
      else if p = ''0o'' \<or> p = ''0O'' then radix_literal 8 (drop 2 t)
      else if p = ''0b'' \<or> p = ''0B'' then radix_literal 2 (drop 2 t)
      else let (neg, u) = take_sign t
           in if neg then js_neg (unsigned_decimal u) else unsigned_decimal u)"

text \<open>
  \<open>Number(v)\<close> of an arbitrary value: \<open>undefined\<close> is NaN, \<open>null\<close> is 0, an array goes through its
  joined string, an object through \<open>"[object Object]"\<close>; an object with an own \<open>toString\<close> (never a
  function in JSON) cannot be converted and throws.
\<close>

fun to_string_throws :: "json \<Rightarrow> bool" where
  "to_string_throws (JObj kvs) = (''toString'' \<in> fst ` set kvs)"
| "to_string_throws (JArr js) = list_ex to_string_throws js"
| "to_string_throws _ = False"

fun number_of_json :: "json \<Rightarrow> jsnum" where
  "number_of_json JNull = Fin 0"
| "number_of_json (JBool b) = Fin (if b then 1 else 0)"
| "number_of_json (JNum n) = n"
| "number_of_json (JStr s) = js_number_str s"
| "number_of_json (JArr []) = Fin 0"
| "number_of_json (JArr [JBool b]) = NaN"
| "number_of_json (JArr [j]) = number_of_json j"
| "number_of_json (JArr (i # j # js)) = NaN"
| "number_of_json (JObj kvs) = NaN"

definition js_number :: "json option \<Rightarrow> jsnum result" where
  "js_number v = (case v of
       None \<Rightarrow> Inr NaN
     | Some j \<Rightarrow>
         if to_string_throws j then Inl (TypeError ''cannot convert object to primitive value'')
         else Inr (number_of_json j))"

text \<open>A run of decimal digits reads as itself; the first and last byte keep \<open>trim\<close> away.\<close>

lemma strip_seqs_id:
  assumes "s = [] \<or> hd s \<notin> hd ` set ws" and "[] \<notin> set ws"
  shows "strip_seqs ws n s = s"
proof (cases n)
  case (Suc m)
  have "List.find (\<lambda>w. take (length w) s = w) ws = None"
    using assms by (auto simp: find_None_iff hd_take) (metis hd_take image_eqI length_greater_0_conv take_eq_Nil)
  with Suc show ?thesis by simp
qed simp

lemma ws_heads: "c \<in> hd ` set ws_seqs \<Longrightarrow> code c < 48 \<or> 57 < code c"
  by (auto simp: ws_seqs_def)

lemma ws_lasts: "c \<in> hd ` set (map rev ws_seqs) \<Longrightarrow> code c < 48 \<or> 57 < code c"
  by (auto simp: ws_seqs_def)

lemma js_trim_digits:
  assumes "s \<noteq> []" and "\<forall>c \<in> set s. is_digit c"
  shows "js_trim s = s"
proof -
  have "hd s \<notin> hd ` set ws_seqs"
    using assms ws_heads hd_in_set is_digit_def by (metis linorder_not_less)
  then have l: "strip_seqs ws_seqs n s = s" for n
    by (rule_tac strip_seqs_id) (auto simp: ws_seqs_def)
  have "is_digit (hd (rev s))"
    using assms by (simp add: hd_rev)
  then have "hd (rev s) \<notin> hd ` set (map rev ws_seqs)"
    using ws_lasts is_digit_def by (metis linorder_not_less)
  then have r: "strip_seqs (map rev ws_seqs) n (rev s) = rev s" for n
    by (rule_tac strip_seqs_id) (auto simp: ws_seqs_def)
  show ?thesis by (simp add: js_trim_def l r Let_def)
qed

lemma take_exponent_Nil [simp]: "take_exponent [] = Some (0, [])"
  by (simp add: take_exponent_def)

lemma take_digits_all [simp]:
  "\<forall>c \<in> set s. is_digit c \<Longrightarrow> takeWhile is_digit s = s"
  "\<forall>c \<in> set s. is_digit c \<Longrightarrow> dropWhile is_digit s = []"
  by (simp_all add: takeWhile_eq_all_conv dropWhile_eq_Nil_conv)

lemma non_digits [simp]:
  "\<not> is_digit (CHR ''x'')" "\<not> is_digit (CHR ''X'')" "\<not> is_digit (CHR ''o'')" "\<not> is_digit (CHR ''O'')"
  "\<not> is_digit (CHR ''b'')" "\<not> is_digit (CHR ''B'')" "\<not> is_digit (CHR ''I'')"
  "\<not> is_digit (CHR ''-'')" "\<not> is_digit (CHR ''+'')"  "\<not> is_digit (CHR '','')"
  "\<not> is_digit (CHR '']'')" "\<not> is_digit (CHR ''}'')" "\<not> is_digit (CHR ''.'')"
  "\<not> is_digit (CHR ''e'')" "\<not> is_digit (CHR ''E'')"
  by code_simp+

lemma js_number_str_digits:
  assumes "s \<noteq> []" and "\<forall>c \<in> set s. is_digit c"
  shows "js_number_str s = to_jsnum (of_int (digits_val s))"
proof -
  have "take 2 s \<noteq> p" if "p \<in> {''0x'', ''0X'', ''0o'', ''0O'', ''0b'', ''0B''}" for p
  proof
    assume "take 2 s = p"
    then have "set p \<subseteq> set s" by (metis set_take_subset)
    moreover have "\<exists>c \<in> set p. \<not> is_digit c" using that by auto
    ultimately show False using assms(2) by blast
  qed
  moreover have "take_sign s = (False, s)"
    using assms by (cases s) (auto simp: take_sign_def)
  moreover have "s \<noteq> ''Infinity''" using assms by auto
  ultimately show ?thesis
    using assms by (simp add: js_number_str_def js_trim_digits unsigned_decimal_def decimal_value_def
        scale10_def Let_def)
qed

subsection \<open>\<open>JSON.parse\<close>: strings and numbers\<close>

definition is_ws :: "char \<Rightarrow> bool" where
  "is_ws c \<longleftrightarrow> code c \<in> {9, 10, 13, 32}"

definition skip_ws :: "string \<Rightarrow> string" where
  "skip_ws s = dropWhile is_ws s"

definition utf8 :: "nat \<Rightarrow> string" where
  "utf8 n =
     (if n < 128 then [char_of n]
      else if n < 2048 then [char_of (192 + n div 64), char_of (128 + n mod 64)]
      else [char_of (224 + n div 4096), char_of (128 + n div 64 mod 64), char_of (128 + n mod 64)])"

text \<open>Two escaped halves of a surrogate pair are one code point, four bytes in UTF-8.\<close>

definition surrogate_bytes :: "nat \<Rightarrow> nat \<Rightarrow> string" where
  "surrogate_bytes hi lo =
     (let p = 65536 + (hi - 55296) * 1024 + (lo - 56320)
      in map char_of [240 + p div 262144, 128 + p div 4096 mod 64, 128 + p div 64 mod 64, 128 + p mod 64])"

fun join_surrogates :: "string \<Rightarrow> string" where
  "join_surrogates (a # b # c # d # e # f # r) =
     (if code a = 237 \<and> 160 \<le> code b \<and> code b < 176 \<and> code d = 237 \<and> 176 \<le> code e \<and> code e < 192
      then surrogate_bytes (53248 + (code b - 128) * 64 + (code c - 128))
                           (53248 + (code e - 128) * 64 + (code f - 128)) @ join_surrogates r
      else a # join_surrogates (b # c # d # e # f # r))"
| "join_surrogates s = s"

declare join_surrogates.simps [simp del]

definition esc_char :: "char \<Rightarrow> char option" where
  "esc_char c =
     (if c = CHR 0x22 \<or> c = CHR 0x5C \<or> c = CHR ''/'' then Some c
      else if c = CHR ''b'' then Some (CHR 0x08)
      else if c = CHR ''f'' then Some (CHR 0x0C)
      else if c = CHR ''n'' then Some (CHR 0x0A)
      else if c = CHR ''r'' then Some (CHR 0x0D)
      else if c = CHR ''t'' then Some (CHR 0x09)
      else None)"

fun pstring :: "string \<Rightarrow> (string \<times> string) option"
  and pescape :: "string \<Rightarrow> (string \<times> string) option"
where
  "pstring [] = None"
| "pstring (c # r) =
     (if c = CHR 0x22 then Some ([], r)
      else if c = CHR 0x5C then pescape r
      else if code c < 32 then None
      else map_option (\<lambda>(t, q). (c # t, q)) (pstring r))"
| "pescape [] = None"
| "pescape (e # r) =
     (if e = CHR ''u'' then
        (case r of
           h1 # h2 # h3 # h4 # r' \<Rightarrow>
             (case radix_value 16 0 [h1, h2, h3, h4] of
                Some n \<Rightarrow> map_option (\<lambda>(t, q). (utf8 (nat n) @ t, q)) (pstring r')
              | None \<Rightarrow> None)
         | _ \<Rightarrow> None)
      else (case esc_char e of
          Some x \<Rightarrow> map_option (\<lambda>(t, q). (x # t, q)) (pstring r)
        | None \<Rightarrow> None))"

definition parse_string :: "string \<Rightarrow> (string \<times> string) option" where
  "parse_string s = map_option (\<lambda>(t, q). (join_surrogates t, q)) (pstring s)"

text \<open>A number: no leading zero, digits after the point.\<close>

definition number_tail :: "string \<Rightarrow> bool \<times> string \<times> string" where
  "number_tail r = (case r of
       c # t \<Rightarrow>
         if c = CHR ''.'' then (takeWhile is_digit t \<noteq> [], takeWhile is_digit t, dropWhile is_digit t)
         else (True, [], r)
     | [] \<Rightarrow> (True, [], []))"

definition parse_number :: "string \<Rightarrow> (json \<times> string) option" where
  "parse_number s =
     (let neg = (case s of c # _ \<Rightarrow> c = CHR ''-'' | [] \<Rightarrow> False);
          u = (if neg then tl s else s);
          ip = takeWhile is_digit u;
          (ok, fp, q) = number_tail (dropWhile is_digit u)
      in if ip = [] \<or> (1 < length ip \<and> hd ip = CHR ''0'') \<or> \<not> ok then None
         else map_option (\<lambda>(e, z). (JNum ((if neg then js_neg else id) (to_jsnum (decimal_value ip fp e))), z))
                (take_exponent q))"

definition expect :: "string \<Rightarrow> 'a \<Rightarrow> string \<Rightarrow> ('a \<times> string) option" where
  "expect w v s = (if take (length w) s = w then Some (v, drop (length w) s) else None)"

subsection \<open>\<open>JSON.parse\<close>: values\<close>

text \<open>A repeated key keeps the position of its first and the value of its last occurrence.\<close>

definition dedup_keys :: "(string \<times> json) list \<Rightarrow> (string \<times> json) list" where
  "dedup_keys kvs = foldl (\<lambda>m (k, v). AList.update k v m) [] kvs"

fun pvalue :: "nat \<Rightarrow> string \<Rightarrow> (json \<times> string) option"
  and pelems :: "nat \<Rightarrow> string \<Rightarrow> (json list \<times> string) option"
  and pmembers :: "nat \<Rightarrow> string \<Rightarrow> ((string \<times> json) list \<times> string) option"
where
  "pvalue 0 s = None"
| "pvalue (Suc n) s =
     (case skip_ws s of
        [] \<Rightarrow> None
      | c # r \<Rightarrow>
          if c = CHR 0x22 then map_option (\<lambda>(t, q). (JStr t, q)) (parse_string r)
          else if c = CHR ''['' then
            (case skip_ws r of
               [] \<Rightarrow> None
             | d # q \<Rightarrow> if d = CHR '']'' then Some (JArr [], q)
                        else map_option (\<lambda>(js, z). (JArr js, z)) (pelems n r))
          else if c = CHR ''{'' then
            (case skip_ws r of
               [] \<Rightarrow> None
             | d # q \<Rightarrow> if d = CHR ''}'' then Some (JObj [], q)
                        else map_option (\<lambda>(kvs, z). (JObj (dedup_keys kvs), z)) (pmembers n r))
          else if c = CHR ''t'' then expect ''rue'' (JBool True) r
          else if c = CHR ''f'' then expect ''alse'' (JBool False) r
          else if c = CHR ''n'' then expect ''ull'' JNull r
          else parse_number (c # r))"
| "pelems 0 s = None"
| "pelems (Suc n) s =
     (case pvalue n s of
        None \<Rightarrow> None
      | Some (j, q) \<Rightarrow>
          (case skip_ws q of
             [] \<Rightarrow> None
           | d # z \<Rightarrow>
               if d = CHR '','' then map_option (\<lambda>(js, y). (j # js, y)) (pelems n z)
               else if d = CHR '']'' then Some ([j], z)
               else None))"
| "pmembers 0 s = None"
| "pmembers (Suc n) s =
     (case skip_ws s of
        [] \<Rightarrow> None
      | c # r \<Rightarrow>
          if c \<noteq> CHR 0x22 then None
          else (case parse_string r of
              None \<Rightarrow> None
            | Some (k, q) \<Rightarrow>
                (case skip_ws q of
                   [] \<Rightarrow> None
                 | d # z \<Rightarrow>
                     if d \<noteq> CHR '':'' then None
                     else (case pvalue n z of
                         None \<Rightarrow> None
                       | Some (j, y) \<Rightarrow>
                           (case skip_ws y of
                              [] \<Rightarrow> None
                            | e # x \<Rightarrow>
                                if e = CHR '','' then map_option (\<lambda>(kvs, w). ((k, j) # kvs, w)) (pmembers n x)
                                else if e = CHR ''}'' then Some ([(k, j)], x)
                                else None)))))"

text \<open>\<open>None\<close> stands for the \<open>SyntaxError\<close> that \<open>JSON.parse\<close> throws.\<close>

definition json_parse :: "string \<Rightarrow> json option" where
  "json_parse s =
     (case pvalue (2 * length s + 2) s of
        Some (j, r) \<Rightarrow> if skip_ws r = [] then Some j else None
      | None \<Rightarrow> None)"

end
