(* ===== verification/EventStore.thy ===== *)
theory EventStore
  imports Json
begin

text \<open>
  The PostgreSQL tables as the entities (\<open>src/src/events/\<close>) and the migrations
  (\<open>src/src/database/migrations/\<close>) declare them, and the statements the sources run on them inside
  \<open>dataSource.transaction\<close>. The \<open>events\<close> table is a map keyed by its unique \<open>event_id\<close>, \<open>dlq_messages\<close>
  a list in insertion order. What the server contributes to a transaction is the record \<open>pg\<close>:
  generated UUID, clock, error texts, and the failures it may answer any statement or the commit with. The
  column types of the schema are checked by \<open>schema_error\<close>, which gives PostgreSQL's SQLSTATE.
\<close>

subsection \<open>Rows\<close>

datatype event_status = Received | Processing | Processed | Failed | Dead

fun status_string :: "event_status \<Rightarrow> string" where
  "status_string Received = ''received''"
| "status_string Processing = ''processing''"
| "status_string Processed = ''processed''"
| "status_string Failed = ''failed''"
| "status_string Dead = ''dead''"

text \<open>The enum type \<open>events_status_enum\<close> orders its values as it lists them.\<close>

fun status_rank :: "event_status \<Rightarrow> nat" where
  "status_rank Received = 0"
| "status_rank Processing = 1"
| "status_rank Processed = 2"
| "status_rank Failed = 3"
| "status_rank Dead = 4"

lemma status_rank_inj: "status_rank a = status_rank b \<Longrightarrow> a = b"
  by (cases a; cases b) simp_all

instantiation event_status :: linorder
begin

definition less_eq_event_status :: "event_status \<Rightarrow> event_status \<Rightarrow> bool" where
  "less_eq_event_status a b \<longleftrightarrow> status_rank a \<le> status_rank b"

definition less_event_status :: "event_status \<Rightarrow> event_status \<Rightarrow> bool" where
  "less_event_status a b \<longleftrightarrow> status_rank a < status_rank b"

instance
  by standard (auto simp: less_eq_event_status_def less_event_status_def intro: status_rank_inj)

end

record event_row =
  ev_id :: string
  ev_eventId :: string
  ev_eventType :: string
  ev_status :: event_status
  ev_attempts :: int
  ev_duplicateCount :: int
  ev_correlationId :: string
  ev_payload :: json
  ev_failureReason :: "string option"
  ev_createdAt :: int
  ev_updatedAt :: int

record dlq_row =
  dl_id :: string
  dl_messageId :: "string option"
  dl_correlationId :: string
  dl_eventId :: "string option"
  dl_reason :: string
  dl_attempts :: int
  dl_payload :: "string option"
  dl_createdAt :: int
  dl_replayedAt :: "int option"

record db =
  events :: "string \<rightharpoonup> event_row"
  dlq :: "dlq_row list"

definition empty_db :: db where
  "empty_db = \<lparr>events = Map.empty, dlq = []\<rparr>"

subsection \<open>Statements and what the server may answer\<close>

record event_values =
  iv_eventId :: string
  iv_eventType :: string
  iv_correlationId :: string
  iv_payload :: json
  iv_status :: event_status

record event_patch =
  up_status :: "event_status option"
  up_attempts :: "int option"
  up_failureReason :: "string option option"

record dlq_values =
  dv_messageId :: "string option"
  dv_correlationId :: string
  dv_eventId :: "string option"
  dv_reason :: string
  dv_attempts :: jsnum
  dv_payload :: string

datatype stmt =
    InsertEvent event_values
  | LockEvent string
  | UpdateEvent string event_patch
  | IncrementDuplicate string
  | InsertDlq dlq_values
  | LockDlq string
  | UpdateDlq string int
  | DeleteDlq string
  | Commit
  | CommitAcknowledged

text \<open>
  \<open>pg_fault\<close> is any failure of a statement beyond the column types. A failing \<open>Commit\<close> rolls the
  transaction back; a failing \<open>CommitAcknowledged\<close> is a commit that took effect although the client
  only saw the connection break.
\<close>

record pg =
  pg_uuid :: string
  pg_now :: int
  pg_message :: "stmt \<Rightarrow> string"
  pg_fault :: "stmt \<Rightarrow> exn option"

text \<open>A server that answers every statement.\<close>

definition calm_pg :: pg where
  "calm_pg =
     \<lparr>pg_uuid = ''00000000-0000-4000-8000-000000000000'', pg_now = 0,
      pg_message = (\<lambda>_. ''rejected''), pg_fault = (\<lambda>_. None)\<rparr>"

text \<open>Characters (code points) of a string, what \<open>varchar(n)\<close> counts.\<close>

definition code_points :: "string \<Rightarrow> nat" where
  "code_points s = length (filter (\<lambda>c. code c < 128 \<or> 192 \<le> code c) s)"

definition text_error :: "string \<Rightarrow> string option" where
  "text_error s = (if CHR 0x00 \<in> set s then Some ''22021'' else None)"

definition varchar255_error :: "string \<Rightarrow> string option" where
  "varchar255_error s =
     (if CHR 0x00 \<in> set s then Some ''22021'' else if 255 < code_points s then Some ''22001'' else None)"

definition int4_error :: "jsnum \<Rightarrow> string option" where
  "int4_error n = (case n of
       Fin q \<Rightarrow> if snd (quotient_of q) \<noteq> 1 then Some ''22P02''
                else if q < - (2 ^ 31) \<or> 2 ^ 31 \<le> q then Some ''22003'' else None
     | _ \<Rightarrow> Some ''22P02'')"

fun json_has_nul :: "json \<Rightarrow> bool" where
  "json_has_nul (JStr s) = (CHR 0x00 \<in> set s)"
| "json_has_nul (JArr js) = list_ex json_has_nul js"
| "json_has_nul (JObj kvs) = list_ex (\<lambda>(k, v). CHR 0x00 \<in> set k \<or> json_has_nul v) kvs"
| "json_has_nul _ = False"

fun first_error :: "string option list \<Rightarrow> string option" where
  "first_error [] = None"
| "first_error (None # es) = first_error es"
| "first_error (Some e # es) = Some e"

fun opt_error :: "('a \<Rightarrow> string option) \<Rightarrow> 'a option \<Rightarrow> string option" where
  "opt_error f None = None"
| "opt_error f (Some x) = f x"

fun schema_error :: "stmt \<Rightarrow> string option" where
  "schema_error (InsertEvent v) =
     first_error [varchar255_error (iv_eventId v), varchar255_error (iv_eventType v),
                  varchar255_error (iv_correlationId v),
                  if json_has_nul (iv_payload v) then Some ''22P05'' else None]"
| "schema_error (LockEvent k) = text_error k"
| "schema_error (UpdateEvent k p) =
     first_error [text_error k, opt_error (\<lambda>a. int4_error (Fin (of_int a))) (up_attempts p),
                  opt_error (opt_error text_error) (up_failureReason p)]"
| "schema_error (IncrementDuplicate k) = text_error k"
| "schema_error (InsertDlq v) =
     first_error [opt_error varchar255_error (dv_messageId v), varchar255_error (dv_correlationId v),
                  opt_error varchar255_error (dv_eventId v), text_error (dv_reason v),
                  int4_error (dv_attempts v), text_error (dv_payload v)]"
| "schema_error (LockDlq k) = None"
| "schema_error (UpdateDlq k t) = None"
| "schema_error (DeleteDlq k) = None"
| "schema_error Commit = None"
| "schema_error CommitAcknowledged = None"

definition stmt_error :: "pg \<Rightarrow> stmt \<Rightarrow> exn option" where
  "stmt_error pg st =
     (case schema_error st of
        Some c \<Rightarrow> Some (QueryFailed (Some c) (pg_message pg st))
      | None \<Rightarrow> pg_fault pg st)"

subsection \<open>Transactions\<close>

type_synonym 'a tx = "db \<Rightarrow> exn + ('a \<times> db)"

definition run_stmt :: "pg \<Rightarrow> stmt \<Rightarrow> (db \<Rightarrow> 'a \<times> db) \<Rightarrow> 'a tx" where
  "run_stmt pg st f s = (case stmt_error pg st of Some e \<Rightarrow> Inl e | None \<Rightarrow> Inr (f s))"

definition bind_tx :: "'a tx \<Rightarrow> ('a \<Rightarrow> 'b tx) \<Rightarrow> 'b tx" where
  "bind_tx m k s = (case m s of Inl e \<Rightarrow> Inl e | Inr (a, s') \<Rightarrow> k a s')"

definition return_tx :: "'a \<Rightarrow> 'a tx" where
  "return_tx a s = Inr (a, s)"

definition throw_tx :: "exn \<Rightarrow> 'a tx" where
  "throw_tx e s = Inl e"

definition transaction :: "pg \<Rightarrow> 'a tx \<Rightarrow> db \<Rightarrow> 'a result \<times> db" where
  "transaction pg body s =
     (case body s of
        Inl e \<Rightarrow> (Inl e, s)
      | Inr (a, s') \<Rightarrow>
          (case pg_fault pg Commit of
             Some e \<Rightarrow> (Inl e, s)
           | None \<Rightarrow>
               (case pg_fault pg CommitAcknowledged of
                  Some e \<Rightarrow> (Inl e, s')
                | None \<Rightarrow> (Inr a, s'))))"

subsection \<open>The statements on the tables\<close>

definition new_event :: "pg \<Rightarrow> event_values \<Rightarrow> event_row" where
  "new_event pg v =
     \<lparr>ev_id = pg_uuid pg, ev_eventId = iv_eventId v, ev_eventType = iv_eventType v,
      ev_status = iv_status v, ev_attempts = 0, ev_duplicateCount = 0,
      ev_correlationId = iv_correlationId v, ev_payload = iv_payload v, ev_failureReason = None,
      ev_createdAt = pg_now pg, ev_updatedAt = pg_now pg\<rparr>"

text \<open>\<open>INSERT ... ON CONFLICT DO NOTHING RETURNING\<close>: the rows returned, none on a conflict.\<close>

definition put_event :: "pg \<Rightarrow> event_values \<Rightarrow> db \<Rightarrow> string list \<times> db" where
  "put_event pg v s =
     (case events s (iv_eventId v) of
        Some _ \<Rightarrow> ([], s)
      | None \<Rightarrow> ([pg_uuid pg], s\<lparr>events := (events s)(iv_eventId v \<mapsto> new_event pg v)\<rparr>))"

definition insert_event_or_ignore :: "pg \<Rightarrow> event_values \<Rightarrow> string list tx" where
  "insert_event_or_ignore pg v = run_stmt pg (InsertEvent v) (put_event pg v)"

text \<open>\<open>SELECT ... FOR UPDATE\<close>\<close>

definition lock_event :: "pg \<Rightarrow> string \<Rightarrow> event_row option tx" where
  "lock_event pg k = run_stmt pg (LockEvent k) (\<lambda>s. (events s k, s))"

definition apply_patch :: "pg \<Rightarrow> event_patch \<Rightarrow> event_row \<Rightarrow> event_row" where
  "apply_patch pg p row =
     row\<lparr>ev_status := nullish (up_status p) (ev_status row),
         ev_attempts := nullish (up_attempts p) (ev_attempts row),
         ev_failureReason := nullish (up_failureReason p) (ev_failureReason row),
         ev_updatedAt := pg_now pg\<rparr>"

definition modify_event :: "string \<Rightarrow> (event_row \<Rightarrow> event_row) \<Rightarrow> db \<Rightarrow> db" where
  "modify_event k f s = s\<lparr>events := (events s)(k := map_option f (events s k))\<rparr>"

definition update_event :: "pg \<Rightarrow> string \<Rightarrow> event_patch \<Rightarrow> unit tx" where
  "update_event pg k p = run_stmt pg (UpdateEvent k p) (\<lambda>s. ((), modify_event k (apply_patch pg p) s))"

definition bump_duplicates :: "pg \<Rightarrow> event_row \<Rightarrow> event_row" where
  "bump_duplicates pg row = row\<lparr>ev_duplicateCount := ev_duplicateCount row + 1, ev_updatedAt := pg_now pg\<rparr>"

definition increment_duplicates :: "pg \<Rightarrow> string \<Rightarrow> unit tx" where
  "increment_duplicates pg k =
     run_stmt pg (IncrementDuplicate k) (\<lambda>s. ((), modify_event k (bump_duplicates pg) s))"

definition new_dlq_row :: "pg \<Rightarrow> dlq_values \<Rightarrow> dlq_row" where
  "new_dlq_row pg v =
     \<lparr>dl_id = pg_uuid pg, dl_messageId = dv_messageId v, dl_correlationId = dv_correlationId v,
      dl_eventId = dv_eventId v, dl_reason = dv_reason v,
      dl_attempts = (case dv_attempts v of Fin q \<Rightarrow> floor q | _ \<Rightarrow> 0),
      dl_payload = Some (dv_payload v), dl_createdAt = pg_now pg, dl_replayedAt = None\<rparr>"

text \<open>
  The unique index on \<open>message_id\<close> leaves NULLs unconstrained. (A generated UUID never collides, so
  the primary keys raise no conflict.)
\<close>

definition dlq_conflict :: "string option \<Rightarrow> dlq_row list \<Rightarrow> bool" where
  "dlq_conflict messageId rows \<longleftrightarrow>
     list_ex (\<lambda>r. messageId \<noteq> None \<and> dl_messageId r = messageId) rows"

definition put_dlq :: "pg \<Rightarrow> dlq_values \<Rightarrow> db \<Rightarrow> db" where
  "put_dlq pg v s =
     (if dlq_conflict (dv_messageId v) (dlq s) then s
      else s\<lparr>dlq := dlq s @ [new_dlq_row pg v]\<rparr>)"

definition insert_dlq_or_ignore :: "pg \<Rightarrow> dlq_values \<Rightarrow> unit tx" where
  "insert_dlq_or_ignore pg v = run_stmt pg (InsertDlq v) (\<lambda>s. ((), put_dlq pg v s))"

definition lock_dlq :: "pg \<Rightarrow> string \<Rightarrow> dlq_row option tx" where
  "lock_dlq pg i = run_stmt pg (LockDlq i) (\<lambda>s. (List.find (\<lambda>r. dl_id r = i) (dlq s), s))"

definition update_dlq_replayed :: "pg \<Rightarrow> string \<Rightarrow> int \<Rightarrow> unit tx" where
  "update_dlq_replayed pg i t =
     run_stmt pg (UpdateDlq i t)
       (\<lambda>s. ((), s\<lparr>dlq := map (\<lambda>r. if dl_id r = i then r\<lparr>dl_replayedAt := Some t\<rparr> else r) (dlq s)\<rparr>))"

text \<open>\<open>repository.delete({ id })\<close>: the number of rows deleted.\<close>

definition delete_dlq :: "pg \<Rightarrow> string \<Rightarrow> nat tx" where
  "delete_dlq pg i =
     run_stmt pg (DeleteDlq i)
       (\<lambda>s. (length (filter (\<lambda>r. dl_id r = i) (dlq s)), s\<lparr>dlq := filter (\<lambda>r. dl_id r \<noteq> i) (dlq s)\<rparr>))"

subsection \<open>Lemmas on statements and transactions\<close>

named_theorems tx_simps \<open>running a transaction body statement by statement\<close>

lemma bind_run [tx_simps]:
  "bind_tx (run_stmt pg st f) k s =
     (case stmt_error pg st of Some e \<Rightarrow> Inl e | None \<Rightarrow> k (fst (f s)) (snd (f s)))"
  by (simp add: bind_tx_def run_stmt_def split: option.splits prod.splits)

lemma bind_tx_assoc [tx_simps]: "bind_tx (bind_tx m k) l s = bind_tx m (\<lambda>a. bind_tx (k a) l) s"
  by (simp add: bind_tx_def split: sum.splits prod.splits)

lemma bind_return [tx_simps]: "bind_tx (return_tx a) k s = k a s"
  by (simp add: bind_tx_def return_tx_def)

lemma bind_throw [tx_simps]: "bind_tx (throw_tx e) k s = Inl e"
  by (simp add: bind_tx_def throw_tx_def)

lemmas [tx_simps] = return_tx_def throw_tx_def

lemma transaction_Inr:
  "transaction pg body s = (Inr a, s') \<longleftrightarrow>
     body s = Inr (a, s') \<and> pg_fault pg Commit = None \<and> pg_fault pg CommitAcknowledged = None"
  by (auto simp: transaction_def split: sum.splits option.splits prod.splits)

text \<open>A failed transaction left no trace, or all of it (a commit whose acknowledgement was lost).\<close>

lemma transaction_cases:
  obtains (committed) a s' where "body s = Inr (a, s')" and "snd (transaction pg body s) = s'"
  | (rolled_back) e where "transaction pg body s = (Inl e, s)"
proof (cases "body s")
  case (Inl e)
  then show ?thesis
    by (intro rolled_back) (simp add: transaction_def)
next
  case (Inr r)
  obtain a s' where r: "r = (a, s')"
    by (cases r)
  show ?thesis
  proof (cases "pg_fault pg Commit")
    case None
    with Inr r show ?thesis
      by (intro committed) (simp_all add: transaction_def split: option.splits)
  next
    case (Some e)
    with Inr r show ?thesis
      by (intro rolled_back) (simp add: transaction_def)
  qed
qed

lemma transaction_preserves:
  assumes "\<And>a s'. body s = Inr (a, s') \<Longrightarrow> P s'" and "P s"
  shows "P (snd (transaction pg body s))"
  by (rule transaction_cases [of body s pg]) (use assms in auto)

lemma modify_event_simps [simp]:
  "events (modify_event k f s) j = (if j = k then map_option f (events s k) else events s j)"
  "dlq (modify_event k f s) = dlq s"
  by (simp_all add: modify_event_def)

lemma put_event_simps [simp]:
  "dlq (snd (put_event pg v s)) = dlq s"
  "events (snd (put_event pg v s)) j =
     (if j = iv_eventId v \<and> events s j = None then Some (new_event pg v) else events s j)"
  "fst (put_event pg v s) = (if events s (iv_eventId v) = None then [pg_uuid pg] else [])"
  by (auto simp: put_event_def split: option.splits)

lemma put_dlq_events [simp]: "events (put_dlq pg v s) = events s"
  by (simp add: put_dlq_def)

lemma apply_patch_simps [simp]:
  "ev_status (apply_patch pg p row) = nullish (up_status p) (ev_status row)"
  "ev_attempts (apply_patch pg p row) = nullish (up_attempts p) (ev_attempts row)"
  "ev_failureReason (apply_patch pg p row) = nullish (up_failureReason p) (ev_failureReason row)"
  "ev_duplicateCount (apply_patch pg p row) = ev_duplicateCount row"
  "ev_eventId (apply_patch pg p row) = ev_eventId row"
  "ev_payload (apply_patch pg p row) = ev_payload row"
  by (simp_all add: apply_patch_def)

lemma bump_duplicates_simps [simp]:
  "ev_status (bump_duplicates pg row) = ev_status row"
  "ev_attempts (bump_duplicates pg row) = ev_attempts row"
  "ev_failureReason (bump_duplicates pg row) = ev_failureReason row"
  "ev_duplicateCount (bump_duplicates pg row) = ev_duplicateCount row + 1"
  "ev_eventId (bump_duplicates pg row) = ev_eventId row"
  by (simp_all add: bump_duplicates_def)

lemma new_event_simps [simp]:
  "ev_status (new_event pg v) = iv_status v"
  "ev_attempts (new_event pg v) = 0"
  "ev_duplicateCount (new_event pg v) = 0"
  "ev_failureReason (new_event pg v) = None"
  "ev_eventId (new_event pg v) = iv_eventId v"
  by (simp_all add: new_event_def)

lemma stmt_error_None:
  "stmt_error pg st = None \<longleftrightarrow> schema_error st = None \<and> pg_fault pg st = None"
  by (simp add: stmt_error_def split: option.splits)

subsection \<open>Insert-or-ignore on a unique key\<close>

text \<open>
  Both tables are written through an insert that ignores a key already present. What the clients
  rely on: a key is present afterwards, the insert says whether it was the one that added it, and
  it changes nothing otherwise.
\<close>

lemma count_list_distinct: "distinct xs \<Longrightarrow> count_list xs k = (if k \<in> set xs then 1 else 0)"
  by (induction xs) auto

locale unique_store =
  fixes has :: "'t \<Rightarrow> 'k \<Rightarrow> bool"
    and put :: "'k \<Rightarrow> 'v \<Rightarrow> 't \<Rightarrow> bool \<times> 't"
  assumes has_put: "has (snd (put k v t)) j \<longleftrightarrow> j = k \<or> has t j"
    and claimed_iff: "fst (put k v t) \<longleftrightarrow> \<not> has t k"
    and put_ignored: "has t k \<Longrightarrow> snd (put k v t) = t"
begin

primrec claims :: "('k \<times> 'v) list \<Rightarrow> 't \<Rightarrow> 'k list" where
  "claims [] t = []"
| "claims (kv # kvs) t =
     (let r = put (fst kv) (snd kv) t in (if fst r then [fst kv] else []) @ claims kvs (snd r))"

lemma put_idempotent: "put k v (snd (put k w t)) = (False, snd (put k w t))"
  using claimed_iff [of k v "snd (put k w t)"] put_ignored [of "snd (put k w t)" k v] has_put [of k w t k]
  by (simp add: prod_eq_iff)

text \<open>However inserts interleave, each key is claimed once, by the first insert of an absent key.\<close>

lemma claims_set: "set (claims kvs t) = {k \<in> fst ` set kvs. \<not> has t k}"
  by (induction kvs arbitrary: t) (auto simp: Let_def claimed_iff has_put)

lemma claims_distinct: "distinct (claims kvs t)"
  by (induction kvs arbitrary: t) (auto simp: Let_def claims_set has_put)

lemma claim_once:
  "count_list (claims kvs t) k = (if k \<in> fst ` set kvs \<and> \<not> has t k then 1 else 0)"
  using claims_set [of kvs t] claims_distinct [of kvs t]
  by (simp add: count_list_distinct)

end

definition has_event :: "db \<Rightarrow> string \<Rightarrow> bool" where
  "has_event s k \<longleftrightarrow> events s k \<noteq> None"

definition claim_event :: "pg \<Rightarrow> string \<Rightarrow> event_values \<Rightarrow> db \<Rightarrow> bool \<times> db" where
  "claim_event pg k v s = (let r = put_event pg (v\<lparr>iv_eventId := k\<rparr>) s in (fst r \<noteq> [], snd r))"

definition has_dead_letter :: "db \<Rightarrow> string \<Rightarrow> bool" where
  "has_dead_letter s m \<longleftrightarrow> (\<exists>r \<in> set (dlq s). dl_messageId r = Some m)"

definition claim_dead_letter :: "pg \<Rightarrow> string \<Rightarrow> dlq_values \<Rightarrow> db \<Rightarrow> bool \<times> db" where
  "claim_dead_letter pg m v s = (\<not> has_dead_letter s m, put_dlq pg (v\<lparr>dv_messageId := Some m\<rparr>) s)"

lemma dlq_conflict_Some: "dlq_conflict (Some m) (dlq s) \<longleftrightarrow> has_dead_letter s m"
  by (auto simp: dlq_conflict_def has_dead_letter_def list_ex_iff)

lemma dlq_conflict_None [simp]: "\<not> dlq_conflict None rows"
  by (induction rows) (simp_all add: dlq_conflict_def)

interpretation event_table: unique_store has_event "claim_event pg" for pg
  by unfold_locales (auto simp: has_event_def claim_event_def Let_def put_event_def split: option.splits)

interpretation dead_letter_table: unique_store has_dead_letter "claim_dead_letter pg" for pg
  by unfold_locales
    (auto simp: claim_dead_letter_def put_dlq_def dlq_conflict_Some new_dlq_row_def,
      auto simp: has_dead_letter_def)

end
