(* ===== verification/JsonText.thy ===== *)
theory JsonText
  imports Json
begin

text \<open>
  \<open>JSON.stringify\<close> (\<open>json_text\<close>), the round trip through \<open>json_parse\<close> (\<open>json_roundtrip\<close>) and the
  adequacy of the parser's fuel (\<open>parse_fuel\<close>).
\<close>

subsection \<open>\<open>JSON.stringify\<close>\<close>

definition esc :: "char \<Rightarrow> string" where
  "esc c =
     (if c = CHR 0x22 \<or> c = CHR 0x5C then [CHR 0x5C, c]
      else if c = CHR 0x08 then [CHR 0x5C, CHR ''b'']
      else if c = CHR 0x0C then [CHR 0x5C, CHR ''f'']
      else if c = CHR 0x0A then [CHR 0x5C, CHR ''n'']
      else if c = CHR 0x0D then [CHR 0x5C, CHR ''r'']
      else if c = CHR 0x09 then [CHR 0x5C, CHR ''t'']
      else if code c < 32 then
        [CHR 0x5C, CHR ''u'', CHR ''0'', CHR ''0'', hex_digit (code c div 16), hex_digit (code c mod 16)]
      else [c])"

definition quote :: "string \<Rightarrow> string" where
  "quote s = CHR 0x22 # concat (map esc s) @ [CHR 0x22]"

text \<open>
  \<open>String(n)\<close> of a number: modelled for integers of magnitude below \<open>10\<^sup>2\<^sup>1\<close>, the only numbers the
  sources serialise; \<open>None\<close> marks the others.
\<close>

definition number_text :: "jsnum \<Rightarrow> string option" where
  "number_text n = (case n of
       Fin q \<Rightarrow> if snd (quotient_of q) = 1 \<and> \<bar>q\<bar> < 10 ^ 21 then Some (int_to_string (fst (quotient_of q))) else None
     | _ \<Rightarrow> Some ''null'')"

fun json_text :: "json \<Rightarrow> string option" where
  "json_text JNull = Some ''null''"
| "json_text (JBool b) = Some (if b then ''true'' else ''false'')"
| "json_text (JNum n) = number_text n"
| "json_text (JStr s) = Some (quote s)"
| "json_text (JArr js) =
     map_option (\<lambda>ts. CHR ''['' # js_join '','' ts @ '']'') (those (map json_text js))"
| "json_text (JObj kvs) =
     map_option (\<lambda>ts. CHR ''{'' # js_join '','' ts @ ''}'')
       (those (map (\<lambda>(k, v). map_option (\<lambda>t. quote k @ CHR '':'' # t) (json_text v)) kvs))"

text \<open>What survives the trip through text: finite numbers, no escaped halves of a surrogate pair side
  by side, no repeated key.\<close>

fun json_plain :: "json \<Rightarrow> bool" where
  "json_plain (JNum n) = is_finite n"
| "json_plain (JStr s) = (join_surrogates s = s)"
| "json_plain (JArr js) = list_all json_plain js"
| "json_plain (JObj kvs) =
     (distinct (map fst kvs) \<and> list_all (\<lambda>(k, v). join_surrogates k = k \<and> json_plain v) kvs)"
| "json_plain _ = True"

subsection \<open>Round trip\<close>

lemma join_surrogates_ascii: "\<forall>c \<in> set s. code c < 128 \<Longrightarrow> join_surrogates s = s"
  by (induction s rule: join_surrogates.induct) (auto simp: join_surrogates.simps)

lemma hex_val_hex_digit [simp]: "d < 16 \<Longrightarrow> hex_val (hex_digit d) = Some d"
  by (auto simp: hex_val_def hex_digit_def is_digit_def digit_val_def)

lemma hex_zero [simp]: "hex_val (CHR ''0'') = Some 0"
  by code_simp

lemma pstring_esc: "pstring (esc c @ x) = map_option (\<lambda>(t, q). (c # t, q)) (pstring x)"
proof (cases "c \<in> {CHR 0x22, CHR 0x5C, CHR 0x08, CHR 0x0C, CHR 0x0A, CHR 0x0D, CHR 0x09}")
  case True
  then show ?thesis by (auto simp: esc_def esc_char_def)
next
  case False
  show ?thesis
  proof (cases "code c < 32")
    case True
    have *: "16 * int (code c div 16) + int (code c mod 16) = int (code c)"
      by (metis mult_div_mod_eq of_nat_add of_nat_mult of_nat_numeral)
    have "utf8 (code c) = [c]"
      using True by (simp add: utf8_def code_def)
    moreover have "code c div 16 < 16" using True by linarith
    ultimately show ?thesis
      using False True by (simp add: esc_def * del: div_less_dividend)
  next
    case False
    with \<open>c \<notin> _\<close> show ?thesis by (simp add: esc_def)
  qed
qed

lemma pstring_quote: "pstring (concat (map esc s) @ CHR 0x22 # r) = Some (s, r)"
  by (induction s) (simp_all add: pstring_esc)

lemma parse_string_quote:
  "join_surrogates s = s \<Longrightarrow> parse_string (concat (map esc s) @ CHR 0x22 # r) = Some (s, r)"
  by (simp add: parse_string_def pstring_quote)

definition json_stop :: "string \<Rightarrow> bool" where
  "json_stop r \<longleftrightarrow> (case r of [] \<Rightarrow> True | c # _ \<Rightarrow> c \<in> {CHR '','', CHR '']'', CHR ''}''})"

lemma json_stop_simps [simp]:
  "json_stop []" "json_stop (CHR '','' # r)" "json_stop (CHR '']'' # r)" "json_stop (CHR ''}'' # r)"
  by (simp_all add: json_stop_def)

lemma skip_ws_stop [simp]: "json_stop r \<Longrightarrow> skip_ws r = r"
  by (cases r) (auto simp: json_stop_def skip_ws_def is_ws_def code_def)

lemma digits_no_leading_zero: "1 < length (digits n) \<Longrightarrow> hd (digits n) \<noteq> CHR ''0''"
  by (cases n) (simp, metis hd_digits zero_less_Suc)

lemma takeWhile_digits_append [simp]:
  assumes "json_stop r"
  shows "takeWhile is_digit (digits n @ r) = digits n" and "dropWhile is_digit (digits n @ r) = r"
  using assms digits_all [of n]
  by (auto simp: json_stop_def takeWhile_append dropWhile_append split: list.splits)

lemma take_exponent_stop [simp]: "json_stop r \<Longrightarrow> take_exponent r = Some (0, r)"
  by (auto simp: take_exponent_def json_stop_def split: list.splits)

lemma to_jsnum_small: "\<bar>q\<bar> < 10 ^ 21 \<Longrightarrow> to_jsnum q = Fin q"
  by (simp add: to_jsnum_def double_limit_def abs_less_iff)

lemma parse_number_nat:
  assumes "json_stop r" and "n < 10 ^ 21"
  shows "parse_number (digits n @ r) = Some (JNum (Fin (of_nat n)), r)"
    and "parse_number (CHR ''-'' # digits n @ r) = Some (JNum (Fin (- of_nat n)), r)"
proof -
  have small: "to_jsnum (of_nat n) = Fin (of_nat n)"
  proof (rule to_jsnum_small)
    have "(of_nat n :: rat) < of_nat (10 ^ 21)" using assms(2) by (simp only: of_nat_less_iff)
    then show "\<bar>of_nat n :: rat\<bar> < 10 ^ 21" by simp
  qed
  obtain d ds where d: "digits n = d # ds" "is_digit d"
    by (metis digits_all digits_not_Nil list.set_intros(1) neq_Nil_conv)
  then have neg: "(case digits n @ r of c # x \<Rightarrow> c = CHR ''-'' | [] \<Rightarrow> False) = False" by auto
  have tail: "number_tail r = (True, [], r)"
    using assms(1) by (auto simp: number_tail_def json_stop_def split: list.splits)
  note tw = takeWhile_digits_append [OF assms(1), of n]
  show "parse_number (digits n @ r) = Some (JNum (Fin (of_nat n)), r)"
    using assms(1) digits_no_leading_zero [of n]
    unfolding parse_number_def Let_def neg if_False tw tail by (simp add: small)
  show "parse_number (CHR ''-'' # digits n @ r) = Some (JNum (Fin (- of_nat n)), r)"
    using assms(1) digits_no_leading_zero [of n]
    unfolding parse_number_def Let_def list.case list.sel simp_thms if_True tw tail by (simp add: small)
qed

lemma dedup_keys_distinct: "distinct (map fst kvs) \<Longrightarrow> dedup_keys kvs = kvs"
proof (induction kvs rule: rev_induct)
  case Nil
  show ?case by (simp add: dedup_keys_def)
next
  case (snoc kv kvs)
  obtain k v where kv: "kv = (k, v)" by fastforce
  have app: "k \<notin> fst ` set m \<Longrightarrow> AList.update k v m = m @ [(k, v)]" for m
    by (induction m) auto
  from snoc kv show ?case by (simp add: dedup_keys_def app)
qed

definition json_start :: "char \<Rightarrow> bool" where
  "json_start c \<longleftrightarrow> c \<in> set ''[{tfn-'' \<or> c = CHR 0x22 \<or> is_digit c"

lemma json_start_not: "json_start c \<Longrightarrow> \<not> is_ws c \<and> c \<noteq> CHR '']'' \<and> c \<noteq> CHR ''}'' \<and> c \<noteq> CHR '':''"
  by (auto simp: json_start_def is_ws_def code_def is_digit_def)

lemma int_to_string_start: "\<exists>c u. int_to_string i = c # u \<and> json_start c"
  by (cases "digits (nat i)") (use digits_all [of "nat i"] in \<open>auto simp: int_to_string_def json_start_def\<close>)

lemma json_text_start: "json_text j = Some t \<Longrightarrow> \<exists>c u. t = c # u \<and> json_start c"
  using int_to_string_start
  by (cases j) (auto simp: quote_def number_text_def json_start_def split: jsnum.splits if_splits)

lemma skip_ws_start [simp]: "\<not> is_ws c \<Longrightarrow> skip_ws (c # r) = c # r"
  by (simp add: skip_ws_def)

lemma not_ws [simp]:
  "\<not> is_ws (CHR ''['')" "\<not> is_ws (CHR ''{'')" "\<not> is_ws (CHR '']'')" "\<not> is_ws (CHR ''}'')"
  "\<not> is_ws (CHR '','')" "\<not> is_ws (CHR '':'')" "\<not> is_ws (CHR 0x22)"
  "\<not> is_ws (CHR ''t'')" "\<not> is_ws (CHR ''f'')" "\<not> is_ws (CHR ''n'')" "\<not> is_ws (CHR ''-'')"
  by code_simp+

lemma parse_number_int:
  assumes "json_stop r" and "\<bar>i\<bar> < 10 ^ 21"
  shows "parse_number (int_to_string i @ r) = Some (JNum (Fin (of_int i)), r)"
proof (cases "i < 0")
  case True
  then have "nat (- i) < 10 ^ 21" using assms(2) by (simp add: nat_less_iff)
  with True parse_number_nat(2) [OF assms(1), of "nat (- i)"] show ?thesis
    by (simp add: int_to_string_def)
next
  case False
  then have "nat i < 10 ^ 21" using assms(2) by (simp add: nat_less_iff)
  with False parse_number_nat(1) [OF assms(1), of "nat i"] show ?thesis
    by (simp add: int_to_string_def)
qed

lemma pvalue_number:
  assumes "\<not> is_ws c" and "c \<notin> set ''[{tfn''" and "c \<noteq> CHR 0x22"
  shows "pvalue (Suc n) (c # r) = parse_number (c # r)"
  using assms by simp

lemma pvalue_int:
  assumes "json_stop r" and "\<bar>i\<bar> < 10 ^ 21"
  shows "pvalue (Suc n) (int_to_string i @ r) = Some (JNum (Fin (of_int i)), r)"
proof -
  obtain c u where c: "int_to_string i = c # u" "c = CHR ''-'' \<or> is_digit c"
  proof (cases "i < 0")
    case True
    then show ?thesis using that by (simp add: int_to_string_def)
  next
    case False
    then show ?thesis using that digits_all [of "nat i"]
      by (cases "digits (nat i)") (auto simp: int_to_string_def)
  qed
  then have "json_start c" by (auto simp: json_start_def)
  then have "\<not> is_ws c" by (simp add: json_start_not)
  moreover have "c \<notin> set ''[{tfn''" "c \<noteq> CHR 0x22"
    using c(2) by (auto simp: is_digit_def code_def)
  ultimately have "pvalue (Suc n) (c # u @ r) = parse_number (c # u @ r)"
    by (rule pvalue_number)
  then show ?thesis
    using parse_number_int [OF assms] c(1) by (simp only: append_Cons)
qed

lemma number_text_Some:
  assumes "number_text n = Some t" and "is_finite n"
  obtains i where "n = Fin (of_int i)" and "\<bar>i\<bar> < 10 ^ 21" and "t = int_to_string i"
proof (cases n)
  case (Fin q)
  with assms(1) have q: "snd (quotient_of q) = 1" "\<bar>q\<bar> < 10 ^ 21" "t = int_to_string (fst (quotient_of q))"
    by (auto simp: number_text_def split: if_splits)
  define i where "i = fst (quotient_of q)"
  have "q = of_int i"
    using quotient_of_div [of q i 1] q(1) by (simp add: i_def prod_eq_iff)
  moreover from this q(2) have "(of_int \<bar>i\<bar> :: rat) < of_int (10 ^ 21)" by simp
  then have "\<bar>i\<bar> < 10 ^ 21" by (simp only: of_int_less_iff)
  ultimately show ?thesis using Fin q(3) by (intro that [of i]) (simp_all add: i_def)
qed (use assms(2) in auto)

lemma those_Cons:
  "those (x # xs) = Some ys \<longleftrightarrow> (\<exists>z zs. x = Some z \<and> those xs = Some zs \<and> ys = z # zs)"
  by (auto split: option.splits)

lemma those_Some_Nil: "those xs = Some [] \<longleftrightarrow> xs = []"
  by (cases xs) (auto split: option.splits)

lemma js_join_Cons: "js_join sep (s # ts) = s @ (if ts = [] then [] else sep @ js_join sep ts)"
  by (cases ts) auto

text \<open>One element list and one member list, given the round trip of their values.\<close>

lemma pelems_join:
  assumes "\<And>j t r n. \<lbrakk>j \<in> set js; json_text j = Some t; json_plain j; json_stop r; length t \<le> n\<rbrakk>
             \<Longrightarrow> pvalue n (t @ r) = Some (j, r)"
    and "those (map json_text js) = Some ts" and "list_all json_plain js" and "js \<noteq> []"
    and "Suc (length (js_join '','' ts)) \<le> n"
  shows "pelems n (js_join '','' ts @ CHR '']'' # r) = Some (js, r)"
  using assms
proof (induction js arbitrary: ts n)
  case (Cons j js)
  from Cons.prems(2) obtain t us where ts: "ts = t # us" "json_text j = Some t" "those (map json_text js) = Some us"
    by (auto simp only: list.map those_Cons)
  obtain m where n: "n = Suc m" using Cons.prems(5) by (cases n) auto
  have len: "length t \<le> m" using Cons.prems(5) n ts(1) by (simp add: js_join_Cons)
  have t: "pvalue m (t @ r') = Some (j, r')" if "json_stop r'" for r'
    using Cons.prems(1,3) ts(2) that len by (simp add: list_all_iff)
  show ?case
  proof (cases "js = []")
    case True
    with ts have "us = []" by simp
    with True ts n t [of "CHR '']'' # r"] show ?thesis by simp
  next
    case False
    with ts(3) have us: "us \<noteq> []" by (metis map_is_Nil_conv those_Some_Nil)
    have "0 < length t" using json_text_start [OF ts(2)] by auto
    then have m: "Suc (length (js_join '','' us)) \<le> m"
      using Cons.prems(5) n ts(1) us by (simp add: js_join_Cons)
    have "pelems m (js_join '','' us @ CHR '']'' # r) = Some (js, r)"
    proof (rule Cons.IH [OF _ ts(3) _ False m])
      show "pvalue n (t @ r) = Some (j, r)"
        if "j \<in> set js" "json_text j = Some t" "json_plain j" "json_stop r" "length t \<le> n" for j t r n
        by (rule Cons.prems(1)) (use that in auto)
    qed (use Cons.prems(3) in simp)
    with ts n t [of "CHR '','' # js_join '','' us @ CHR '']'' # r"] us
    show ?thesis by (simp add: js_join_Cons)
  qed
qed simp

abbreviation member_text :: "string \<times> json \<Rightarrow> string option" where
  "member_text \<equiv> \<lambda>(k, v). map_option (\<lambda>t. quote k @ CHR '':'' # t) (json_text v)"

lemma pmembers_join:
  assumes "\<And>k j t r n. \<lbrakk>(k, j) \<in> set kvs; json_text j = Some t; json_plain j; json_stop r; length t \<le> n\<rbrakk>
             \<Longrightarrow> pvalue n (t @ r) = Some (j, r)"
    and "those (map member_text kvs) = Some ts"
    and "list_all (\<lambda>(k, v). join_surrogates k = k \<and> json_plain v) kvs" and "kvs \<noteq> []"
    and "Suc (length (js_join '','' ts)) \<le> n"
  shows "pmembers n (js_join '','' ts @ CHR ''}'' # r) = Some (kvs, r)"
  using assms
proof (induction kvs arbitrary: ts n)
  case (Cons kj kvs)
  obtain k j where kj: "kj = (k, j)" by fastforce
  from Cons.prems(2) kj obtain t us where ts: "ts = (quote k @ CHR '':'' # t) # us"
    "json_text j = Some t" "those (map member_text kvs) = Some us"
    by (auto simp only: list.map those_Cons split: prod.splits)
  obtain m where n: "n = Suc m" using Cons.prems(5) by (cases n) auto
  have len: "length t \<le> m" using Cons.prems(5) n ts(1) by (simp add: js_join_Cons)
  have k: "join_surrogates k = k" using Cons.prems(3) kj by simp
  have t: "pvalue m (t @ r') = Some (j, r')" if "json_stop r'" for r'
    using Cons.prems(1) [of k j t r' m] Cons.prems(3) ts(2) that len kj by simp
  show ?case
  proof (cases "kvs = []")
    case True
    with ts have "us = []" by simp
    with True ts n kj t [of "CHR ''}'' # r"] show ?thesis
      by (simp add: quote_def parse_string_quote [OF k])
  next
    case False
    with ts(3) have us: "us \<noteq> []" by (metis map_is_Nil_conv those_Some_Nil)
    have m: "Suc (length (js_join '','' us)) \<le> m"
      using Cons.prems(5) n ts(1) us by (simp add: js_join_Cons)
    have "pmembers m (js_join '','' us @ CHR ''}'' # r) = Some (kvs, r)"
    proof (rule Cons.IH [OF _ ts(3) _ False m])
      show "pvalue n (t @ r) = Some (j, r)"
        if "(k, j) \<in> set kvs" "json_text j = Some t" "json_plain j" "json_stop r" "length t \<le> n" for k j t r n
        by (rule Cons.prems(1)) (use that in auto)
    qed (use Cons.prems(3) in simp)
    with ts n kj t [of "CHR '','' # js_join '','' us @ CHR ''}'' # r"] us
    show ?thesis by (simp add: js_join_Cons quote_def parse_string_quote [OF k])
  qed
qed simp

lemma js_join_start:
  assumes "those (map json_text js) = Some ts" and "js \<noteq> []"
  shows "\<exists>c u. js_join '','' ts = c # u \<and> json_start c"
proof -
  obtain j js' t us where "js = j # js'" "ts = t # us" "json_text j = Some t"
    using assms by (cases js) (auto simp only: list.map those_Cons)
  with json_text_start show ?thesis by (fastforce simp: js_join_Cons)
qed

lemma js_join_members_start:
  assumes "those (map member_text kvs) = Some ts" and "kvs \<noteq> []"
  shows "\<exists>u. js_join '','' ts = CHR 0x22 # u"
  using assms by (cases kvs) (auto simp only: list.map those_Cons, auto simp: js_join_Cons quote_def)

lemma pvalue_text:
  assumes "json_text j = Some t" and "json_plain j" and "json_stop r" and "length t \<le> n"
  shows "pvalue n (t @ r) = Some (j, r)"
  using assms
proof (induction j arbitrary: t r n)
  case JNull
  then show ?case by (cases n) (auto simp: expect_def)
next
  case (JBool b)
  then show ?case by (cases n; cases b) (auto simp: expect_def)
next
  case (JNum x)
  then obtain i where i: "x = Fin (of_int i)" "\<bar>i\<bar> < 10 ^ 21" "t = int_to_string i"
    by (auto elim: number_text_Some)
  obtain m where "n = Suc m"
    using JNum.prems(4) i(3) int_to_string_start [of i] by (cases n) auto
  with i JNum.prems(3) show ?case by (simp only: pvalue_int)
next
  case (JStr s)
  then obtain m where "n = Suc m" by (cases n) (auto simp: quote_def)
  with JStr show ?case by (auto simp: quote_def parse_string_quote)
next
  case (JArr js)
  then obtain ts where ts: "those (map json_text js) = Some ts" "t = CHR ''['' # js_join '','' ts @ '']''" by auto
  obtain m where n: "n = Suc m" using JArr.prems(4) ts by (cases n) auto
  show ?case
  proof (cases "js = []")
    case True
    with ts n show ?thesis by simp
  next
    case False
    with ts obtain c u where c: "js_join '','' ts = c # u" "json_start c" using js_join_start by blast
    have "pelems m (js_join '','' ts @ CHR '']'' # r) = Some (js, r)"
      using pelems_join [OF JArr.IH ts(1) _ False] JArr.prems ts(2) n by simp
    with c ts n json_start_not [OF c(2)] show ?thesis by simp
  qed
next
  case (JObj kvs)
  then obtain ts where ts: "those (map member_text kvs) = Some ts" "t = CHR ''{'' # js_join '','' ts @ ''}''" by auto
  obtain m where n: "n = Suc m" using JObj.prems(4) ts by (cases n) auto
  show ?case
  proof (cases "kvs = []")
    case True
    with ts n show ?thesis by (simp add: dedup_keys_def)
  next
    case False
    with ts obtain u where c: "js_join '','' ts = CHR 0x22 # u" using js_join_members_start by blast
    have "pmembers m (js_join '','' ts @ CHR ''}'' # r) = Some (kvs, r)"
    proof (rule pmembers_join [OF _ ts(1) _ False])
      show "pvalue n (t @ r) = Some (j, r)"
        if "(k, j) \<in> set kvs" "json_text j = Some t" "json_plain j" "json_stop r" "length t \<le> n" for k j t r n
        using JObj.IH [OF that(1), of j] that(2-5) by simp
    qed (use JObj.prems ts(2) n in auto)
    with c ts n JObj.prems(2) show ?thesis by (simp add: dedup_keys_distinct)
  qed
qed

lemma json_roundtrip:
  assumes "json_text j = Some t" and "json_plain j"
  shows "json_parse t = Some j"
proof -
  have "pvalue (2 * length t + 2) (t @ []) = Some (j, [])"
    by (rule pvalue_text [OF assms]) simp_all
  then show ?thesis by (simp add: json_parse_def)
qed

subsection \<open>Enough fuel\<close>

lemma skip_ws_length: "skip_ws s = c # r \<Longrightarrow> length r < length s"
  unfolding skip_ws_def
  by (metis length_Cons length_dropWhile_le less_eq_Suc_le)

lemma pstring_rest:
  "pstring s = Some (t, q) \<Longrightarrow> length q < length s"
  "pescape s = Some (t, q) \<Longrightarrow> length q < length s"
proof (induction s and s arbitrary: t q and t q rule: pstring_pescape.induct)
  case (2 c r)
  then show ?case by (fastforce split: if_splits)
next
  case (4 e r)
  then show ?case by (fastforce split: if_splits list.splits option.splits)
qed simp_all

lemma parse_string_rest: "parse_string s = Some (t, q) \<Longrightarrow> length q < length s"
  by (auto simp: parse_string_def dest: pstring_rest)

lemma take_exponent_rest: "take_exponent s = Some (e, q) \<Longrightarrow> length q \<le> length s"
  by (auto simp: take_exponent_def take_sign_def Let_def length_dropWhile_le le_SucI
      split: list.splits if_splits)

lemma number_tail_length: "number_tail r = (ok, fp, q) \<Longrightarrow> length q \<le> length r"
  by (auto simp: number_tail_def length_dropWhile_le le_SucI split: list.splits if_splits)

lemma parse_number_rest:
  assumes "parse_number s = Some (j, q)"
  shows "length q < length s"
proof -
  define neg where "neg = (case s of c # _ \<Rightarrow> c = CHR ''-'' | [] \<Rightarrow> False)"
  define u where "u = (if neg then tl s else s)"
  define r where "r = dropWhile is_digit u"
  obtain ok fp z where z: "number_tail r = (ok, fp, z)" by (metis prod_cases3)
  have *: "takeWhile is_digit u \<noteq> []" "\<exists>e. take_exponent z = Some (e, q)"
    using assms
    unfolding parse_number_def Let_def neg_def [symmetric] u_def [symmetric] r_def [symmetric] z prod.case
    by (simp_all split: if_splits) blast+
  have "length q \<le> length z" using *(2) take_exponent_rest by blast
  also have "length z \<le> length r" using z by (rule number_tail_length)
  also have "length r < length u"
  proof -
    have "length (takeWhile is_digit u) + length r = length u"
      unfolding r_def length_append [symmetric] takeWhile_dropWhile_id ..
    moreover have "0 < length (takeWhile is_digit u)" using *(1) by simp
    ultimately show ?thesis by linarith
  qed
  also have "length u \<le> length s" by (simp add: u_def)
  finally show ?thesis .
qed

lemma expect_rest: "expect w v s = Some (x, q) \<Longrightarrow> length q \<le> length s"
  by (auto simp: expect_def split: if_splits)

lemma parse_rest:
  "pvalue n s = Some (j, q) \<Longrightarrow> length q < length s"
  "pelems n s = Some (js, q) \<Longrightarrow> length q < length s"
  "pmembers n s = Some (kvs, q) \<Longrightarrow> length q < length s"
proof (induction n s and n s and n s arbitrary: j q and js q and kvs q rule: pvalue_pelems_pmembers.induct)
  case (2 n s)
  obtain c r where s: "skip_ws s = c # r" using "2.prems" by (auto split: list.splits)
  have "length q \<le> length r \<or> (length q < Suc (length r))"
    using "2.prems" "2.IH" s
    by (auto split: if_splits list.splits dest: parse_string_rest parse_number_rest expect_rest skip_ws_length)
      (force dest: skip_ws_length)+
  then show ?case using skip_ws_length [OF s] by linarith
next
  case (4 n s)
  then show ?case
    by (auto split: option.splits list.splits if_splits dest!: skip_ws_length) fastforce+
next
  case (6 n s)
  then show ?case
    by (auto split: option.splits list.splits if_splits dest!: skip_ws_length parse_string_rest) fastforce+
qed simp_all

text \<open>
  Enough fuel: from twice the input length on, the result no longer depends on it, so a \<open>None\<close> of
  \<open>json_parse\<close> is a syntax error and never an early stop.
\<close>

lemma parse_fuel:
  "2 * length s < n \<Longrightarrow> 2 * length s < m \<Longrightarrow> pvalue n s = pvalue m s"
  "2 * length s + 1 < n \<Longrightarrow> 2 * length s + 1 < m \<Longrightarrow> pelems n s = pelems m s"
  "2 * length s + 1 < n \<Longrightarrow> 2 * length s + 1 < m \<Longrightarrow> pmembers n s = pmembers m s"
proof (induction n s and n s and n s arbitrary: m and m and m rule: pvalue_pelems_pmembers.induct)
  case (2 n s)
  obtain k where m: "m = Suc k" using "2.prems"(2) by (cases m) auto
  show ?case
  proof (cases "skip_ws s")
    case (Cons c r)
    then have len: "length r < length s" by (rule skip_ws_length)
    show ?thesis
    proof (cases "skip_ws r")
      case (Cons d q)
      have "pelems n r = pelems k r" if "c = CHR ''[''" "d \<noteq> CHR '']''"
        using "2.IH"(1) [OF \<open>skip_ws s = c # r\<close> _ _ Cons] that "2.prems" m len by simp
      moreover have "pmembers n r = pmembers k r" if "c = CHR ''{''" "d \<noteq> CHR ''}''"
        using "2.IH"(2) [OF \<open>skip_ws s = c # r\<close> _ _ _ Cons] that "2.prems" m len by simp
      ultimately show ?thesis using Cons \<open>skip_ws s = c # r\<close> m by simp
    qed (use Cons m in simp)
  qed (use m in simp)
next
  case (4 n s)
  obtain k where m: "m = Suc k" using "4.prems"(2) by (cases m) auto
  have v: "pvalue n s = pvalue k s" by (rule "4.IH"(1)) (use "4.prems" m in simp_all)
  show ?case
  proof (cases "pvalue n s")
    case (Some a)
    obtain j q where a: "a = (j, q)" by fastforce
    show ?thesis
    proof (cases "skip_ws q")
      case (Cons d z)
      have "length z < length s" using parse_rest(1) Some a skip_ws_length [OF Cons] by fastforce
      have "pelems n z = pelems k z" if "d = CHR '',''"
        by (rule "4.IH"(2) [OF Some a [symmetric] Cons that]) (use \<open>length z < length s\<close> "4.prems" m in simp_all)
      then show ?thesis using Cons Some a m by (simp add: v [symmetric])
    qed (use Some a m in \<open>simp add: v [symmetric]\<close>)
  qed (use m v in simp)
next
  case (6 n s)
  obtain k where m: "m = Suc k" using "6.prems"(2) by (cases m) auto
  show ?case
  proof (cases "\<exists>r u q z. skip_ws s = CHR 0x22 # r \<and> parse_string r = Some (u, q) \<and> skip_ws q = CHR '':'' # z")
    case True
    then obtain r u q z where h: "skip_ws s = CHR 0x22 # r" "parse_string r = Some (u, q)" "skip_ws q = CHR '':'' # z"
      by blast
    have len: "length z + 2 < length s"
      using skip_ws_length [OF h(1)] parse_string_rest [OF h(2)] skip_ws_length [OF h(3)] by linarith
    have v: "pvalue n z = pvalue k z" 
      by (rule "6.IH"(1) [OF h(1) _ h(2) refl h(3)]) (use "6.prems" m len in simp_all)
    show ?thesis
    proof (cases "pvalue n z")
      case None
      with v h m show ?thesis by simp
    next
      case (Some a)
      obtain j y where a: "a = (j, y)" by fastforce
      show ?thesis
      proof (cases "skip_ws y")
        case Nil
        with h m Some a show ?thesis by (simp add: v [symmetric])
      next
        case (Cons e x)
        have "length x < length z" using parse_rest(1) Some a skip_ws_length [OF Cons] by fastforce
        have "pmembers n x = pmembers k x" if "e = CHR '',''"
          by (rule "6.IH"(2) [OF h(1) _ h(2) refl h(3) _ Some a [symmetric] Cons that])
            (use \<open>length x < length z\<close> "6.prems" m len in simp_all)
        then show ?thesis using Cons Some a m h by (simp add: v [symmetric])
      qed
    qed
  next
    case False
    then show ?thesis using m by (auto split: list.splits option.splits)
  qed
qed simp_all

end
