(* ===== verification/Config.thy ===== *)
theory Config
  imports JsonText
begin

text \<open>
  Configuration: \<open>src/src/config/env.validation.ts\<close> (\<open>validateEnv\<close>), \<open>typeorm.config.ts\<close>,
  \<open>src/src/common/demo-mode.ts\<close> and the role dispatch of \<open>app.module.ts\<close> and \<open>main.ts\<close>. An
  environment is the entry list of the object (\<open>Object.entries\<close> order); \<open>process.env\<close> and
  \<open>config.get\<close> are lookups \<open>string \<Rightarrow> string option\<close>.
\<close>

type_synonym env = "(string \<times> json) list"

subsection \<open>Demo mode (\<open>common/demo-mode.ts\<close>)\<close>

definition isDemoMode :: "string option \<Rightarrow> bool" where
  "isDemoMode value \<longleftrightarrow> value = Some ''true''"

definition DEFAULT_WEB_ORIGIN :: string where
  "DEFAULT_WEB_ORIGIN = ''http://localhost:5173''"

definition demoWebOrigin :: "string option \<Rightarrow> string" where
  "demoWebOrigin value = (case value of
       Some v \<Rightarrow> if v \<noteq> [] then v else DEFAULT_WEB_ORIGIN
     | None \<Rightarrow> DEFAULT_WEB_ORIGIN)"

definition assertDemoModeAllowed :: "bool \<Rightarrow> string option \<Rightarrow> unit result" where
  "assertDemoModeAllowed demoMode nodeEnv =
     (if demoMode \<and> nodeEnv = Some ''production''
      then Inl (PlainError ''DEMO_MODE is not allowed with NODE_ENV=production: it exposes public HMAC and admin credentials'')
      else Inr ())"

subsection \<open>Environment validation (\<open>config/env.validation.ts\<close>)\<close>

definition APP_ROLES :: "string list" where
  "APP_ROLES = [''api'', ''worker'']"

definition LOG_LEVELS :: "string list" where
  "LOG_LEVELS = [''error'', ''warn'', ''log'', ''debug'', ''verbose'']"

definition POSITIVE_INT_VARS :: "string list" where
  "POSITIVE_INT_VARS =
     [''PORT'', ''POSTGRES_PORT'', ''RABBITMQ_PORT'', ''PUBLISH_CONFIRM_TIMEOUT_MS'',
      ''WEBHOOK_TIMESTAMP_TOLERANCE_SECONDS'', ''MAX_PROCESSING_ATTEMPTS'', ''RABBITMQ_PREFETCH'',
      ''POSTGRES_POOL_SIZE'', ''RATE_LIMIT_TTL_SECONDS'', ''RATE_LIMIT_MAX'', ''WORKER_METRICS_PORT'']"

definition API_SECRET_VARS :: "string list" where
  "API_SECRET_VARS = [''WEBHOOK_HMAC_SECRET'', ''ADMIN_API_KEY'']"

definition present :: "env \<Rightarrow> string \<Rightarrow> string option" where
  "present env key =
     (case map_of env key of
        Some (JStr v) \<Rightarrow> if v \<noteq> [] then Some v else None
      | _ \<Rightarrow> None)"

text \<open>The regular expression \<open>/^[1-9]\d*$/\<close>.\<close>

definition positive_int_literal :: "string \<Rightarrow> bool" where
  "positive_int_literal s = (case s of
       [] \<Rightarrow> False
     | c # r \<Rightarrow> is_digit c \<and> c \<noteq> CHR ''0'' \<and> list_all is_digit r)"

definition role_errors :: "string \<Rightarrow> string list" where
  "role_errors role =
     (if role \<in> set APP_ROLES then []
      else [''APP_ROLE must be one of ['' @ js_join '', '' APP_ROLES @ ''], got '' @ [CHR 0x22] @ role @ [CHR 0x22]])"

definition secret_errors :: "env \<Rightarrow> string \<Rightarrow> string list" where
  "secret_errors env role =
     (if role = ''worker'' then []
      else map (\<lambda>key. key @ '' must be set to a non-empty value; an empty secret would leave the boundary open'')
             (filter (\<lambda>key. present env key = None) API_SECRET_VARS))"

definition int_errors :: "env \<Rightarrow> string list" where
  "int_errors env =
     concat (map (\<lambda>key. (case present env key of
         Some value \<Rightarrow>
           if positive_int_literal value then []
           else [key @ '' must be a positive integer, got '' @ [CHR 0x22] @ value @ [CHR 0x22]]
       | None \<Rightarrow> [])) POSITIVE_INT_VARS)"

definition log_level_errors :: "env \<Rightarrow> string list" where
  "log_level_errors env = (case present env ''LOG_LEVEL'' of
       Some level \<Rightarrow>
         if level \<in> set LOG_LEVELS then []
         else [''LOG_LEVEL must be one of ['' @ js_join '', '' LOG_LEVELS @ ''], got '' @ [CHR 0x22] @ level @ [CHR 0x22]]
     | None \<Rightarrow> [])"

definition validateEnv :: "env \<Rightarrow> env result" where
  "validateEnv env =
     (let role = nullish (present env ''APP_ROLE'') ''api'';
          errors = role_errors role @ secret_errors env role @ int_errors env @ log_level_errors env
      in if errors \<noteq> []
         then Inl (PlainError (''Invalid environment:'' @ [CHR 0x0A] @ ''- '' @ js_join (CHR 0x0A # ''- '') errors))
         else Inr (filter (\<lambda>(k, value). value \<noteq> JStr []) env))"

text \<open>\<open>config.get(key)\<close> on the validated object; the process environment holds strings only.\<close>

definition config_get :: "env \<Rightarrow> string \<Rightarrow> string option" where
  "config_get env key = as_string (map_of env key)"

text \<open>\<open>Number(config.get(key) ?? n)\<close>\<close>

definition config_number :: "(string \<Rightarrow> string option) \<Rightarrow> string \<Rightarrow> int \<Rightarrow> jsnum" where
  "config_number get key n = (case get key of Some v \<Rightarrow> js_number_str v | None \<Rightarrow> Fin (of_int n))"

subsection \<open>TypeORM options (\<open>config/typeorm.config.ts\<close>)\<close>

record data_source_options =
  ds_host :: string
  ds_port :: jsnum
  ds_username :: string
  ds_password :: string
  ds_database :: string
  ds_pool_max :: jsnum
  ds_migrationsRun :: bool

definition buildDataSourceOptions :: "(string \<Rightarrow> string option) \<Rightarrow> data_source_options" where
  "buildDataSourceOptions process_env =
     \<lparr> ds_host = nullish (process_env ''POSTGRES_HOST'') ''localhost'',
       ds_port = config_number process_env ''POSTGRES_PORT'' 5432,
       ds_username = nullish (process_env ''POSTGRES_USER'') ''webhook'',
       ds_password = nullish (process_env ''POSTGRES_PASSWORD'') ''webhook'',
       ds_database = nullish (process_env ''POSTGRES_DB'') ''webhook_ingestion'',
       ds_pool_max = config_number process_env ''POSTGRES_POOL_SIZE'' 10,
       ds_migrationsRun = (process_env ''APP_ROLE'' \<noteq> Some ''worker'') \<rparr>"

subsection \<open>Roles (\<open>app.module.ts\<close>, \<open>main.ts\<close>)\<close>

datatype app_module =
    ConsumerModule | EventsModule | HealthModule | WebhooksModule | DlqModule | TelemetryGatewayModule

definition resolveRoleModules :: "(string \<Rightarrow> string option) \<Rightarrow> app_module list" where
  "resolveRoleModules process_env =
     (if process_env ''APP_ROLE'' = Some ''worker'' then [ConsumerModule]
      else let apiModules = [EventsModule, HealthModule, WebhooksModule, DlqModule]
           in if isDemoMode (process_env ''DEMO_MODE'')
              then apiModules @ [TelemetryGatewayModule] else apiModules)"

datatype boot = BootWorker jsnum | BootApi jsnum

definition bootstrap :: "(string \<Rightarrow> string option) \<Rightarrow> boot result" where
  "bootstrap process_env =
     bind_res (assertDemoModeAllowed (isDemoMode (process_env ''DEMO_MODE'')) (process_env ''NODE_ENV''))
       (\<lambda>_. let role = nullish (process_env ''APP_ROLE'') ''api'' in
          if role = ''worker'' then Inr (BootWorker (config_number process_env ''WORKER_METRICS_PORT'' 9091))
          else if role \<noteq> ''api'' then
            Inl (PlainError (''Unknown APP_ROLE '' @ [CHR 0x22] @ role @ [CHR 0x22] @ '' (expected '' @ [CHR 0x22]
              @ ''api'' @ [CHR 0x22] @ '' or '' @ [CHR 0x22] @ ''worker'' @ [CHR 0x22] @ '')''))
          else Inr (BootApi (config_number process_env ''PORT'' 3000)))"

subsection \<open>Lemmas\<close>

lemma present_Some: "present env key = Some v \<longleftrightarrow> map_of env key = Some (JStr v) \<and> v \<noteq> []"
  by (auto simp: present_def split: option.splits json.splits)

lemma positive_int_literal_value:
  assumes "positive_int_literal s"
  shows "s \<noteq> []" and "\<forall>c \<in> set s. is_digit c" and "0 < digits_val s"
proof -
  obtain c r where s: "s = c # r" "is_digit c" "c \<noteq> CHR ''0''" "list_all is_digit r"
    using assms by (auto simp: positive_int_literal_def split: list.splits)
  then show "s \<noteq> []" "\<forall>c \<in> set s. is_digit c" by (auto simp: list_all_iff)
  have "code (CHR ''0'') = 48" by code_simp
  then have "code c \<noteq> 48" using s(3) code_inj by metis
  then have c: "0 < digit_val c" using s(2) by (simp add: is_digit_def digit_val_def)
  have "0 < foldl (\<lambda>n d. 10 * n + int (digit_val d)) k r" if "0 < k" for k
    using that by (induction r arbitrary: k) simp_all
  from this [of "int (digit_val c)"] show "0 < digits_val s"
    using s(1) c by (simp add: digits_val_def)
qed

lemma map_of_filter_value:
  assumes "distinct (map fst env)"
  shows "map_of (filter (\<lambda>(k, v). P v) env) key = (case map_of env key of Some v \<Rightarrow> if P v then Some v else None | None \<Rightarrow> None)"
  using assms
proof (induction env)
  case (Cons kv env)
  obtain k v where kv: "kv = (k, v)" by fastforce
  have "map_of (filter (\<lambda>(k, v). P v) env) k = None" if "k \<notin> fst ` set env"
    using that by (auto simp: map_of_eq_None_iff)
  with Cons kv show ?case by auto
qed simp

lemma validateEnv_Inr:
  "validateEnv env = Inr cfg \<longleftrightarrow>
     role_errors (nullish (present env ''APP_ROLE'') ''api'') = []
     \<and> secret_errors env (nullish (present env ''APP_ROLE'') ''api'') = []
     \<and> int_errors env = [] \<and> log_level_errors env = []
     \<and> cfg = filter (\<lambda>(k, value). value \<noteq> JStr []) env"
  by (auto simp: validateEnv_def Let_def)

lemma config_get_validated:
  assumes "validateEnv env = Inr cfg" and "distinct (map fst env)"
  shows "config_get cfg key = present env key"
proof -
  have "cfg = filter (\<lambda>(k, value). value \<noteq> JStr []) env" using assms(1) by (simp add: validateEnv_Inr)
  then show ?thesis
    by (auto simp: config_get_def present_def map_of_filter_value [OF assms(2)] split: option.splits json.splits)
qed

lemma int_var_validated:
  assumes "int_errors env = []" and "key \<in> set POSITIVE_INT_VARS" and "present env key = Some v"
  shows "positive_int_literal v"
  using assms by (auto simp: int_errors_def split: if_splits)

lemma positive_literal_number:
  assumes "positive_int_literal v"
  shows "js_le (Fin 1) (js_number_str v)"
proof -
  note v = positive_int_literal_value [OF assms]
  have "(1::rat) \<le> of_int (digits_val v)" using v(3) by linarith
  moreover have "(0::rat) < double_limit" by (simp add: double_limit_def)
  ultimately show ?thesis
    using js_number_str_digits [OF v(1,2)] by (simp add: to_jsnum_def)
qed

subsection \<open>Properties\<close>

text \<open>A validated environment is safe to run on: the role is one of the two, outside the worker both
  secrets read back non-empty, no value reads back empty, and every numeric variable reads, through
  \<open>Number(config.get(key) ?? default)\<close>, as a number of at least 1 (never 0 or NaN).\<close>

theorem validated_env_is_usable:
  assumes "validateEnv env = Inr cfg" and "distinct (map fst env)" and "1 \<le> d"
  shows "nullish (config_get cfg ''APP_ROLE'') ''api'' \<in> set APP_ROLES
         \<and> (config_get cfg ''APP_ROLE'' = Some ''worker''
            \<or> truthy_str (config_get cfg ''WEBHOOK_HMAC_SECRET'') \<and> truthy_str (config_get cfg ''ADMIN_API_KEY''))
         \<and> config_get cfg key \<noteq> Some []
         \<and> (key \<in> set POSITIVE_INT_VARS \<longrightarrow> js_le (Fin 1) (config_number (config_get cfg) key d))"
proof -
  note ok = assms(1) [unfolded validateEnv_Inr]
  note get = config_get_validated [OF assms(1,2)]
  have role: "nullish (present env ''APP_ROLE'') ''api'' \<in> set APP_ROLES"
    using ok by (auto simp: role_errors_def split: if_splits)
  have secrets: "present env ''APP_ROLE'' = Some ''worker''
      \<or> present env ''WEBHOOK_HMAC_SECRET'' \<noteq> None \<and> present env ''ADMIN_API_KEY'' \<noteq> None"
    using ok by (cases "present env ''APP_ROLE''") (auto simp: secret_errors_def API_SECRET_VARS_def split: if_splits)
  have number: "js_le (Fin 1) (config_number (config_get cfg) key d)" if "key \<in> set POSITIVE_INT_VARS"
  proof (cases "present env key")
    case None
    then show ?thesis
      using assms(3) of_int_le_iff [where ?'a = rat, of 1 d] by (simp add: config_number_def get)
  next
    case (Some v)
    moreover have "js_le (Fin 1) (js_number_str v)"
      using int_var_validated [OF _ that Some] positive_literal_number ok by blast
    ultimately show ?thesis by (simp add: config_number_def get)
  qed
  have "truthy_str (present env k) \<longleftrightarrow> present env k \<noteq> None" for k
    using present_Some [of env k] by (cases "present env k") simp_all
  with role secrets number show ?thesis
    unfolding get by (auto simp: present_Some)
qed

definition sample_env :: env where
  "sample_env =
     [(''WEBHOOK_HMAC_SECRET'', JStr ''s3cret''), (''ADMIN_API_KEY'', JStr ''k3y''),
      (''MAX_PROCESSING_ATTEMPTS'', JStr ''6''), (''POSTGRES_PORT'', JStr [])]"

definition sample_config :: env where
  "sample_config = filter (\<lambda>(k, value). value \<noteq> JStr []) sample_env"

lemma sample_env_valid: "validateEnv sample_env = Inr sample_config"
proof -
  have "role_errors (nullish (present sample_env ''APP_ROLE'') ''api'') = []"
    "secret_errors sample_env (nullish (present sample_env ''APP_ROLE'') ''api'') = []"
    "int_errors sample_env = []" "log_level_errors sample_env = []"
    by code_simp+
  then show ?thesis unfolding validateEnv_Inr sample_config_def by blast
qed

theorem validated_env_is_usable_witness:
  "js_le (Fin 1) (config_number (config_get sample_config) ''MAX_PROCESSING_ATTEMPTS'' 4)"
proof -
  have "distinct (map fst sample_env)" by (simp add: sample_env_def)
  from validated_env_is_usable [OF sample_env_valid this, of 4 "''MAX_PROCESSING_ATTEMPTS''"] show ?thesis
    by (simp add: POSITIVE_INT_VARS_def)
qed

text \<open>An empty placeholder is only harmless where \<open>config.get\<close> reads it: an environment with
  \<open>POSTGRES_PORT=""\<close> passes validation and \<open>config.get\<close> falls back to the default, but the TypeORM
  options read the process environment itself and get port 0.\<close>

theorem empty_placeholder_reaches_typeorm:
  assumes "validateEnv env = Inr cfg" and "distinct (map fst env)" and "map_of env ''POSTGRES_PORT'' = Some (JStr [])"
  shows "config_number (config_get cfg) ''POSTGRES_PORT'' 5432 = Fin 5432
         \<and> ds_port (buildDataSourceOptions (config_get env)) = Fin 0"
proof -
  have "present env ''POSTGRES_PORT'' = None" using assms(3) by (simp add: present_def)
  moreover have "js_number_str [] = Fin 0" by code_simp
  ultimately show ?thesis
    using assms(3)
    by (simp add: config_number_def config_get_validated [OF assms(1,2)] buildDataSourceOptions_def)
      (simp add: config_get_def)
qed

theorem empty_placeholder_reaches_typeorm_witness:
  "ds_port (buildDataSourceOptions (config_get sample_env)) = Fin 0"
proof -
  have "distinct (map fst sample_env)" "map_of sample_env ''POSTGRES_PORT'' = Some (JStr [])" by (simp_all add: sample_env_def)
  with empty_placeholder_reaches_typeorm [OF sample_env_valid] show ?thesis by blast
qed

end
