(* ===== verification/Messaging.thy ===== *)
theory Messaging
  imports Config
begin

text \<open>
  Broker topology: \<open>src/src/messaging/messaging.constants.ts\<close> (names, retry tiers,
  \<open>retryTierForAttempt\<close>) and \<open>messaging.module.ts\<close> (the exchanges and queues declared on boot).
  RabbitMQ itself is not modelled; \<open>routed_to\<close> only reads the declared bindings, which contain no
  wildcard, so a topic exchange routes a key to the queues bound with that very key.
\<close>

subsection \<open>Constants\<close>

definition WEBHOOK_EXCHANGE :: string where "WEBHOOK_EXCHANGE = ''webhooks''"
definition RETRY_EXCHANGE :: string where "RETRY_EXCHANGE = ''webhooks.retry''"
definition DEAD_LETTER_EXCHANGE :: string where "DEAD_LETTER_EXCHANGE = ''webhooks.dlx''"
definition TELEMETRY_EXCHANGE :: string where "TELEMETRY_EXCHANGE = ''webhook.telemetry''"
definition TELEMETRY_ENVELOPE_VERSION :: int where "TELEMETRY_ENVELOPE_VERSION = 1"
definition TELEMETRY_BINDING_KEY :: string where "TELEMETRY_BINDING_KEY = ''telemetry.*''"

definition telemetryRoutingKey :: "string \<Rightarrow> string" where
  "telemetryRoutingKey stage = ''telemetry.'' @ stage"

definition ORDER_RECEIVED_ROUTING_KEY :: string where
  "ORDER_RECEIVED_ROUTING_KEY = ''orders.received''"
definition DEAD_LETTER_ROUTING_KEY :: string where "DEAD_LETTER_ROUTING_KEY = ''orders.dead''"
definition WORK_QUEUE :: string where "WORK_QUEUE = ''webhooks.orders''"
definition DEAD_LETTER_QUEUE :: string where "DEAD_LETTER_QUEUE = ''webhooks.dead''"
definition ATTEMPT_HEADER :: string where "ATTEMPT_HEADER = ''x-attempt''"

lemmas messaging_constants =
  WEBHOOK_EXCHANGE_def RETRY_EXCHANGE_def DEAD_LETTER_EXCHANGE_def TELEMETRY_EXCHANGE_def
  TELEMETRY_ENVELOPE_VERSION_def TELEMETRY_BINDING_KEY_def telemetryRoutingKey_def
  ORDER_RECEIVED_ROUTING_KEY_def DEAD_LETTER_ROUTING_KEY_def WORK_QUEUE_def
  DEAD_LETTER_QUEUE_def ATTEMPT_HEADER_def

subsection \<open>Retry tiers\<close>

record retry_tier =
  tier_queue :: string
  tier_routingKey :: string
  tier_ttlMs :: int

definition RETRY_TIERS :: "retry_tier list" where
  "RETRY_TIERS =
     [\<lparr>tier_queue = ''webhooks.retry.5s'', tier_routingKey = ''orders.retry.5s'', tier_ttlMs = 5000\<rparr>,
      \<lparr>tier_queue = ''webhooks.retry.30s'', tier_routingKey = ''orders.retry.30s'', tier_ttlMs = 30000\<rparr>,
      \<lparr>tier_queue = ''webhooks.retry.2m'', tier_routingKey = ''orders.retry.2m'', tier_ttlMs = 120000\<rparr>]"

text \<open>The index is clamped into the array; \<open>RETRY_TIERS[index]\<close> is never out of range.\<close>

definition retryTierForAttempt :: "int \<Rightarrow> retry_tier" where
  "retryTierForAttempt attempts =
     (let index = min (max (attempts - 1) 0) (int (length RETRY_TIERS) - 1)
      in RETRY_TIERS ! nat index)"

subsection \<open>Declared topology (\<open>messaging.module.ts\<close>)\<close>

record exchange_decl =
  ex_name :: string
  ex_type :: string
  ex_durable :: bool

record queue_decl =
  q_name :: string
  q_exchange :: string
  q_routingKey :: string
  q_durable :: bool
  q_arguments :: "(string \<times> json) list"

record rabbit_options =
  rmq_uri :: string
  rmq_exchanges :: "exchange_decl list"
  rmq_queues :: "queue_decl list"
  rmq_persistent :: bool
  rmq_prefetch :: jsnum

definition demoExchanges :: "bool \<Rightarrow> exchange_decl list" where
  "demoExchanges demo =
     (if demo then [\<lparr>ex_name = TELEMETRY_EXCHANGE, ex_type = ''topic'', ex_durable = False\<rparr>] else [])"

definition buildAmqpUri :: "(string \<Rightarrow> string option) \<Rightarrow> string" where
  "buildAmqpUri get =
     (if truthy_str (get ''RABBITMQ_URL'') then the (get ''RABBITMQ_URL'')
      else ''amqp://'' @ nullish (get ''RABBITMQ_USER'') ''guest'' @ '':''
           @ nullish (get ''RABBITMQ_PASSWORD'') ''guest'' @ ''@''
           @ nullish (get ''RABBITMQ_HOST'') ''localhost'' @ '':''
           @ nullish (get ''RABBITMQ_PORT'') ''5672'')"

definition retry_queue :: "retry_tier \<Rightarrow> queue_decl" where
  "retry_queue tier =
     \<lparr>q_name = tier_queue tier, q_exchange = RETRY_EXCHANGE, q_routingKey = tier_routingKey tier,
      q_durable = True,
      q_arguments = [(''x-message-ttl'', JNum (Fin (of_int (tier_ttlMs tier)))),
                     (''x-dead-letter-exchange'', JStr WEBHOOK_EXCHANGE),
                     (''x-dead-letter-routing-key'', JStr ORDER_RECEIVED_ROUTING_KEY)]\<rparr>"

definition rabbit_config :: "bool \<Rightarrow> (string \<Rightarrow> string option) \<Rightarrow> rabbit_options" where
  "rabbit_config demo get =
     \<lparr>rmq_uri = buildAmqpUri get,
      rmq_exchanges =
        [\<lparr>ex_name = WEBHOOK_EXCHANGE, ex_type = ''topic'', ex_durable = True\<rparr>,
         \<lparr>ex_name = RETRY_EXCHANGE, ex_type = ''topic'', ex_durable = True\<rparr>,
         \<lparr>ex_name = DEAD_LETTER_EXCHANGE, ex_type = ''topic'', ex_durable = True\<rparr>] @ demoExchanges demo,
      rmq_queues =
        [\<lparr>q_name = WORK_QUEUE, q_exchange = WEBHOOK_EXCHANGE, q_routingKey = ORDER_RECEIVED_ROUTING_KEY,
          q_durable = True, q_arguments = []\<rparr>] @
        map retry_queue RETRY_TIERS @
        [\<lparr>q_name = DEAD_LETTER_QUEUE, q_exchange = DEAD_LETTER_EXCHANGE, q_routingKey = DEAD_LETTER_ROUTING_KEY,
          q_durable = True, q_arguments = []\<rparr>],
      rmq_persistent = True,
      rmq_prefetch = config_number get ''RABBITMQ_PREFETCH'' 10\<rparr>"

definition routed_to :: "rabbit_options \<Rightarrow> string \<Rightarrow> string \<Rightarrow> string list" where
  "routed_to opts exchange key =
     map q_name (filter (\<lambda>q. q_exchange q = exchange \<and> q_routingKey q = key) (rmq_queues opts))"

text \<open>Where an expired message of a queue goes: its dead-letter exchange and routing key.\<close>

definition expires_to :: "rabbit_options \<Rightarrow> queue_decl \<Rightarrow> string list" where
  "expires_to opts q =
     (case (as_string (map_of (q_arguments q) ''x-dead-letter-exchange''),
            as_string (map_of (q_arguments q) ''x-dead-letter-routing-key'')) of
        (Some ex, Some key) \<Rightarrow> routed_to opts ex key
      | _ \<Rightarrow> [])"

subsection \<open>Lemmas\<close>

lemma retryTierForAttempt_cases:
  "retryTierForAttempt attempts =
     (if attempts \<le> 1 then RETRY_TIERS ! 0 else if attempts = 2 then RETRY_TIERS ! 1 else RETRY_TIERS ! 2)"
proof -
  have len: "int (length RETRY_TIERS) - 1 = 2" by (simp add: RETRY_TIERS_def)
  consider "attempts \<le> 1" | "attempts = 2" | "3 \<le> attempts" by linarith
  then show ?thesis
    by cases (simp_all add: retryTierForAttempt_def len min_def max_def)
qed

lemma retryTier_in [simp]: "retryTierForAttempt attempts \<in> set RETRY_TIERS"
  unfolding retryTierForAttempt_cases by (simp add: RETRY_TIERS_def)

lemma routed_to_work [simp]:
  "routed_to (rabbit_config demo get) WEBHOOK_EXCHANGE ORDER_RECEIVED_ROUTING_KEY = [WORK_QUEUE]"
  by (simp add: routed_to_def rabbit_config_def retry_queue_def RETRY_TIERS_def messaging_constants)

lemma routed_to_dead [simp]:
  "routed_to (rabbit_config demo get) DEAD_LETTER_EXCHANGE DEAD_LETTER_ROUTING_KEY = [DEAD_LETTER_QUEUE]"
  by (simp add: routed_to_def rabbit_config_def retry_queue_def RETRY_TIERS_def messaging_constants)

lemma routed_to_retry [simp]:
  "tier \<in> set RETRY_TIERS \<Longrightarrow>
     routed_to (rabbit_config demo get) RETRY_EXCHANGE (tier_routingKey tier) = [tier_queue tier]"
  by (auto simp: routed_to_def rabbit_config_def retry_queue_def RETRY_TIERS_def messaging_constants)

text \<open>Whatever the attempt count, the tier chosen for a retry has a routing key that the declared
  topology binds to exactly one durable queue, and a message that waits out that queue's TTL is
  dead-lettered back into the work queue, and only there: no retry is unroutable or lost.\<close>

theorem retry_tier_returns_to_work:
  "routed_to (rabbit_config demo get) RETRY_EXCHANGE (tier_routingKey (retryTierForAttempt attempts))
     = [tier_queue (retryTierForAttempt attempts)]
   \<and> (\<exists>q \<in> set (rmq_queues (rabbit_config demo get)).
         q_name q = tier_queue (retryTierForAttempt attempts) \<and> q_durable q
         \<and> map_of (q_arguments q) ''x-message-ttl''
             = Some (JNum (Fin (of_int (tier_ttlMs (retryTierForAttempt attempts)))))
         \<and> expires_to (rabbit_config demo get) q = [WORK_QUEUE])"
proof -
  let ?q = "retry_queue (retryTierForAttempt attempts)"
  have "?q \<in> set (rmq_queues (rabbit_config demo get))"
    by (simp add: rabbit_config_def)
  moreover have "expires_to (rabbit_config demo get) ?q = [WORK_QUEUE]"
    by (simp add: retry_queue_def expires_to_def)
  ultimately show ?thesis
    by (auto simp: retry_queue_def intro!: bexI [of _ ?q])
qed

text \<open>The backoff ladder: the first failure waits 5 s, the second 30 s, every later one 2 min, and
  the delay never shrinks as the attempts grow.\<close>

theorem retry_ladder_monotone:
  "tier_ttlMs (retryTierForAttempt a) = (if a \<le> 1 then 5000 else if a = 2 then 30000 else 120000)
   \<and> tier_ttlMs (retryTierForAttempt a) \<le> tier_ttlMs (retryTierForAttempt (max a b))"
  by (auto simp: retryTierForAttempt_cases RETRY_TIERS_def)

end
