(* ===== verification/Broker.thy ===== *)
theory Broker
  imports Messaging JsonText
begin

text \<open>
  What the sources hand to \<open>AmqpConnection.publish\<close> and what a \<open>@RabbitSubscribe\<close> handler gets
  back. The client library and RabbitMQ carry one to the other; they are the parameter \<open>deliver\<close>
  of the locale \<open>wire\<close>, whose laws are their documented behaviour: a JSON body arrives as text
  that parses to it, a buffer arrives as it is, properties and headers are untouched. The law on
  JSON bodies is only asked of values that JSON text can carry (\<open>json_plain\<close>). \<open>amqp_deliver\<close>
  instantiates the parameter with \<open>JSON.stringify\<close>.
\<close>

datatype body = JsonBody json | RawBody string

record publication =
  pub_exchange :: string
  pub_routingKey :: string
  pub_body :: body
  pub_persistent :: bool
  pub_mandatory :: bool
  pub_messageId :: "string option"
  pub_correlationId :: "string option"
  pub_contentType :: "string option"
  pub_headers :: "(string \<times> json) list"

record amqp_message =
  msg_content :: string
  msg_correlationId :: "json option"
  msg_messageId :: "json option"
  msg_headers :: "(string \<times> json) list option"
  msg_redelivered :: bool

text \<open>\<open>message.properties.headers?.[name]\<close>\<close>

definition msg_header :: "amqp_message \<Rightarrow> string \<Rightarrow> json option" where
  "msg_header m name = (case msg_headers m of None \<Rightarrow> None | Some hs \<Rightarrow> map_of hs name)"

definition representable :: "json \<Rightarrow> bool" where
  "representable j \<longleftrightarrow> json_plain j \<and> json_text j \<noteq> None"

locale wire =
  fixes deliver :: "publication \<Rightarrow> bool \<Rightarrow> amqp_message"
  assumes json_body: "pub_body p = JsonBody j \<Longrightarrow> representable j \<Longrightarrow> json_parse (msg_content (deliver p r)) = Some j"
    and raw_body: "pub_body p = RawBody b \<Longrightarrow> msg_content (deliver p r) = b"
    and correlation: "msg_correlationId (deliver p r) = map_option JStr (pub_correlationId p)"
    and message_id: "msg_messageId (deliver p r) = map_option JStr (pub_messageId p)"
    and headers: "msg_headers (deliver p r) = Some (pub_headers p)"
    and redelivered: "msg_redelivered (deliver p r) = r"
begin

lemma header [simp]: "msg_header (deliver p r) k = map_of (pub_headers p) k"
  by (simp add: msg_header_def headers)

text \<open>Everything but the redelivery flag survives a requeue.\<close>

lemma requeue:
  assumes "pub_body p = RawBody b \<or> (\<exists>j. pub_body p = JsonBody j \<and> representable j)"
  shows "json_parse (msg_content (deliver p True)) = json_parse (msg_content (deliver p False))"
    and "msg_header (deliver p True) k = msg_header (deliver p False) k"
    and "msg_messageId (deliver p True) = msg_messageId (deliver p False)"
  using assms by (auto simp: json_body raw_body message_id)

end

definition amqp_deliver :: "publication \<Rightarrow> bool \<Rightarrow> amqp_message" where
  "amqp_deliver p r =
     \<lparr>msg_content = (case pub_body p of
          JsonBody j \<Rightarrow> nullish (json_text j) ''null''
        | RawBody b \<Rightarrow> b),
      msg_correlationId = map_option JStr (pub_correlationId p),
      msg_messageId = map_option JStr (pub_messageId p),
      msg_headers = Some (pub_headers p),
      msg_redelivered = r\<rparr>"

interpretation amqp: wire amqp_deliver
  by unfold_locales (auto simp: amqp_deliver_def representable_def intro: json_roundtrip)

lemma wire_amqp_deliver: "wire amqp_deliver"
  by (fact amqp.wire_axioms)

lemma representable_simps [simp]:
  "representable JNull"
  "representable (JBool b)"
  "representable (JStr s) \<longleftrightarrow> join_surrogates s = s"
  by (simp_all add: representable_def)

lemma representable_int: "\<bar>i\<bar> < 10 ^ 21 \<Longrightarrow> representable (JNum (Fin (of_int i)))"
proof -
  assume "\<bar>i\<bar> < 10 ^ 21"
  then have "\<bar>of_int i :: rat\<bar> < of_int (10 ^ 21)" by (metis of_int_abs of_int_less_iff)
  then show ?thesis by (simp add: representable_def number_text_def quotient_of_int)
qed

lemma those_not_None: "those xs \<noteq> None \<longleftrightarrow> None \<notin> set xs"
  by (induction xs) (auto split: option.splits)

lemma representable_JObj:
  "representable (JObj kvs) \<longleftrightarrow>
     distinct (map fst kvs) \<and> (\<forall>(k, v) \<in> set kvs. join_surrogates k = k \<and> representable v)"
proof -
  have "those (map (\<lambda>(k, v). map_option (\<lambda>t. quote k @ CHR '':'' # t) (json_text v)) kvs) \<noteq> None
        \<longleftrightarrow> (\<forall>(k, v) \<in> set kvs. json_text v \<noteq> None)"
    unfolding those_not_None by (auto simp: image_iff)
  then show ?thesis
    by (auto simp: representable_def list_all_iff)
qed

text \<open>The property names the sources write are plain ASCII.\<close>

lemma wire_keys [simp]:
  "join_surrogates ''event_id'' = ''event_id''"
  "join_surrogates ''event_type'' = ''event_type''"
  "join_surrogates ''payload'' = ''payload''"
  "join_surrogates ''correlation_id'' = ''correlation_id''"
  "join_surrogates ''reason'' = ''reason''"
  "join_surrogates ''attempts'' = ''attempts''"
  by code_simp+

lemma representable_obj:
  "representable (JObj [])"
  "representable (JObj ((k, v) # kvs)) \<longleftrightarrow>
     k \<notin> fst ` set kvs \<and> join_surrogates k = k \<and> representable v \<and> representable (JObj kvs)"
  unfolding representable_JObj by auto

lemma representable_lookup: "representable (JObj kvs) \<Longrightarrow> map_of kvs k = Some v \<Longrightarrow> representable v"
  by (drule map_of_SomeD) (auto simp only: representable_JObj)

end
