(* ===== verification/Telemetry.thy ===== *)
theory Telemetry
  imports Broker
begin

text \<open>
  \<open>src/src/telemetry/telemetry-emitter.ts\<close> and \<open>telemetry.gateway.ts\<close>: the stage events, the
  envelope the worker publishes, the two emitters behind the interface \<open>telemetry_emitter\<close>, and
  the gateway's rooms. Which sockets receive what is the socket server's state \<open>rooms\<close>, the
  clients joined to each room.
\<close>

subsection \<open>Stages and envelopes\<close>

datatype telemetry_stage =
    StConsuming | StProcessingDecision | StProcessed | StDuplicate | StRetry | StDead

fun stage_string :: "telemetry_stage \<Rightarrow> string" where
  "stage_string StConsuming = ''consuming''"
| "stage_string StProcessingDecision = ''processing_decision''"
| "stage_string StProcessed = ''processed''"
| "stage_string StDuplicate = ''duplicate''"
| "stage_string StRetry = ''retry''"
| "stage_string StDead = ''dead''"

record stage_input =
  si_stage :: telemetry_stage
  si_correlationId :: string
  si_eventId :: "string option"
  si_eventType :: string
  si_status :: string
  si_attempts :: int

definition json_opt :: "string option \<Rightarrow> json" where
  "json_opt v = (case v of None \<Rightarrow> JNull | Some s \<Rightarrow> JStr s)"

definition json_int :: "int \<Rightarrow> json" where
  "json_int i = JNum (Fin (of_int i))"

definition envelope :: "string \<Rightarrow> stage_input \<Rightarrow> json" where
  "envelope now input =
     JObj [(''version'', json_int TELEMETRY_ENVELOPE_VERSION),
           (''stage'', JStr (stage_string (si_stage input))),
           (''correlation_id'', JStr (si_correlationId input)),
           (''event_id'', json_opt (si_eventId input)),
           (''event_type'', JStr (si_eventType input)),
           (''status'', JStr (si_status input)),
           (''attempts'', json_int (si_attempts input)),
           (''ts'', JStr now)]"

subsection \<open>Emitters\<close>

text \<open>
  What \<open>amqp.publish\<close> does with a message: it may throw before returning a promise, or return a
  promise that settles later. \<open>emit\<close> returns to its caller before the promise settles.
\<close>

datatype publish_call = ThrowsSync exn | Promises "unit result"

definition NoopTelemetryEmitter_emit ::
  "string \<Rightarrow> (publication \<Rightarrow> publish_call) \<Rightarrow> stage_input \<Rightarrow> unit result \<times> publication list \<times> string list"
where
  "NoopTelemetryEmitter_emit now publish input = (Inr (), [], [])"

definition telemetry_publication :: "string \<Rightarrow> stage_input \<Rightarrow> publication" where
  "telemetry_publication now input =
     \<lparr>pub_exchange = TELEMETRY_EXCHANGE,
      pub_routingKey = telemetryRoutingKey (stage_string (si_stage input)),
      pub_body = JsonBody (envelope now input), pub_persistent = True, pub_mandatory = False,
      pub_messageId = None, pub_correlationId = None, pub_contentType = None, pub_headers = []\<rparr>"

text \<open>The result of the call, the publication attempted, and the reasons \<open>swallow\<close> logs (at once or later).\<close>

definition AmqpTelemetryEmitter_emit ::
  "string \<Rightarrow> (publication \<Rightarrow> publish_call) \<Rightarrow> stage_input \<Rightarrow> unit result \<times> publication list \<times> string list"
where
  "AmqpTelemetryEmitter_emit now publish input =
     (let p = telemetry_publication now input
      in case publish p of
           ThrowsSync e \<Rightarrow> (Inr (), [p], [error_message e])
         | Promises (Inl e) \<Rightarrow> (Inr (), [p], [error_message e])
         | Promises (Inr _) \<Rightarrow> (Inr (), [p], []))"

text \<open>
  What the worker relies on: emitting never throws, and it touches nothing but the telemetry
  exchange, whatever the broker answers.
\<close>

locale telemetry_emitter =
  fixes emit :: "string \<Rightarrow> (publication \<Rightarrow> publish_call) \<Rightarrow> stage_input \<Rightarrow>
                   unit result \<times> publication list \<times> string list"
  assumes emit_returns: "fst (emit now publish input) = Inr ()"
    and emit_exchange: "p \<in> set (fst (snd (emit now publish input))) \<Longrightarrow> pub_exchange p = TELEMETRY_EXCHANGE"
begin

definition emit_all ::
  "string \<Rightarrow> (publication \<Rightarrow> publish_call) \<Rightarrow> stage_input list \<Rightarrow> unit result \<times> publication list"
where
  "emit_all now publish inputs =
     foldl (\<lambda>(r, ps) i. case r of
              Inl e \<Rightarrow> (Inl e, ps)
            | Inr _ \<Rightarrow> (fst (emit now publish i), ps @ fst (snd (emit now publish i))))
       (Inr (), []) inputs"

lemma emit_all_append:
  "emit_all now publish (inputs @ [i]) =
     (case emit_all now publish inputs of
        (Inl e, ps) \<Rightarrow> (Inl e, ps)
      | (Inr _, ps) \<Rightarrow> (fst (emit now publish i), ps @ fst (snd (emit now publish i))))"
  by (simp add: emit_all_def split: sum.splits prod.splits)

lemma emit_all_eq:
  "emit_all now publish inputs = (Inr (), concat (map (\<lambda>i. fst (snd (emit now publish i))) inputs))"
  by (induction inputs rule: rev_induct) (simp_all add: emit_all_append emit_returns, simp add: emit_all_def)

lemma emit_all_telemetry_only:
  assumes "p \<in> set (snd (emit_all now publish inputs))"
  shows "pub_exchange p = TELEMETRY_EXCHANGE"
  using assms by (auto simp: emit_all_eq emit_exchange)

end

interpretation noop: telemetry_emitter NoopTelemetryEmitter_emit
  by unfold_locales (simp_all add: NoopTelemetryEmitter_emit_def)

interpretation amqp_emitter: telemetry_emitter AmqpTelemetryEmitter_emit
  by unfold_locales
    (auto simp: AmqpTelemetryEmitter_emit_def Let_def telemetry_publication_def
       split: publish_call.splits sum.splits)

text \<open>The factory of \<open>telemetry-emitter.module.ts\<close>\<close>

definition telemetry_emit ::
  "bool \<Rightarrow> string \<Rightarrow> (publication \<Rightarrow> publish_call) \<Rightarrow> stage_input \<Rightarrow>
     unit result \<times> publication list \<times> string list"
where
  "telemetry_emit demo = (if demo then AmqpTelemetryEmitter_emit else NoopTelemetryEmitter_emit)"

interpretation emitter: telemetry_emitter "telemetry_emit demo" for demo
  by (simp add: telemetry_emit_def noop.telemetry_emitter_axioms amqp_emitter.telemetry_emitter_axioms)

subsection \<open>The gateway\<close>

definition TELEMETRY_FEED_EVENT :: string where "TELEMETRY_FEED_EVENT = ''telemetry''"
definition TELEMETRY_SCOPED_EVENT :: string where "TELEMETRY_SCOPED_EVENT = ''telemetry:correlation''"

definition correlationRoom :: "string \<Rightarrow> string" where
  "correlationRoom correlationId = ''correlation:'' @ correlationId"

type_synonym client = string
type_synonym rooms = "string \<Rightarrow> client set"

text \<open>\<open>subscribe\<close> and \<open>unsubscribe\<close>: the acknowledged id and the rooms afterwards.\<close>

definition gateway_subscribe :: "client \<Rightarrow> json option \<Rightarrow> rooms \<Rightarrow> string option \<times> rooms" where
  "gateway_subscribe client correlationId rooms = (case as_string correlationId of
       Some c \<Rightarrow> if js_length c = 0 then (None, rooms)
                 else (Some c, rooms(correlationRoom c := insert client (rooms (correlationRoom c))))
     | None \<Rightarrow> (None, rooms))"

definition gateway_unsubscribe :: "client \<Rightarrow> json option \<Rightarrow> rooms \<Rightarrow> string option \<times> rooms" where
  "gateway_unsubscribe client correlationId rooms = (case as_string correlationId of
       Some c \<Rightarrow> if js_length c = 0 then (None, rooms)
                 else (Some c, rooms(correlationRoom c := rooms (correlationRoom c) - {client}))
     | None \<Rightarrow> (None, rooms))"

text \<open>
  \<open>broadcast\<close>: the events sent, with the clients each reaches, up to the call that throws;
  \<open>server\<close> is \<open>None\<close> before the socket server is attached. The result of the handler is always
  normal, so the telemetry message is acknowledged.
\<close>

record socket_server =
  srv_clients :: "client set"
  srv_rooms :: rooms
  srv_fault :: "string \<Rightarrow> exn option"

definition gateway_broadcast ::
  "socket_server option \<Rightarrow> string \<Rightarrow> json \<Rightarrow> unit result \<times> (string \<times> client set \<times> json) list"
where
  "gateway_broadcast server correlation_id env = (case server of
       None \<Rightarrow> (Inr (), [])
     | Some srv \<Rightarrow>
         (case srv_fault srv TELEMETRY_FEED_EVENT of
            Some e \<Rightarrow> (Inr (), [])
          | None \<Rightarrow>
              (case srv_fault srv TELEMETRY_SCOPED_EVENT of
                 Some e \<Rightarrow> (Inr (), [(TELEMETRY_FEED_EVENT, srv_clients srv, env)])
               | None \<Rightarrow> (Inr (), [(TELEMETRY_FEED_EVENT, srv_clients srv, env),
                                   (TELEMETRY_SCOPED_EVENT, srv_rooms srv (correlationRoom correlation_id), env)]))))"

lemma correlationRoom_inj [simp]: "correlationRoom a = correlationRoom b \<longleftrightarrow> a = b"
  by (simp add: correlationRoom_def)

end
