(* ===== verification/Processor.thy ===== *)
theory Processor
  imports EventStore Telemetry
begin

text \<open>
  \<open>src/src/consumer/\<close>: error classification (\<open>processing-errors.ts\<close>), the order handlers
  (\<open>order-handler.ts\<close>, \<open>demo-order-handler.ts\<close>) and the idempotent processor
  (\<open>idempotent-event-processor.ts\<close>), whose transaction \<open>claimAndHandle\<close> is a \<open>tx\<close> over the tables.
  The order handler is an argument: a function of the event and the attempt that returns or throws.
\<close>

subsection \<open>Error classification (\<open>processing-errors.ts\<close>)\<close>

definition UNIQUE_VIOLATION :: string where
  "UNIQUE_VIOLATION = ''23505''"

text \<open>The regular expression \<open>/^(22|23)/\<close>.\<close>

definition non_recoverable_sqlstate :: "string \<Rightarrow> bool" where
  "non_recoverable_sqlstate c \<longleftrightarrow> take 2 c = ''22'' \<or> take 2 c = ''23''"

fun isNonRecoverableDbError :: "exn \<Rightarrow> bool" where
  "isNonRecoverableDbError (QueryFailed (Some c) m) = (non_recoverable_sqlstate c \<and> c \<noteq> UNIQUE_VIOLATION)"
| "isNonRecoverableDbError _ = False"

subsection \<open>Handlers\<close>

record handled_event =
  he_eventId :: string
  he_eventType :: string
  he_correlationId :: string
  he_payload :: json

type_synonym handler = "handled_event \<Rightarrow> int \<Rightarrow> unit result"

definition NoopOrderHandler_handle :: handler where
  "NoopOrderHandler_handle event attempt = Inr ()"

definition DEMO_SCENARIO_KEY :: string where "DEMO_SCENARIO_KEY = ''__scenario''"
definition OUTAGE_UNTIL_KEY :: string where "OUTAGE_UNTIL_KEY = ''__outage_until''"
definition TRANSIENT_SUCCESS_ATTEMPT :: int where "TRANSIENT_SUCCESS_ATTEMPT = 3"

datatype demo_scenario = ScTransient | ScPermanent | ScExhaust

text \<open>A property of a value known to be no \<open>null\<close>, as \<open>payload\<close> always is.\<close>

definition field :: "json \<Rightarrow> string \<Rightarrow> json option" where
  "field j k = (case get_prop j k of Inr v \<Rightarrow> v | Inl _ \<Rightarrow> None)"

lemma field_JObj [simp]: "field (JObj kvs) k = map_of kvs k"
  by (simp add: field_def)

lemma field_JArr [simp]: "field (JArr js) k = None"
  by (simp add: field_def)

definition scenarioOf :: "handled_event \<Rightarrow> demo_scenario option" where
  "scenarioOf event =
     (let value = field (he_payload event) DEMO_SCENARIO_KEY
      in if value = Some (JStr ''transient'') then Some ScTransient
         else if value = Some (JStr ''permanent'') then Some ScPermanent
         else if value = Some (JStr ''exhaust'') then Some ScExhaust
         else None)"

text \<open>\<open>now\<close> is \<open>Date.now()\<close>; \<open>Number(...)\<close> itself throws on an object with an own \<open>toString\<close>.\<close>

definition DemoOrderHandler_handle :: "int \<Rightarrow> handler" where
  "DemoOrderHandler_handle now event attempt =
     (case scenarioOf event of
        Some ScPermanent \<Rightarrow>
          Inl (PermanentProcessingError (''demo scenario '' @ [CHR 0x22] @ ''permanent'' @ [CHR 0x22] @ '' for '' @ he_eventId event))
      | Some ScExhaust \<Rightarrow>
          bind_res (js_number (field (he_payload event) OUTAGE_UNTIL_KEY)) (\<lambda>outageUntil.
            if \<not> is_finite outageUntil \<or> js_less (Fin (of_int now)) outageUntil then
              Inl (TransientProcessingError (''demo scenario '' @ [CHR 0x22] @ ''exhaust'' @ [CHR 0x22]
                @ '' failing attempt '' @ int_to_string attempt @ '' for '' @ he_eventId event))
            else Inr ())
      | Some ScTransient \<Rightarrow>
          if attempt < TRANSIENT_SUCCESS_ATTEMPT then
            Inl (TransientProcessingError (''demo scenario '' @ [CHR 0x22] @ ''transient'' @ [CHR 0x22]
              @ '' failing attempt '' @ int_to_string attempt @ '' for '' @ he_eventId event))
          else Inr ()
      | None \<Rightarrow> Inr ())"

text \<open>The provider of \<open>consumer.module.ts\<close>\<close>

definition order_handler :: "bool \<Rightarrow> int \<Rightarrow> handler" where
  "order_handler demo now = (if demo then DemoOrderHandler_handle now else NoopOrderHandler_handle)"

subsection \<open>The processor\<close>

datatype decision = DProcessed int | DDuplicate int | DRetry int | DDead int string

fun decision_kind :: "decision \<Rightarrow> string" where
  "decision_kind (DProcessed a) = ''processed''"
| "decision_kind (DDuplicate a) = ''duplicate''"
| "decision_kind (DRetry a) = ''retry''"
| "decision_kind (DDead a r) = ''dead''"

fun decision_attempts :: "decision \<Rightarrow> int" where
  "decision_attempts (DProcessed a) = a"
| "decision_attempts (DDuplicate a) = a"
| "decision_attempts (DRetry a) = a"
| "decision_attempts (DDead a r) = a"

fun isSettled :: "event_status \<Rightarrow> bool" where
  "isSettled st = (st = Processed \<or> st = Dead)"

definition max_attempts :: "(string \<Rightarrow> string option) \<Rightarrow> jsnum" where
  "max_attempts get = config_number get ''MAX_PROCESSING_ATTEMPTS'' 4"

definition claim_values :: "handled_event \<Rightarrow> event_values" where
  "claim_values event =
     \<lparr>iv_eventId = he_eventId event, iv_eventType = he_eventType event,
      iv_correlationId = he_correlationId event, iv_payload = he_payload event, iv_status = Received\<rparr>"

text \<open>The patches of the transaction: attempt started, failed for good, failed for now, succeeded.\<close>

definition attempt_patch :: "int \<Rightarrow> event_patch" where
  "attempt_patch attempts = \<lparr>up_status = Some Processing, up_attempts = Some attempts, up_failureReason = None\<rparr>"

definition failed_patch :: "string \<Rightarrow> event_patch" where
  "failed_patch reason = \<lparr>up_status = Some Failed, up_attempts = None, up_failureReason = Some (Some reason)\<rparr>"

definition reason_patch :: "string \<Rightarrow> event_patch" where
  "reason_patch reason = \<lparr>up_status = None, up_attempts = None, up_failureReason = Some (Some reason)\<rparr>"

definition processed_patch :: event_patch where
  "processed_patch = \<lparr>up_status = Some Processed, up_attempts = None, up_failureReason = Some None\<rparr>"

fun is_permanent :: "exn \<Rightarrow> bool" where
  "is_permanent (PermanentProcessingError m) = True"
| "is_permanent _ = False"

text \<open>From the row locked to the decision: the handler runs inside the transaction.\<close>

definition run_attempt :: "pg \<Rightarrow> jsnum \<Rightarrow> handler \<Rightarrow> handled_event \<Rightarrow> event_row \<Rightarrow> decision tx" where
  "run_attempt pg maxAttempts handle event row =
     (let k = he_eventId event; attempts = ev_attempts row + 1 in
      bind_tx (update_event pg k (attempt_patch attempts)) (\<lambda>_.
        case handle event attempts of
          Inl error \<Rightarrow>
            let permanent = is_permanent error; reason = error_message error in
            if permanent \<or> js_le maxAttempts (Fin (of_int attempts)) then
              bind_tx (update_event pg k (failed_patch reason)) (\<lambda>_. return_tx (DDead attempts reason))
            else
              bind_tx (update_event pg k (reason_patch reason)) (\<lambda>_. return_tx (DRetry attempts))
        | Inr _ \<Rightarrow>
            bind_tx (update_event pg k processed_patch) (\<lambda>_. return_tx (DProcessed attempts))))"

definition claimAndHandle_body ::
  "pg \<Rightarrow> jsnum \<Rightarrow> handler \<Rightarrow> handled_event \<Rightarrow> bool \<Rightarrow> decision tx"
where
  "claimAndHandle_body pg maxAttempts handle event isContinuation =
     bind_tx (insert_event_or_ignore pg (claim_values event)) (\<lambda>raw.
       let claimed = (raw \<noteq> []) in
       bind_tx (lock_event pg (he_eventId event)) (\<lambda>found.
         case found of
           None \<Rightarrow> throw_tx (PlainError (''event row missing after claim: '' @ he_eventId event))
         | Some row \<Rightarrow>
             if isSettled (ev_status row) then
               bind_tx (increment_duplicates pg (he_eventId event)) (\<lambda>_. return_tx (DDuplicate (ev_attempts row)))
             else if ev_status row = Failed then
               return_tx (DDead (ev_attempts row) (nullish (ev_failureReason row) ''previously failed''))
             else if \<not> claimed \<and> \<not> isContinuation then
               bind_tx (increment_duplicates pg (he_eventId event)) (\<lambda>_. return_tx (DDuplicate (ev_attempts row)))
             else run_attempt pg maxAttempts handle event row))"

definition claimAndHandle ::
  "pg \<Rightarrow> jsnum \<Rightarrow> handler \<Rightarrow> handled_event \<Rightarrow> bool \<Rightarrow> db \<Rightarrow> decision result \<times> db"
where
  "claimAndHandle pg maxAttempts handle event isContinuation =
     transaction pg (claimAndHandle_body pg maxAttempts handle event isContinuation)"

text \<open>\<open>emit\<close>: nothing for a dead decision; a duplicate is reported as processed.\<close>

definition decision_stage :: "handled_event \<Rightarrow> decision \<Rightarrow> stage_input list" where
  "decision_stage event d =
     (let input = (\<lambda>st status a.
            \<lparr>si_stage = st, si_correlationId = he_correlationId event, si_eventId = Some (he_eventId event),
             si_eventType = he_eventType event, si_status = status_string status, si_attempts = a\<rparr>)
      in case d of
           DDead a r \<Rightarrow> []
         | DProcessed a \<Rightarrow> [input StProcessed Processed a]
         | DDuplicate a \<Rightarrow> [input StDuplicate Processed a]
         | DRetry a \<Rightarrow> [input StRetry Processing a])"

definition processor_process ::
  "pg \<Rightarrow> jsnum \<Rightarrow> handler \<Rightarrow> handled_event \<Rightarrow> bool \<Rightarrow> db \<Rightarrow>
     decision result \<times> stage_input list \<times> db"
where
  "processor_process pg maxAttempts handle event isContinuation s =
     (case claimAndHandle pg maxAttempts handle event isContinuation s of
        (Inl e, s') \<Rightarrow> (Inl e, [], s')
      | (Inr d, s') \<Rightarrow> (Inr d, decision_stage event d, s'))"


subsection \<open>What a delivery promises: the ledger\<close>

text \<open>
  The abstract state of one event, and the transition a committed delivery makes on it. The
  processor is shown to implement it (\<open>body_refines\<close>): whatever statements it runs, a returned
  decision is the ledger's, on the row of this event, and no other row is touched.
\<close>

record ledger =
  lg_status :: event_status
  lg_attempts :: int
  lg_duplicates :: int
  lg_reason :: "string option"

definition fresh_ledger :: ledger where
  "fresh_ledger = \<lparr>lg_status = Received, lg_attempts = 0, lg_duplicates = 0, lg_reason = None\<rparr>"

definition ledger_of :: "event_row \<Rightarrow> ledger" where
  "ledger_of row =
     \<lparr>lg_status = ev_status row, lg_attempts = ev_attempts row,
      lg_duplicates = ev_duplicateCount row, lg_reason = ev_failureReason row\<rparr>"

definition ledger_at :: "db \<Rightarrow> string \<Rightarrow> ledger" where
  "ledger_at s k = (case events s k of None \<Rightarrow> fresh_ledger | Some row \<Rightarrow> ledger_of row)"

definition ledger_attempt :: "jsnum \<Rightarrow> handler \<Rightarrow> handled_event \<Rightarrow> ledger \<Rightarrow> decision \<times> ledger" where
  "ledger_attempt maxAttempts handle event l =
     (let attempts = lg_attempts l + 1 in
      case handle event attempts of
        Inr _ \<Rightarrow> (DProcessed attempts, l\<lparr>lg_status := Processed, lg_attempts := attempts, lg_reason := None\<rparr>)
      | Inl e \<Rightarrow>
          if is_permanent e \<or> js_le maxAttempts (Fin (of_int attempts))
          then (DDead attempts (error_message e),
                l\<lparr>lg_status := Failed, lg_attempts := attempts, lg_reason := Some (error_message e)\<rparr>)
          else (DRetry attempts,
                l\<lparr>lg_status := Processing, lg_attempts := attempts, lg_reason := Some (error_message e)\<rparr>))"

fun ledger_step ::
  "jsnum \<Rightarrow> handler \<Rightarrow> handled_event \<Rightarrow> bool \<Rightarrow> bool \<Rightarrow> ledger \<Rightarrow> decision \<times> ledger"
where
  "ledger_step maxAttempts handle event isNew isContinuation l =
     (case lg_status l of
        Failed \<Rightarrow> (DDead (lg_attempts l) (nullish (lg_reason l) ''previously failed''), l)
      | Processed \<Rightarrow> (DDuplicate (lg_attempts l), l\<lparr>lg_duplicates := lg_duplicates l + 1\<rparr>)
      | Dead \<Rightarrow> (DDuplicate (lg_attempts l), l\<lparr>lg_duplicates := lg_duplicates l + 1\<rparr>)
      | _ \<Rightarrow> if isNew \<or> isContinuation then ledger_attempt maxAttempts handle event l
             else (DDuplicate (lg_attempts l), l\<lparr>lg_duplicates := lg_duplicates l + 1\<rparr>))"

definition is_new :: "db \<Rightarrow> string \<Rightarrow> bool" where
  "is_new s k \<longleftrightarrow> events s k = None"

lemma ledger_of_simps [simp]:
  "ledger_of (new_event pg (claim_values event)) = fresh_ledger"
  "ledger_of (bump_duplicates pg row) = (ledger_of row)\<lparr>lg_duplicates := ev_duplicateCount row + 1\<rparr>"
  "lg_status (ledger_of row) = ev_status row"
  "lg_attempts (ledger_of row) = ev_attempts row"
  "lg_duplicates (ledger_of row) = ev_duplicateCount row"
  "lg_reason (ledger_of row) = ev_failureReason row"
  by (simp_all add: ledger_of_def fresh_ledger_def claim_values_def)

lemma ledger_of_patch:
  "ledger_of (apply_patch pg p row) =
     \<lparr>lg_status = nullish (up_status p) (ev_status row), lg_attempts = nullish (up_attempts p) (ev_attempts row),
      lg_duplicates = ev_duplicateCount row, lg_reason = nullish (up_failureReason p) (ev_failureReason row)\<rparr>"
  by (simp add: ledger_of_def)

lemmas patch_defs = attempt_patch_def failed_patch_def reason_patch_def processed_patch_def

lemma claim_values_simps [simp]:
  "iv_eventId (claim_values event) = he_eventId event"
  "iv_status (claim_values event) = Received"
  "iv_payload (claim_values event) = he_payload event"
  "iv_correlationId (claim_values event) = he_correlationId event"
  "iv_eventType (claim_values event) = he_eventType event"
  by (simp_all add: claim_values_def)

lemma run_attempt_refines:
  assumes "run_attempt pg maxAttempts handle event row s = Inr (d, s')"
    and "events s (he_eventId event) = Some row"
  shows "\<exists>row'. events s' (he_eventId event) = Some row'
           \<and> (d, ledger_of row') = ledger_attempt maxAttempts handle event (ledger_of row)"
    and "j \<noteq> he_eventId event \<Longrightarrow> events s' j = events s j" and "dlq s' = dlq s"
  using assms
  by (auto simp: run_attempt_def update_event_def tx_simps Let_def ledger_attempt_def ledger_of_patch patch_defs
      ledger_of_def split: option.splits sum.splits if_splits)

text \<open>The row a delivery works on: the one found, or the one its claim inserted.\<close>

definition claimed_db :: "pg \<Rightarrow> handled_event \<Rightarrow> db \<Rightarrow> db" where
  "claimed_db pg event s = snd (put_event pg (claim_values event) s)"

definition claimed_row :: "pg \<Rightarrow> handled_event \<Rightarrow> db \<Rightarrow> event_row" where
  "claimed_row pg event s = nullish (events s (he_eventId event)) (new_event pg (claim_values event))"

lemma claimed_simps [simp]:
  "events (claimed_db pg event s) (he_eventId event) = Some (claimed_row pg event s)"
  "j \<noteq> he_eventId event \<Longrightarrow> events (claimed_db pg event s) j = events s j"
  "dlq (claimed_db pg event s) = dlq s"
  "ledger_of (claimed_row pg event s) = ledger_at s (he_eventId event)"
  by (auto simp: claimed_db_def claimed_row_def ledger_at_def split: option.splits)

lemma claimed_row_simps [simp]:
  "ev_status (claimed_row pg event s) = lg_status (ledger_at s (he_eventId event))"
  "ev_attempts (claimed_row pg event s) = lg_attempts (ledger_at s (he_eventId event))"
  "ev_failureReason (claimed_row pg event s) = lg_reason (ledger_at s (he_eventId event))"
  "ev_duplicateCount (claimed_row pg event s) = lg_duplicates (ledger_at s (he_eventId event))"
  by (simp_all add: claimed_simps(4) [symmetric, of s event pg] del: claimed_simps(4))

lemma body_run:
  "claimAndHandle_body pg maxAttempts handle event isContinuation s =
     (case stmt_error pg (InsertEvent (claim_values event)) of
        Some e \<Rightarrow> Inl e
      | None \<Rightarrow>
          (case stmt_error pg (LockEvent (he_eventId event)) of
             Some e \<Rightarrow> Inl e
           | None \<Rightarrow>
               let s1 = claimed_db pg event s; l = ledger_at s (he_eventId event);
                   bump = (case stmt_error pg (IncrementDuplicate (he_eventId event)) of
                             Some e \<Rightarrow> Inl e
                           | None \<Rightarrow> Inr (DDuplicate (lg_attempts l),
                                          modify_event (he_eventId event) (bump_duplicates pg) s1))
               in if isSettled (lg_status l) then bump
                  else if lg_status l = Failed then
                    Inr (DDead (lg_attempts l) (nullish (lg_reason l) ''previously failed''), s1)
                  else if \<not> is_new s (he_eventId event) \<and> \<not> isContinuation then bump
                  else run_attempt pg maxAttempts handle event (claimed_row pg event s) s1))"
proof -
  have claim: "put_event pg (claim_values event) s =
      (if is_new s (he_eventId event) then [pg_uuid pg] else [], claimed_db pg event s)"
    by (simp add: prod_eq_iff claimed_db_def is_new_def)
  show ?thesis
    unfolding claimAndHandle_body_def insert_event_or_ignore_def lock_event_def increment_duplicates_def
      bind_run fst_conv snd_conv claim Let_def claimed_simps option.case claimed_row_simps return_tx_def
    by (cases "is_new s (he_eventId event)"; cases "stmt_error pg (InsertEvent (claim_values event))";
        cases "stmt_error pg (LockEvent (he_eventId event))") simp_all
qed

lemma body_cases:
  assumes "claimAndHandle_body pg maxAttempts handle event isContinuation s = Inr (d, s')"
  obtains
    (duplicate) "d = DDuplicate (lg_attempts (ledger_at s (he_eventId event)))"
      "s' = modify_event (he_eventId event) (bump_duplicates pg) (claimed_db pg event s)"
      "isSettled (lg_status (ledger_at s (he_eventId event)))
       \<or> lg_status (ledger_at s (he_eventId event)) \<noteq> Failed \<and> \<not> is_new s (he_eventId event) \<and> \<not> isContinuation"
  | (failed) "d = DDead (lg_attempts (ledger_at s (he_eventId event)))
                    (nullish (lg_reason (ledger_at s (he_eventId event))) ''previously failed'')"
      "s' = claimed_db pg event s" "lg_status (ledger_at s (he_eventId event)) = Failed"
  | (attempt) "run_attempt pg maxAttempts handle event (claimed_row pg event s) (claimed_db pg event s) = Inr (d, s')"
      "lg_status (ledger_at s (he_eventId event)) \<in> {Received, Processing}"
      "is_new s (he_eventId event) \<or> isContinuation"
proof -
  let ?l = "ledger_at s (he_eventId event)"
  have ok: "stmt_error pg (InsertEvent (claim_values event)) = None"
    "stmt_error pg (LockEvent (he_eventId event)) = None"
    using assms by (auto simp: body_run split: option.splits)
  consider "isSettled (lg_status ?l) \<or> lg_status ?l \<noteq> Failed \<and> \<not> is_new s (he_eventId event) \<and> \<not> isContinuation"
    | "lg_status ?l = Failed"
    | "lg_status ?l \<in> {Received, Processing}" "is_new s (he_eventId event) \<or> isContinuation"
    by (cases "lg_status ?l") auto
  then show thesis
  proof cases
    case 1
    then have "\<not> (\<not> isSettled (lg_status ?l) \<and> lg_status ?l = Failed)" by auto
    with 1 assms ok show thesis
      by (intro duplicate) (auto simp: body_run Let_def split: option.splits if_splits)
  next
    case 2
    with assms ok show thesis
      by (intro failed) (auto simp: body_run Let_def)
  next
    case 3
    with assms ok show thesis
      by (intro attempt) (auto simp: body_run Let_def)
  qed
qed

lemma body_refines:
  assumes "claimAndHandle_body pg maxAttempts handle event isContinuation s = Inr (d, s')"
  shows "\<exists>row'. events s' (he_eventId event) = Some row'
           \<and> (d, ledger_of row') = ledger_step maxAttempts handle event (is_new s (he_eventId event)) isContinuation
                                     (ledger_at s (he_eventId event))"
    and "j \<noteq> he_eventId event \<Longrightarrow> events s' j = events s j" and "dlq s' = dlq s"
proof -
  let ?k = "he_eventId event"
  have "(\<exists>row'. events s' ?k = Some row'
           \<and> (d, ledger_of row') = ledger_step maxAttempts handle event (is_new s ?k) isContinuation (ledger_at s ?k))
        \<and> (j \<noteq> ?k \<longrightarrow> events s' j = events s j) \<and> dlq s' = dlq s"
    using assms
  proof (cases rule: body_cases)
    case duplicate
    then show ?thesis
      by (cases "lg_status (ledger_at s ?k)") simp_all
  next
    case failed
    then show ?thesis by simp
  next
    case attempt
    from run_attempt_refines [OF attempt(1)] attempt(2,3) show ?thesis
      by (cases "lg_status (ledger_at s ?k)") simp_all
  qed
  then show "\<exists>row'. events s' ?k = Some row'
           \<and> (d, ledger_of row') = ledger_step maxAttempts handle event (is_new s ?k) isContinuation (ledger_at s ?k)"
    and "j \<noteq> ?k \<Longrightarrow> events s' j = events s j" and "dlq s' = dlq s" by auto
qed

lemma ledger_at_Some [simp]: "events s k = Some row \<Longrightarrow> ledger_at s k = ledger_of row"
  by (simp add: ledger_at_def)

subsection \<open>Commit, rollback and lost acknowledgements\<close>

lemma claim_cases:
  assumes "claimAndHandle pg maxAttempts handle event isContinuation s = (r, s')"
  obtains (rolled_back) e where "r = Inl e" "s' = s"
  | (committed) d where "r = Inr d \<or> (\<exists>e. r = Inl e)"
      "claimAndHandle_body pg maxAttempts handle event isContinuation s = Inr (d, s')"
proof (cases "claimAndHandle_body pg maxAttempts handle event isContinuation s")
  case (Inl e)
  with assms show thesis by (intro rolled_back [of e]) (auto simp: claimAndHandle_def transaction_def)
next
  case (Inr ds)
  obtain d s2 where ds: "ds = (d, s2)" by fastforce
  show thesis
  proof (cases "pg_fault pg Commit")
    case None
    with Inr ds assms show thesis
      by (intro committed [of d]) (auto simp: claimAndHandle_def transaction_def split: option.splits)
  next
    case (Some e)
    with Inr ds assms show thesis
      by (intro rolled_back [of e]) (auto simp: claimAndHandle_def transaction_def)
  qed
qed

text \<open>One delivery as a change of the ledgers: none, or the ledger's step at the event's key.\<close>

lemma claim_ledger:
  assumes "claimAndHandle pg maxAttempts handle event isContinuation s = (r, s')"
  shows "ledger_at s' j = ledger_at s j
         \<or> j = he_eventId event
           \<and> ledger_at s' j = snd (ledger_step maxAttempts handle event (is_new s j) isContinuation (ledger_at s j))"
    and "is_new s' j \<longrightarrow> is_new s j"
    and "dlq s' = dlq s"
    and "\<And>d. r = Inr d \<Longrightarrow>
          ledger_step maxAttempts handle event (is_new s (he_eventId event)) isContinuation
            (ledger_at s (he_eventId event)) = (d, ledger_at s' (he_eventId event))
          \<and> \<not> is_new s' (he_eventId event)"
proof -
  let ?k = "he_eventId event"
  let ?l = "ledger_step maxAttempts handle event (is_new s ?k) isContinuation (ledger_at s ?k)"
  have "(ledger_at s' j = ledger_at s j \<or> j = ?k \<and> ledger_at s' j = snd ?l)
        \<and> (is_new s' j \<longrightarrow> is_new s j) \<and> dlq s' = dlq s
        \<and> (\<forall>d. r = Inr d \<longrightarrow> ?l = (d, ledger_at s' ?k) \<and> \<not> is_new s' ?k)"
    using assms
  proof (cases rule: claim_cases)
    case (committed d)
    obtain row' where "events s' ?k = Some row'" "(d, ledger_of row') = ?l"
      using body_refines(1) [OF committed(2)] by blast
    moreover have "events s' j = events s j" if "j \<noteq> ?k" using body_refines(2) [OF committed(2) that] .
    ultimately have at: "?l = (d, ledger_at s' ?k)" "\<not> is_new s' ?k"
      and frame: "j \<noteq> ?k \<longrightarrow> ledger_at s' j = ledger_at s j \<and> is_new s' j = is_new s j"
      by (simp_all add: is_new_def ledger_at_def)
    with body_refines(3) [OF committed(2)] committed(1) show ?thesis
      by (cases "j = ?k") (auto simp del: ledger_step.simps)
  qed simp
  then show "ledger_at s' j = ledger_at s j \<or> j = ?k
           \<and> ledger_at s' j = snd (ledger_step maxAttempts handle event (is_new s j) isContinuation (ledger_at s j))"
    and "is_new s' j \<longrightarrow> is_new s j" and "dlq s' = dlq s"
    and "\<And>d. r = Inr d \<Longrightarrow> ?l = (d, ledger_at s' ?k) \<and> \<not> is_new s' ?k"
    by auto
qed

text \<open>What makes every statement of the transaction acceptable to the server.\<close>

definition pg_ready :: "pg \<Rightarrow> handler \<Rightarrow> handled_event \<Rightarrow> bool" where
  "pg_ready pg handle event \<longleftrightarrow>
     pg_fault pg = (\<lambda>_. None) \<and> schema_error (InsertEvent (claim_values event)) = None
     \<and> (\<forall>a e. handle event a = Inl e \<longrightarrow> CHR 0x00 \<notin> set (error_message e))"

lemma first_error_None: "first_error es = None \<longleftrightarrow> (\<forall>e \<in> set es. e = None)"
  by (induction es rule: first_error.induct) auto

lemma text_error_varchar: "varchar255_error k = None \<Longrightarrow> text_error k = None"
  by (auto simp: varchar255_error_def text_error_def split: if_splits)

lemma int4_error_int: "int4_error (Fin (of_int a)) = None \<longleftrightarrow> - (2 ^ 31) \<le> a \<and> a < 2 ^ 31"
proof -
  have "of_int a < - (2 ^ 31 :: rat) \<longleftrightarrow> a < - (2 ^ 31)"
    using of_int_less_iff [where ?'a = rat, of a "- (2 ^ 31)"] by simp
  moreover have "(2 ^ 31 :: rat) \<le> of_int a \<longleftrightarrow> 2 ^ 31 \<le> a"
    using of_int_le_iff [where ?'a = rat, of "2 ^ 31" a] by simp
  moreover have "snd (quotient_of (of_int a)) = 1"
    by simp
  ultimately show ?thesis
    by (simp only: int4_error_def jsnum.case not_True_eq_False if_False) (auto split: if_splits)
qed

lemma claim_total:
  assumes ready: "pg_ready pg handle event"
    and small: "0 \<le> lg_attempts (ledger_at s (he_eventId event))" "lg_attempts (ledger_at s (he_eventId event)) < 2 ^ 31 - 1"
  shows "\<exists>d s'. claimAndHandle pg maxAttempts handle event isContinuation s = (Inr d, s')"
proof -
  let ?k = "he_eventId event" and ?l = "ledger_at s (he_eventId event)"
  have key: "varchar255_error ?k = None"
    using ready by (simp add: pg_ready_def first_error_None)
  have ok: "stmt_error pg (InsertEvent (claim_values event)) = None" "stmt_error pg (LockEvent ?k) = None"
    "stmt_error pg (IncrementDuplicate ?k) = None"
    using ready text_error_varchar [OF key] by (auto simp: stmt_error_None pg_ready_def)
  have upd: "stmt_error pg (UpdateEvent ?k p) = None"
    if "\<forall>a. up_attempts p = Some a \<longrightarrow> - (2 ^ 31) \<le> a \<and> a < 2 ^ 31"
      and "\<forall>m. up_failureReason p = Some (Some m) \<longrightarrow> CHR 0x00 \<notin> set m" for p
  proof -
    have "opt_error (\<lambda>a. int4_error (Fin (of_int a))) (up_attempts p) = None"
      using that(1) by (cases "up_attempts p") (auto simp: int4_error_int)
    moreover have "opt_error (opt_error text_error) (up_failureReason p) = None"
      using that(2) by (cases "up_failureReason p"; cases "the (up_failureReason p)") (auto simp: text_error_def)
    ultimately show ?thesis
      using ready text_error_varchar [OF key] by (simp add: stmt_error_None pg_ready_def first_error_None)
  qed
  have "\<exists>d s'. run_attempt pg maxAttempts handle event (claimed_row pg event s) (claimed_db pg event s) = Inr (d, s')"
  proof -
    have "CHR 0x00 \<notin> set (error_message e)" if "handle event (lg_attempts ?l + 1) = Inl e" for e
      using ready that by (auto simp: pg_ready_def)
    then show ?thesis
      using small
      by (cases "handle event (lg_attempts ?l + 1)")
        (auto simp: run_attempt_def update_event_def tx_simps Let_def upd patch_defs)
  qed
  then have "\<exists>d s'. claimAndHandle_body pg maxAttempts handle event isContinuation s = Inr (d, s')"
    using ok by (auto simp: body_run Let_def)
  then show ?thesis
    using ready by (auto simp: claimAndHandle_def transaction_def pg_ready_def)
qed

subsection \<open>Invariants of the ledger\<close>

text \<open>
  With a limit of \<open>n\<close> attempts: no ledger counts more than \<open>n\<close>, an event still in play has an
  attempt left, a failed one carries its reason, a processed one carries none.
\<close>

definition ledger_ok :: "int \<Rightarrow> ledger \<Rightarrow> bool" where
  "ledger_ok n l \<longleftrightarrow>
     0 \<le> lg_attempts l \<and> lg_attempts l \<le> n \<and> 0 \<le> lg_duplicates l
     \<and> (lg_status l = Received \<or> lg_status l = Processing \<longrightarrow> lg_attempts l < n)
     \<and> (lg_status l = Failed \<longrightarrow> lg_reason l \<noteq> None)
     \<and> (lg_status l = Processed \<longrightarrow> lg_reason l = None \<and> 0 < lg_attempts l)"

definition terminal :: "ledger \<Rightarrow> bool" where
  "terminal l \<longleftrightarrow> lg_status l = Processed \<or> lg_status l = Failed \<or> lg_status l = Dead"

lemma ledger_ok_fresh [simp]: "0 < n \<Longrightarrow> ledger_ok n fresh_ledger"
  by (simp add: ledger_ok_def fresh_ledger_def)

lemma ledger_attempt_ok:
  assumes "ledger_ok n l" and "lg_status l = Received \<or> lg_status l = Processing"
  shows "ledger_ok n (snd (ledger_attempt (Fin (of_int n)) handle event l))"
proof -
  have "js_le (Fin (of_int n)) (Fin (of_int (lg_attempts l + 1))) \<longleftrightarrow> n \<le> lg_attempts l + 1"
    using of_int_le_iff [where ?'a = rat, of n "lg_attempts l + 1"] by simp
  with assms show ?thesis
    by (auto simp: ledger_attempt_def ledger_ok_def Let_def simp del: js_le.simps split: sum.splits)
qed

lemma ledger_step_ok:
  assumes "ledger_ok n l"
  shows "ledger_ok n (snd (ledger_step (Fin (of_int n)) handle event isNew isContinuation l))"
proof (cases "lg_status l = Received \<or> lg_status l = Processing")
  case True
  with assms ledger_attempt_ok [OF assms] show ?thesis
    by (auto simp: ledger_ok_def)
next
  case False
  with assms show ?thesis
    by (cases "lg_status l") (auto simp: ledger_ok_def)
qed

lemma ledger_step_terminal:
  assumes "terminal l"
  shows "terminal (snd (ledger_step maxAttempts handle event isNew isContinuation l))"
    and "lg_status (snd (ledger_step maxAttempts handle event isNew isContinuation l)) = lg_status l"
    and "lg_attempts (snd (ledger_step maxAttempts handle event isNew isContinuation l)) = lg_attempts l"
    and "fst (ledger_step maxAttempts handle event isNew isContinuation l) \<noteq> DProcessed a"
    and "ledger_step maxAttempts handle event isNew isContinuation l
         = ledger_step maxAttempts handle' event isNew' isContinuation' l"
  using assms by (auto simp: terminal_def)

lemma ledger_step_processed:
  assumes "ledger_step maxAttempts handle event isNew isContinuation l = (DProcessed a, l')"
  shows "\<not> terminal l" and "terminal l'" and "lg_status l' = Processed"
    and "handle event a = Inr ()" and "a = lg_attempts l + 1"
  using assms
  by (auto simp: terminal_def ledger_attempt_def Let_def split: event_status.splits if_splits sum.splits)

lemma ledger_step_mono:
  "lg_status l \<le> lg_status (snd (ledger_step maxAttempts handle event isNew isContinuation l))"
  by (cases "lg_status l")
    (auto simp: ledger_attempt_def Let_def less_eq_event_status_def split: sum.splits)

lemma ledger_step_attempts:
  "lg_attempts l \<le> lg_attempts (snd (ledger_step maxAttempts handle event isNew isContinuation l))"
  by (cases "lg_status l") (auto simp: ledger_attempt_def Let_def split: sum.splits)

subsection \<open>Deliveries of any kind, in any order\<close>

text \<open>
  One delivery of the work queue, with the server's behaviour and the handler at that time. The
  contract \<open>settling\<close> is what makes repeated deliveries harmless: a step counts only by leaving
  the unsettled states, and never returns to them.
\<close>

record delivery =
  dy_pg :: pg
  dy_handler :: handler
  dy_event :: handled_event
  dy_isContinuation :: bool

definition process_delivery :: "jsnum \<Rightarrow> delivery \<Rightarrow> db \<Rightarrow> decision result \<times> db" where
  "process_delivery maxAttempts y =
     claimAndHandle (dy_pg y) maxAttempts (dy_handler y) (dy_event y) (dy_isContinuation y)"

fun process_all :: "jsnum \<Rightarrow> delivery list \<Rightarrow> db \<Rightarrow> (delivery \<times> decision result) list \<times> db" where
  "process_all maxAttempts [] s = ([], s)"
| "process_all maxAttempts (y # ys) s =
     (let (r, s1) = process_delivery maxAttempts y s; (rs, s2) = process_all maxAttempts ys s1
      in ((y, r) # rs, s2))"

locale settling =
  fixes step :: "'m \<Rightarrow> 's \<Rightarrow> 'd \<times> 's"
    and settled :: "'s \<Rightarrow> bool"
    and counts :: "'m \<Rightarrow> 'd \<Rightarrow> bool"
  assumes settled_step: "settled s \<Longrightarrow> settled (snd (step m s))"
    and counts_settles: "counts m (fst (step m s)) \<Longrightarrow> \<not> settled s \<and> settled (snd (step m s))"
begin

primrec steps :: "'m list \<Rightarrow> 's \<Rightarrow> ('m \<times> 'd) list \<times> 's" where
  "steps [] s = ([], s)"
| "steps (m # ms) s =
     (let (d, s1) = step m s; (ds, s2) = steps ms s1 in ((m, d) # ds, s2))"

definition tally :: "('m \<times> 'd) list \<Rightarrow> nat" where
  "tally mds = length (filter (\<lambda>(m, d). counts m d) mds)"

lemma tally_Cons: "tally ((m, d) # mds) = (if counts m d then 1 else 0) + tally mds"
  by (simp add: tally_def)

lemma settled_steps: "settled s \<Longrightarrow> settled (snd (steps ms s)) \<and> tally (fst (steps ms s)) = 0"
proof (induction ms arbitrary: s)
  case Nil
  then show ?case by (simp add: tally_def)
next
  case (Cons m ms)
  obtain d s1 where d: "step m s = (d, s1)" by fastforce
  with Cons.prems settled_step [of s m] counts_settles [of m s] have "settled s1" "\<not> counts m d" by auto
  with Cons.IH [of s1] d show ?case by (simp add: tally_Cons case_prod_beta)
qed

lemma counted_at_most_once: "tally (fst (steps ms s)) \<le> 1"
proof (induction ms arbitrary: s)
  case Nil
  then show ?case by (simp add: tally_def)
next
  case (Cons m ms)
  obtain d s1 where d: "step m s = (d, s1)" by fastforce
  show ?case
  proof (cases "counts m d")
    case True
    with counts_settles [of m s] d have "settled s1" by simp
    from settled_steps [OF this, of ms] d True show ?thesis by (simp add: tally_Cons case_prod_beta)
  next
    case False
    with Cons.IH [of s1] d show ?thesis by (simp add: tally_Cons case_prod_beta)
  qed
qed

end

definition counts_as_processed :: "string \<Rightarrow> delivery \<Rightarrow> decision result \<Rightarrow> bool" where
  "counts_as_processed k y r \<longleftrightarrow> he_eventId (dy_event y) = k \<and> (\<exists>a. r = Inr (DProcessed a))"

definition settled_at :: "string \<Rightarrow> db \<Rightarrow> bool" where
  "settled_at k s \<longleftrightarrow> terminal (ledger_at s k)"

interpretation once: settling "process_delivery maxAttempts" "settled_at k" "counts_as_processed k"
  for maxAttempts k
proof
  fix s y
  obtain r s' where r: "process_delivery maxAttempts y s = (r, s')" by fastforce
  note claim = claim_ledger [OF r [unfolded process_delivery_def]]
  show "settled_at k (snd (process_delivery maxAttempts y s))" if "settled_at k s"
    using claim(1) [of k] that ledger_step_terminal(1) [of "ledger_at s k"] r
    by (auto simp: settled_at_def)
  show "\<not> settled_at k s \<and> settled_at k (snd (process_delivery maxAttempts y s))"
    if "counts_as_processed k y (fst (process_delivery maxAttempts y s))"
  proof -
    from that r obtain a where k: "k = he_eventId (dy_event y)" and "r = Inr (DProcessed a)"
      by (auto simp: counts_as_processed_def)
    from ledger_step_processed(1,2) [OF claim(4) [OF this(2), THEN conjunct1]] r k show ?thesis
      by (simp add: settled_at_def)
  qed
qed

lemma process_all_steps: "process_all maxAttempts ys s = once.steps maxAttempts ys s"
  by (induction ys arbitrary: s) simp_all

subsection \<open>A message that keeps being retried\<close>

text \<open>
  The deliveries of one message: the first one, then, as long as the decision is to retry, the
  message coming back from its retry queue as a continuation. \<open>ledger_run\<close> is the same on ledgers.
\<close>

fun follow_retries ::
  "pg \<Rightarrow> jsnum \<Rightarrow> handler \<Rightarrow> handled_event \<Rightarrow> nat \<Rightarrow> bool \<Rightarrow> db \<Rightarrow> decision result list \<times> db"
where
  "follow_retries pg maxAttempts handle event 0 isContinuation s = ([], s)"
| "follow_retries pg maxAttempts handle event (Suc fuel) isContinuation s =
     (case claimAndHandle pg maxAttempts handle event isContinuation s of
        (Inr (DRetry a), s') \<Rightarrow>
          (let (rs, s2) = follow_retries pg maxAttempts handle event fuel True s' in (Inr (DRetry a) # rs, s2))
      | (r, s') \<Rightarrow> ([r], s'))"

fun ledger_run ::
  "jsnum \<Rightarrow> handler \<Rightarrow> handled_event \<Rightarrow> nat \<Rightarrow> bool \<Rightarrow> bool \<Rightarrow> ledger \<Rightarrow> decision list \<times> ledger"
where
  "ledger_run maxAttempts handle event 0 isNew isContinuation l = ([], l)"
| "ledger_run maxAttempts handle event (Suc fuel) isNew isContinuation l =
     (case ledger_step maxAttempts handle event isNew isContinuation l of
        (DRetry a, l') \<Rightarrow>
          (let (ds, l2) = ledger_run maxAttempts handle event fuel False True l' in (DRetry a # ds, l2))
      | (d, l') \<Rightarrow> ([d], l'))"

lemma ledger_step_retry:
  assumes "ledger_step (Fin (of_int n)) handle event isNew isContinuation l = (DRetry a, l')"
    and "ledger_ok n l"
  shows "lg_attempts l' = lg_attempts l + 1" and "a = lg_attempts l + 1" and "ledger_ok n l'" and "a < n"
    and "lg_status l' = Processing"
proof -
  show at: "lg_attempts l' = lg_attempts l + 1" "a = lg_attempts l + 1" and "lg_status l' = Processing"
    using assms(1) by (auto simp: ledger_attempt_def Let_def split: event_status.splits if_splits sum.splits)
  show "ledger_ok n l'"
    using ledger_step_ok [OF assms(2), of handle event isNew isContinuation] assms(1) by simp
  with at \<open>lg_status l' = Processing\<close> show "a < n" by (simp add: ledger_ok_def)
qed

lemma ledger_step_ends:
  assumes "ledger_step maxAttempts handle event isNew isContinuation l = (d, l')"
    and "isNew \<or> isContinuation" and "\<And>a. d \<noteq> DRetry a"
  shows "terminal l'"
  using assms
  by (cases "lg_status l") (auto simp: terminal_def ledger_attempt_def Let_def split: if_splits sum.splits)

text \<open>Each retry uses up an attempt, so the run ends within the attempts left.\<close>

lemma ledger_run_ends:
  assumes "ledger_ok n l" and "isNew \<or> isContinuation" and "n - lg_attempts l < int fuel"
    and "ledger_run (Fin (of_int n)) handle event fuel isNew isContinuation l = (ds, l')"
  shows "ds \<noteq> [] \<and> int (length ds) \<le> max 1 (n - lg_attempts l) \<and> terminal l' \<and> (\<forall>a. last ds \<noteq> DRetry a)"
  using assms
proof (induction fuel arbitrary: isNew isContinuation l ds l')
  case 0
  then show ?case by (simp add: ledger_ok_def)
next
  case (Suc fuel)
  obtain d l1 where d: "ledger_step (Fin (of_int n)) handle event isNew isContinuation l = (d, l1)" by fastforce
  show ?case
  proof (cases "\<exists>a. d = DRetry a")
    case True
    then obtain a where a: "d = DRetry a" by blast
    obtain ds1 l2 where run: "ledger_run (Fin (of_int n)) handle event fuel False True l1 = (ds1, l2)" by fastforce
    note step = ledger_step_retry [OF d [unfolded a] Suc.prems(1)]
    have "ds1 \<noteq> [] \<and> int (length ds1) \<le> max 1 (n - lg_attempts l1) \<and> terminal l2 \<and> (\<forall>a. last ds1 \<noteq> DRetry a)"
      using Suc.prems(3) step by (intro Suc.IH [OF _ _ _ run]) simp_all
    moreover have "ds = DRetry a # ds1" "l' = l2" using Suc.prems(4) d a run by simp_all
    ultimately show ?thesis using step by auto
  next
    case False
    with Suc.prems(4) d have "ds = [d]" "l' = l1" by (auto split: decision.splits simp del: ledger_step.simps)
    with ledger_step_ends [OF d Suc.prems(2)] False show ?thesis by auto
  qed
qed

lemma follow_retries_run:
  assumes "pg_ready pg handle event" and "ledger_ok n (ledger_at s (he_eventId event))" and "n < 2 ^ 31 - 1"
  shows "ledger_run (Fin (of_int n)) handle event fuel (is_new s (he_eventId event)) isContinuation
           (ledger_at s (he_eventId event)) = (ds, l')
         \<Longrightarrow> \<exists>s'. follow_retries pg (Fin (of_int n)) handle event fuel isContinuation s = (map Inr ds, s')
               \<and> ledger_at s' (he_eventId event) = l'"
  using assms(2)
proof (induction fuel arbitrary: isContinuation s ds)
  case (Suc fuel)
  let ?k = "he_eventId event"
  have "0 \<le> lg_attempts (ledger_at s ?k)" "lg_attempts (ledger_at s ?k) < 2 ^ 31 - 1"
    using Suc.prems(2) assms(3) by (auto simp: ledger_ok_def)
  from claim_total [OF assms(1) this] obtain d s1 where
    claim: "claimAndHandle pg (Fin (of_int n)) handle event isContinuation s = (Inr d, s1)" by blast
  have step: "ledger_step (Fin (of_int n)) handle event (is_new s ?k) isContinuation (ledger_at s ?k) = (d, ledger_at s1 ?k)"
    and new: "\<not> is_new s1 ?k"
    using claim_ledger(4) [OF claim refl] by auto
  show ?case
  proof (cases "\<exists>a. d = DRetry a")
    case True
    then obtain a where a: "d = DRetry a" by blast
    obtain ds1 l2 where run: "ledger_run (Fin (of_int n)) handle event fuel False True (ledger_at s1 ?k) = (ds1, l2)"
      by fastforce
    from Suc.IH [of s1 True ds1] run new ledger_step_retry(3) [OF step [unfolded a] Suc.prems(2)] Suc.prems(1) step a claim
    show ?thesis by (auto simp del: ledger_step.simps)
  next
    case False
    with Suc.prems(1) step claim show ?thesis
      by (auto split: decision.splits simp del: ledger_step.simps)
  qed
qed simp

lemma digits_no_nul: "CHR 0x00 \<notin> set (digits n)"
proof
  assume "CHR 0x00 \<in> set (digits n)"
  then have "is_digit (CHR 0x00)" using digits_all by blast
  then show False by (simp add: is_digit_def code_def)
qed

lemma int_to_string_no_nul: "CHR 0x00 \<notin> set (int_to_string i)"
  by (simp add: int_to_string_def digits_no_nul)

lemma demo_handler_no_nul:
  assumes "CHR 0x00 \<notin> set (he_eventId event)" and "DemoOrderHandler_handle now event a = Inl e"
  shows "CHR 0x00 \<notin> set (error_message e)"
  using assms
  by (auto simp: DemoOrderHandler_handle_def js_number_def int_to_string_no_nul
      split: option.splits demo_scenario.splits if_splits)

lemma varchar_no_nul: "varchar255_error k = None \<Longrightarrow> CHR 0x00 \<notin> set k"
  by (auto simp: varchar255_error_def split: if_splits)

lemma demo_ready:
  assumes "pg_fault pg = (\<lambda>_. None)" and "schema_error (InsertEvent (claim_values event)) = None"
  shows "pg_ready pg (order_handler demo now) event"
proof -
  have "CHR 0x00 \<notin> set (he_eventId event)"
    using assms(2) by (intro varchar_no_nul) (simp add: first_error_None)
  from demo_handler_no_nul [OF this] assms show ?thesis
    by (auto simp: pg_ready_def order_handler_def NoopOrderHandler_handle_def)
qed

text \<open>The order handler of a process whose clock reads \<open>clock a\<close> at attempt \<open>a\<close>.\<close>

definition timed_handler :: "bool \<Rightarrow> (int \<Rightarrow> int) \<Rightarrow> handler" where
  "timed_handler demo clock event attempt = order_handler demo (clock attempt) event attempt"

lemma timed_ready:
  assumes "pg_fault pg = (\<lambda>_. None)" and "schema_error (InsertEvent (claim_values event)) = None"
  shows "pg_ready pg (timed_handler demo clock) event"
  using demo_ready [OF assms] by (simp add: pg_ready_def timed_handler_def)

subsection \<open>Properties\<close>

text \<open>C2. Refinement of the exactly-once ledger: whenever the transaction of \<open>claimAndHandle\<close> returns a
  decision, that decision and the event's new state are those the ledger prescribes from its old
  state (absent rows count as freshly received). When it throws instead, the tables are untouched,
  or the commit took effect and only its acknowledgement was lost. Either way no other event and no
  dead letter changes.\<close>

theorem processor_refines_ledger:
  "(case claimAndHandle pg maxAttempts handle event isContinuation s of
      (Inr d, s') \<Rightarrow>
        (d, ledger_at s' (he_eventId event))
          = ledger_step maxAttempts handle event (is_new s (he_eventId event)) isContinuation
              (ledger_at s (he_eventId event))
    | (Inl e, s') \<Rightarrow>
        s' = s
        \<or> pg_fault pg CommitAcknowledged = Some e
          \<and> ledger_at s' (he_eventId event)
             = snd (ledger_step maxAttempts handle event (is_new s (he_eventId event)) isContinuation
                      (ledger_at s (he_eventId event))))
   \<and> (j = he_eventId event
      \<or> events (snd (claimAndHandle pg maxAttempts handle event isContinuation s)) j = events s j)
   \<and> dlq (snd (claimAndHandle pg maxAttempts handle event isContinuation s)) = dlq s"
proof -
  obtain r s' where run: "claimAndHandle pg maxAttempts handle event isContinuation s = (r, s')" by fastforce
  have frame: "j = he_eventId event \<or> events s' j = events s j"
    using run by (cases rule: claim_cases) (auto dest: body_refines(2))
  have lost: "s' = s \<or> pg_fault pg CommitAcknowledged = Some e
      \<and> ledger_at s' (he_eventId event) = snd (ledger_step maxAttempts handle event
            (is_new s (he_eventId event)) isContinuation (ledger_at s (he_eventId event)))" if r: "r = Inl e" for e
    using run
  proof (cases rule: claim_cases)
    case (committed d)
    from body_refines(1) [OF committed(2)] have
      "ledger_at s' (he_eventId event) = snd (ledger_step maxAttempts handle event
            (is_new s (he_eventId event)) isContinuation (ledger_at s (he_eventId event)))"
      by (metis ledger_at_Some snd_conv)
    moreover have "pg_fault pg CommitAcknowledged = Some e \<or> s' = s"
      using run r by (auto simp: claimAndHandle_def transaction_def split: sum.splits option.splits prod.splits)
    ultimately show ?thesis by blast
  qed simp
  from claim_ledger(3,4) [OF run] frame lost run show ?thesis
    by (cases r) (simp_all del: ledger_step.simps)
qed

text \<open>C3. At-least-once delivery, exactly-once effect: over any sequence of deliveries of the work queue,
  in any order and interleaved with any others, whatever each finds the database, the clock and the
  order handler doing and however it is flagged, an event id is decided \<open>processed\<close> at most once.\<close>

theorem processed_at_most_once:
  "length (filter (\<lambda>(y, r). counts_as_processed k y r) (fst (process_all maxAttempts ys s))) \<le> 1"
  using once.counted_at_most_once [of k maxAttempts ys s]
  by (simp add: process_all_steps once.tally_def)


definition sample_event :: "json \<Rightarrow> handled_event" where
  "sample_event payload =
     \<lparr>he_eventId = ''evt-1'', he_eventType = ''order.created'', he_correlationId = ''corr-1'', he_payload = payload\<rparr>"

lemma varchar255_fits: "CHR 0x00 \<notin> set s \<Longrightarrow> length s \<le> 255 \<Longrightarrow> varchar255_error s = None"
proof -
  assume "CHR 0x00 \<notin> set s" "length s \<le> 255"
  moreover have "code_points s \<le> length s" by (simp add: code_points_def)
  ultimately show ?thesis by (simp add: varchar255_error_def)
qed

lemma sample_fits:
  assumes "\<not> json_has_nul payload"
  shows "schema_error (InsertEvent (claim_values (sample_event payload))) = None"
proof -
  have "varchar255_error ''evt-1'' = None" "varchar255_error ''order.created'' = None" "varchar255_error ''corr-1'' = None"
    by (rule varchar255_fits; simp)+
  with assms show ?thesis by (simp add: first_error_None sample_event_def)
qed

lemma calm_fault [simp]: "pg_fault calm_pg = (\<lambda>_. None)"
  by (simp add: calm_pg_def)

lemma empty_db_simps [simp]:
  "ledger_at empty_db k = fresh_ledger" "is_new empty_db k" "dlq empty_db = []"
  by (simp_all add: empty_db_def ledger_at_def is_new_def)


definition store_ok :: "int \<Rightarrow> db \<Rightarrow> bool" where
  "store_ok n s \<longleftrightarrow> (\<forall>k. ledger_ok n (ledger_at s k))"

lemma process_delivery_ok:
  assumes "store_ok n s"
  shows "store_ok n (snd (process_delivery (Fin (of_int n)) y s))"
proof -
  obtain r s' where r: "process_delivery (Fin (of_int n)) y s = (r, s')" by fastforce
  have "ledger_ok n (ledger_at s' k)" for k
    using claim_ledger(1) [OF r [unfolded process_delivery_def], of k] assms ledger_step_ok
    by (auto simp: store_ok_def simp del: ledger_step.simps)
  with r show ?thesis by (simp add: store_ok_def)
qed

lemma process_all_ok: "store_ok n s \<Longrightarrow> store_ok n (snd (process_all (Fin (of_int n)) ys s))"
proof (induction ys arbitrary: s)
  case (Cons y ys)
  from Cons.IH [OF process_delivery_ok [OF Cons.prems]] show ?case by (simp add: case_prod_beta)
qed simp

text \<open>C15. The attempt budget: with a limit of \<open>n\<close> attempts, a store in which no event has more than \<open>n\<close>,
  events in play have one left, failed events carry a reason and processed ones none, stays so over
  every sequence of deliveries, whatever fails.\<close>

theorem attempt_budget_kept:
  assumes "store_ok n s"
  shows "store_ok n (snd (process_all (Fin (of_int n)) ys s))"
  using assms by (rule process_all_ok)

theorem attempt_budget_kept_witness:
  "store_ok 4 (snd (process_all (Fin (of_int 4))
     [\<lparr>dy_pg = calm_pg, dy_handler = order_handler True 0, dy_event = sample_event (JObj []), dy_isContinuation = False\<rparr>]
     empty_db))"
  by (rule attempt_budget_kept) (simp add: store_ok_def)

text \<open>Settled means settled: once an event is processed, failed or dead, no delivery of the work queue
  changes its status or attempts again, and the order handler is not consulted (the outcome is the
  same for any two handlers); a plain duplicate of an event in play leaves its handler alone too.\<close>

theorem settled_event_never_reprocessed:
  assumes "terminal (ledger_at s (he_eventId event)) \<or> \<not> is_new s (he_eventId event) \<and> \<not> isContinuation"
  shows "claimAndHandle pg maxAttempts handle event isContinuation s
           = claimAndHandle pg maxAttempts' handle' event isContinuation s
         \<and> lg_status (ledger_at (snd (claimAndHandle pg maxAttempts handle event isContinuation s)) j)
             = lg_status (ledger_at s j)
         \<and> lg_attempts (ledger_at (snd (claimAndHandle pg maxAttempts handle event isContinuation s)) j)
             = lg_attempts (ledger_at s j)"
proof -
  let ?l = "ledger_at s (he_eventId event)"
  have guard: "isSettled (lg_status ?l) \<or> lg_status ?l = Failed \<or> \<not> is_new s (he_eventId event) \<and> \<not> isContinuation"
    using assms by (auto simp: terminal_def)
  then have same: "claimAndHandle_body pg maxAttempts handle event isContinuation s
                     = claimAndHandle_body pg maxAttempts' handle' event isContinuation s"
    by (auto simp: body_run Let_def split: option.splits)
  have kept: "lg_status (snd (ledger_step maxAttempts handle event (is_new s (he_eventId event)) isContinuation ?l))
                = lg_status ?l
              \<and> lg_attempts (snd (ledger_step maxAttempts handle event (is_new s (he_eventId event)) isContinuation ?l))
                = lg_attempts ?l"
    using guard by (cases "lg_status ?l") auto
  obtain r s' where r: "claimAndHandle pg maxAttempts handle event isContinuation s = (r, s')" by fastforce
  from claim_ledger(1) [OF r, of j] kept same r show ?thesis
    by (auto simp: claimAndHandle_def transaction_def simp del: ledger_step.simps)
qed

theorem settled_event_never_reprocessed_witness:
  "let s = claimed_db calm_pg (sample_event (JObj [])) empty_db in
     claimAndHandle calm_pg (Fin 4) (order_handler True 0) (sample_event (JObj [])) False s
       = claimAndHandle calm_pg (Fin 4) (\<lambda>_ _. Inl (PlainError ''not called'')) (sample_event (JObj [])) False s
     \<and> lg_status (ledger_at (snd (claimAndHandle calm_pg (Fin 4) (order_handler True 0) (sample_event (JObj [])) False s)) ''evt-1'')
         = lg_status (ledger_at s ''evt-1'')"
  unfolding Let_def
  by (intro conjI settled_event_never_reprocessed [THEN conjunct1]
      settled_event_never_reprocessed [THEN conjunct2, THEN conjunct1]) (simp_all add: is_new_def)

text \<open>The kinds and attempts of a run of decisions.\<close>

definition outline :: "decision result list \<Rightarrow> (string \<times> int) list" where
  "outline rs = map (\<lambda>r. case r of Inr d \<Rightarrow> (decision_kind d, decision_attempts d) | Inl e \<Rightarrow> (''error'', 0)) rs"

definition outage_over :: "int \<Rightarrow> handled_event \<Rightarrow> bool" where
  "outage_over now event =
     (case js_number (field (he_payload event) OUTAGE_UNTIL_KEY) of
        Inr t \<Rightarrow> is_finite t \<and> \<not> js_less (Fin (of_int now)) t
      | Inl e \<Rightarrow> False)"

lemma demo_outcome:
  "(\<exists>e. DemoOrderHandler_handle now event attempt = Inl e \<and> is_permanent e) \<longleftrightarrow> scenarioOf event = Some ScPermanent"
  "DemoOrderHandler_handle now event attempt = Inr () \<longleftrightarrow>
     (case scenarioOf event of
        None \<Rightarrow> True
      | Some ScPermanent \<Rightarrow> False
      | Some ScTransient \<Rightarrow> 3 \<le> attempt
      | Some ScExhaust \<Rightarrow> outage_over now event)"
  by (auto simp: DemoOrderHandler_handle_def TRANSIENT_SUCCESS_ATTEMPT_def outage_over_def js_number_def
      bind_res_def split: option.splits demo_scenario.splits sum.splits if_splits)

lemma ledger_run_outline:
  assumes "\<And>a. handle event a = Inr () \<longleftrightarrow> good a" and "\<And>a e. handle event a = Inl e \<Longrightarrow> is_permanent e = permanent"
    and "lg_status l = Received \<or> lg_status l = Processing" and "isNew \<or> isContinuation"
  shows "outline (map Inr (fst (ledger_run (Fin 4) handle event (Suc fuel) isNew isContinuation l))) =
    (let a = lg_attempts l + 1 in
     if good a then [(''processed'', a)]
     else if permanent \<or> 4 \<le> a then [(''dead'', a)]
     else (''retry'', a) # outline (map Inr (fst (ledger_run (Fin 4) handle event fuel False True
                                 (l\<lparr>lg_status := Processing, lg_attempts := a,
                                    lg_reason := Some (error_message (projl (handle event a)))\<rparr>)))))"
proof -
  have four: "(4::rat) \<le> 1 + of_int (lg_attempts l) \<longleftrightarrow> 3 \<le> lg_attempts l"
    using of_int_le_iff [where ?'a = rat, of 4 "1 + lg_attempts l"] by simp
  have "ledger_step (Fin 4) handle event isNew isContinuation l = ledger_attempt (Fin 4) handle event l"
    using assms(3,4) by auto
  with assms(1) [of "lg_attempts l + 1"] assms(2) [of "lg_attempts l + 1"] four show ?thesis
    by (cases "handle event (lg_attempts l + 1)")
      (auto simp: ledger_attempt_def Let_def outline_def case_prod_beta add.commute simp del: ledger_step.simps)
qed

text \<open>The demo scenarios under the default limit of four attempts: an ordinary order is processed at
  once; \<open>transient\<close> fails twice and is processed on the third attempt; \<open>permanent\<close> is dead after one;
  \<open>exhaust\<close> is retried as long as the outage lasts, and is dead when it outlasts the fourth attempt.\<close>

lemma demo_scenarios_walk:
  assumes "pg_fault pg = (\<lambda>_. None)" and "schema_error (InsertEvent (claim_values event)) = None"
    and "is_new s (he_eventId event)"
  shows "outline (fst (follow_retries pg (Fin 4) (timed_handler True clock) event 4 False s)) =
    (case scenarioOf event of
       None \<Rightarrow> [(''processed'', 1)]
     | Some ScTransient \<Rightarrow> [(''retry'', 1), (''retry'', 2), (''processed'', 3)]
     | Some ScPermanent \<Rightarrow> [(''dead'', 1)]
     | Some ScExhaust \<Rightarrow>
         if outage_over (clock 1) event then [(''processed'', 1)]
         else if outage_over (clock 2) event then [(''retry'', 1), (''processed'', 2)]
         else if outage_over (clock 3) event then [(''retry'', 1), (''retry'', 2), (''processed'', 3)]
         else [(''retry'', 1), (''retry'', 2), (''retry'', 3),
               (if outage_over (clock 4) event then ''processed'' else ''dead'', 4)])"
proof -
  let ?h = "timed_handler True clock" and ?k = "he_eventId event"
  have h: "?h event a = DemoOrderHandler_handle (clock a) event a" for a
    by (simp add: timed_handler_def order_handler_def)
  have fresh: "ledger_at s ?k = fresh_ledger" using assms(3) by (simp add: is_new_def ledger_at_def)
  obtain ds l' where run: "ledger_run (Fin (of_int 4)) ?h event 4 True False fresh_ledger = (ds, l')" by fastforce
  have "\<exists>s'. follow_retries pg (Fin (of_int 4)) ?h event 4 False s = (map Inr ds, s') \<and> ledger_at s' ?k = l'"
    by (rule follow_retries_run [OF timed_ready [OF assms(1,2)]]) (use run fresh assms(3) in simp_all)
  then have ds: "fst (follow_retries pg (Fin 4) ?h event 4 False s)
                   = map Inr (fst (ledger_run (Fin 4) ?h event (Suc (Suc (Suc (Suc 0)))) True False fresh_ledger))"
    using run by (auto simp: numeral_eq_Suc)
  let ?good = "\<lambda>a. (case scenarioOf event of None \<Rightarrow> True | Some ScPermanent \<Rightarrow> False
                   | Some ScTransient \<Rightarrow> 3 \<le> a | Some ScExhaust \<Rightarrow> outage_over (clock a) event)"
  have good: "?h event a = Inr () \<longleftrightarrow> ?good a" for a by (simp add: h demo_outcome)
  have permanent: "is_permanent e = (scenarioOf event = Some ScPermanent)" if "?h event a = Inl e" for a e
    using that demo_outcome(1) [of "clock a" event a] h by auto
  note step = ledger_run_outline [of ?h event ?good "scenarioOf event = Some ScPermanent", OF good permanent]
  have nil: "outline [] = []" by (simp add: outline_def)
  show ?thesis
    unfolding ds
    by (cases "scenarioOf event"; cases "the (scenarioOf event)")
      (simp_all add: step Let_def fresh_ledger_def nil del: ledger_run.simps(2))
qed

end
