(* ===== verification/Crypto.thy ===== *)
theory Crypto
  imports JsonText "HOL-Library.Word"
begin

text \<open>
  The part of \<open>node:crypto\<close> and WebCrypto the sources use: SHA-256, HMAC-SHA256, the hexadecimal
  digest and \<open>timingSafeEqual\<close>, and the bytes of a JavaScript string. The functions are concrete and
  executable; no property of the development assumes that SHA-256 has no collisions, the
  statements that depend on one exhibit it.
\<close>

unbundle bit_operations_syntax

type_synonym byte = "8 word"
type_synonym w32 = "32 word"

subsection \<open>SHA-256\<close>

text \<open>Fractional parts of the cube roots of the first 64 primes and of the square roots of the first 8.\<close>

definition round_constants :: "w32 list" where
  "round_constants = [
    1116352408, 1899447441, 3049323471, 3921009573, 961987163, 1508970993,
    2453635748, 2870763221, 3624381080, 310598401, 607225278, 1426881987,
    1925078388, 2162078206, 2614888103, 3248222580, 3835390401, 4022224774,
    264347078, 604807628, 770255983, 1249150122, 1555081692, 1996064986,
    2554220882, 2821834349, 2952996808, 3210313671, 3336571891, 3584528711,
    113926993, 338241895, 666307205, 773529912, 1294757372, 1396182291,
    1695183700, 1986661051, 2177026350, 2456956037, 2730485921, 2820302411,
    3259730800, 3345764771, 3516065817, 3600352804, 4094571909, 275423344,
    430227734, 506948616, 659060556, 883997877, 958139571, 1322822218,
    1537002063, 1747873779, 1955562222, 2024104815, 2227730452, 2361852424,
    2428436474, 2756734187, 3204031479, 3329325298]"

definition initial_hash :: "w32 list" where
  "initial_hash = [1779033703, 3144134277, 1013904242, 2773480762, 1359893119, 2600822924, 528734635, 1541459225]"

definition rotate_right :: "nat \<Rightarrow> w32 \<Rightarrow> w32" where
  "rotate_right n x = drop_bit n x OR push_bit (32 - n) x"

definition small_sigma :: "nat \<Rightarrow> nat \<Rightarrow> nat \<Rightarrow> w32 \<Rightarrow> w32" where
  "small_sigma a b c x = rotate_right a x XOR rotate_right b x XOR drop_bit c x"

definition big_sigma :: "nat \<Rightarrow> nat \<Rightarrow> nat \<Rightarrow> w32 \<Rightarrow> w32" where
  "big_sigma a b c x = rotate_right a x XOR rotate_right b x XOR rotate_right c x"

text \<open>The message schedule, latest word first: 48 words are added to the 16 of the block.\<close>

fun schedule :: "nat \<Rightarrow> w32 list \<Rightarrow> w32 list" where
  "schedule 0 ws = rev ws"
| "schedule (Suc n) ws =
     schedule n ((small_sigma 17 19 10 (ws ! 1) + ws ! 6 + small_sigma 7 18 3 (ws ! 14) + ws ! 15) # ws)"

text \<open>One round per schedule word.\<close>

fun compress :: "(w32 \<times> w32) list \<Rightarrow> w32 list \<Rightarrow> w32 list" where
  "compress ((k, w) # kws) [a, b, c, d, e, f, g, h] =
     (let t1 = h + big_sigma 6 11 25 e + ((e AND f) XOR (NOT e AND g)) + k + w;
          t2 = big_sigma 2 13 22 a + ((a AND b) XOR (a AND c) XOR (b AND c))
      in compress kws [t1 + t2, a, b, c, d + t1, e, f, g])"
| "compress _ hs = hs"

fun be_words :: "byte list \<Rightarrow> w32 list" where
  "be_words (a # b # c # d # r) =
     (push_bit 24 (ucast a) OR push_bit 16 (ucast b) OR push_bit 8 (ucast c) OR ucast d) # be_words r"
| "be_words _ = []"

definition be_bytes :: "w32 \<Rightarrow> byte list" where
  "be_bytes x = [ucast (drop_bit 24 x), ucast (drop_bit 16 x), ucast (drop_bit 8 x), ucast x]"

text \<open>Padding: a one bit, zeros up to 56 bytes modulo 64, the bit length as a 64-bit word.\<close>

definition sha_pad :: "byte list \<Rightarrow> byte list" where
  "sha_pad m =
     (let n = length m; z = (119 - n mod 64) mod 64; bits = 8 * n in
      m @ [128] @ replicate z 0 @ map (\<lambda>i. ucast (drop_bit (56 - 8 * i) (word_of_nat bits :: 64 word))) [0..<8])"

definition sha_block :: "w32 list \<Rightarrow> byte list \<Rightarrow> w32 list" where
  "sha_block hs blk =
     map2 (+) hs (compress (zip round_constants (schedule 48 (rev (be_words blk)))) hs)"

fun sha_blocks :: "nat \<Rightarrow> w32 list \<Rightarrow> byte list \<Rightarrow> w32 list" where
  "sha_blocks 0 hs m = hs"
| "sha_blocks (Suc n) hs m = sha_blocks n (sha_block hs (take 64 m)) (drop 64 m)"

definition sha256 :: "byte list \<Rightarrow> byte list" where
  "sha256 m = (let p = sha_pad m in concat (map be_bytes (sha_blocks (length p div 64) initial_hash p)))"

subsection \<open>HMAC-SHA256\<close>

definition hmac_block :: "byte list \<Rightarrow> byte list" where
  "hmac_block key =
     (let k = (if 64 < length key then sha256 key else key) in k @ replicate (64 - length k) 0)"

definition hmac_sha256 :: "byte list \<Rightarrow> byte list \<Rightarrow> byte list" where
  "hmac_sha256 key msg =
     (let k = hmac_block key
      in sha256 (map (\<lambda>b. b XOR 92) k @ sha256 (map (\<lambda>b. b XOR 54) k @ msg)))"

text \<open>The UTF-8 bytes of a string and \<open>digest('hex')\<close>.\<close>

definition utf8_bytes :: "string \<Rightarrow> byte list" where
  "utf8_bytes s = map (\<lambda>c. word_of_nat (code c)) s"

definition digest_hex :: "byte list \<Rightarrow> string" where
  "digest_hex bs = concat (map (\<lambda>b. [hex_digit (unat b div 16), hex_digit (unat b mod 16)]) bs)"

text \<open>\<open>timingSafeEqual\<close> throws on buffers of different lengths.\<close>

definition timing_safe_equal :: "byte list \<Rightarrow> byte list \<Rightarrow> bool result" where
  "timing_safe_equal a b =
     (if length a \<noteq> length b then Inl (PlainError ''Input buffers must have the same byte length'')
      else Inr (a = b))"

subsection \<open>Lengths\<close>

lemma length_compress: "length (compress kws hs) = length hs"
  by (induction kws hs rule: compress.induct) (simp_all add: Let_def)

lemma length_sha_block: "length (sha_block hs blk) = length hs"
  by (simp add: sha_block_def length_compress)

lemma length_sha_blocks: "length (sha_blocks n hs m) = length hs"
  by (induction n hs m rule: sha_blocks.induct) (simp_all add: length_sha_block)

lemma length_sha256 [simp]: "length (sha256 m) = 32"
proof -
  have "length (concat (map be_bytes hs)) = 4 * length hs" for hs
    by (induction hs) (simp_all add: be_bytes_def)
  then show ?thesis
    by (simp add: sha256_def Let_def length_sha_blocks initial_hash_def)
qed

lemma length_digest_hex [simp]: "length (digest_hex bs) = 2 * length bs"
  by (induction bs) (simp_all add: digest_hex_def)

lemma length_hmac_sha256 [simp]: "length (hmac_sha256 k m) = 32"
  by (simp add: hmac_sha256_def Let_def)

end
