(* ===== verification/Common.thy ===== *)
theory Common
  imports Crypto Config
begin

text \<open>
  The helpers of \<open>src/src/common/\<close>: \<open>timing-safe.ts\<close>, \<open>correlation-context.ts\<close>,
  \<open>correlation.middleware.ts\<close>, \<open>with-timeout.ts\<close> and \<open>json-logger.ts\<close>. The \<open>AsyncLocalStorage\<close> of
  the correlation context is an argument of the code that runs under it; a random UUID and the
  clock are arguments too.
\<close>

subsection \<open>Constant-time comparison (\<open>timing-safe.ts\<close>)\<close>

definition timingSafeEqualString :: "string \<Rightarrow> string \<Rightarrow> bool result" where
  "timingSafeEqualString a b =
     (let digestA = sha256 (utf8_bytes a); digestB = sha256 (utf8_bytes b)
      in timing_safe_equal digestA digestB)"

lemma timingSafeEqualString_Inr [simp]:
  "timingSafeEqualString a b = Inr (sha256 (utf8_bytes a) = sha256 (utf8_bytes b))"
  by (simp add: timingSafeEqualString_def timing_safe_equal_def Let_def)

subsection \<open>Correlation context and middleware\<close>

type_synonym 'a in_context = "string option \<Rightarrow> 'a"

definition runWithCorrelationId :: "string \<Rightarrow> 'a in_context \<Rightarrow> 'a" where
  "runWithCorrelationId correlationId fn = fn (Some correlationId)"

definition currentCorrelationId :: "string option in_context" where
  "currentCorrelationId store = store"

text \<open>A request header of Node: absent, a string, or several values.\<close>

datatype header = Single string | Multiple "string list"

type_synonym headers = "string \<rightharpoonup> header"

text \<open>\<open>Array.isArray(value) ? value[0] : value\<close>, as \<open>headerValue\<close> of the signature guard and the key guard read a header.\<close>

definition headerValue :: "headers \<Rightarrow> string \<Rightarrow> string option" where
  "headerValue hs name = (case hs name of
       None \<Rightarrow> None
     | Some (Single v) \<Rightarrow> Some v
     | Some (Multiple vs) \<Rightarrow> (case vs of [] \<Rightarrow> None | v # _ \<Rightarrow> Some v))"

definition CORRELATION_HEADER :: string where
  "CORRELATION_HEADER = ''x-correlation-id''"

text \<open>\<open>[\w.:-]\<close> of the regular expression \<open>/^[\w.:-]{1,128}$/\<close>.\<close>

definition correlation_char :: "char \<Rightarrow> bool" where
  "correlation_char c \<longleftrightarrow>
     is_digit c \<or> (65 \<le> code c \<and> code c \<le> 90) \<or> (97 \<le> code c \<and> code c \<le> 122)
     \<or> c \<in> set ''_.:-''"

definition valid_correlation_id :: "string \<Rightarrow> bool" where
  "valid_correlation_id s \<longleftrightarrow> 1 \<le> length s \<and> length s \<le> 128 \<and> list_all correlation_char s"

text \<open>
  The middleware: the response header it sets, and the continuation run under the chosen id.
  \<open>uuid\<close> is what \<open>randomUUID()\<close> returns.
\<close>

definition correlation_use :: "string \<Rightarrow> headers \<Rightarrow> 'a in_context \<Rightarrow> (string \<times> string) \<times> 'a" where
  "correlation_use uuid hs next =
     (let correlationId = (case hs CORRELATION_HEADER of
            Some (Single incoming) \<Rightarrow> if valid_correlation_id incoming then incoming else uuid
          | _ \<Rightarrow> uuid)
      in ((CORRELATION_HEADER, correlationId), runWithCorrelationId correlationId next))"

lemma valid_correlation_id_ascii:
  assumes "valid_correlation_id s"
  shows "\<forall>c \<in> set s. code c < 128" and "js_length s = length s" and "js_length s \<le> 128"
proof -
  have "code c < 128" if "correlation_char c" for c
    using that by (auto simp: correlation_char_def is_digit_def code_def)
  with assms show ascii: "\<forall>c \<in> set s. code c < 128"
    by (auto simp: valid_correlation_id_def list_all_iff)
  then show "js_length s = length s" by (rule js_length_ascii)
  with assms show "js_length s \<le> 128" by (simp add: valid_correlation_id_def)
qed

subsection \<open>Timeouts (\<open>with-timeout.ts\<close>)\<close>

text \<open>
  The promise returned by \<open>withTimeout\<close> sees at most three kinds of event, in the order the event
  loop delivers them. \<open>settled\<close> is its outcome (a promise settles once: later calls of \<open>resolve\<close>
  and \<open>reject\<close> are ignored), \<open>armed\<close> whether the timer is still set.
\<close>

datatype 'a await_event = TimerFires | Resolves 'a | Rejects exn

record 'a awaiting =
  settled :: "'a result option"
  armed :: bool

definition settle :: "'a result \<Rightarrow> 'a awaiting \<Rightarrow> 'a awaiting" where
  "settle r w = (case settled w of None \<Rightarrow> w\<lparr>settled := Some r\<rparr> | Some _ \<Rightarrow> w)"

text \<open>\<open>error instanceof Error ? error : new Error(String(error))\<close>\<close>

fun as_error :: "exn \<Rightarrow> exn" where
  "as_error (NonError m) = PlainError m"
| "as_error e = e"

fun await_step :: "string \<Rightarrow> 'a awaiting \<Rightarrow> 'a await_event \<Rightarrow> 'a awaiting" where
  "await_step message w TimerFires =
     (if armed w then settle (Inl (PlainError message)) (w\<lparr>armed := False\<rparr>) else w)"
| "await_step message w (Resolves v) = settle (Inr v) (w\<lparr>armed := False\<rparr>)"
| "await_step message w (Rejects e) = settle (Inl (as_error e)) (w\<lparr>armed := False\<rparr>)"

definition withTimeout :: "string \<Rightarrow> 'a await_event list \<Rightarrow> 'a awaiting" where
  "withTimeout message events = foldl (await_step message) \<lparr>settled = None, armed = True\<rparr> events"

text \<open>The outcome an awaiting caller sees, from the first event.\<close>

fun first_outcome :: "string \<Rightarrow> 'a await_event \<Rightarrow> 'a result" where
  "first_outcome message TimerFires = Inl (PlainError message)"
| "first_outcome message (Resolves v) = Inr v"
| "first_outcome message (Rejects e) = Inl (as_error e)"

lemma await_steps_settled:
  "settled w = Some r \<Longrightarrow> settled (foldl (await_step message) w events) = Some r"
proof (induction events arbitrary: w)
  case (Cons e events)
  have "settled (await_step message w e) = Some r"
    using Cons.prems by (cases e) (simp_all add: settle_def)
  then show ?case using Cons.IH by simp
qed simp

lemma await_steps_disarmed:
  "\<not> armed w \<Longrightarrow> \<not> armed (foldl (await_step message) w events)"
proof (induction events arbitrary: w)
  case (Cons e events)
  have "\<not> armed (await_step message w e)"
    using Cons.prems by (cases e) (auto simp: settle_def split: option.splits)
  then show ?case using Cons.IH by simp
qed simp

lemma withTimeout_settled: "settled (withTimeout message (e # es)) = Some (first_outcome message e)"
  by (cases e) (simp_all add: withTimeout_def settle_def await_steps_settled)

text \<open>A call under \<open>withTimeout\<close> stays pending until its first event and then keeps the outcome of
  that event for good: a confirmation after the timer changes nothing, nor does the timer after a
  confirmation, and once anything has happened no timer is left armed.\<close>

theorem withTimeout_first_event_wins:
  "withTimeout message [] = \<lparr>settled = None, armed = True\<rparr>
   \<and> settled (withTimeout message (e # es)) = Some (first_outcome message e)
   \<and> \<not> armed (withTimeout message (e # es))"
proof -
  let ?w = "await_step message \<lparr>settled = None, armed = True\<rparr> e"
  have "settled ?w = Some (first_outcome message e)" and "\<not> armed ?w"
    by (cases e; simp add: settle_def)+
  then show ?thesis
    by (simp add: withTimeout_def await_steps_settled await_steps_disarmed)
qed

subsection \<open>Structured logging (\<open>json-logger.ts\<close>)\<close>

definition LEVEL_ORDER :: "string list" where
  "LEVEL_ORDER = [''error'', ''warn'', ''log'', ''debug'', ''verbose'']"

text \<open>\<open>Array.prototype.indexOf\<close>\<close>

fun index_of :: "'a list \<Rightarrow> 'a \<Rightarrow> int" where
  "index_of [] y = - 1"
| "index_of (x # xs) y = (if x = y then 0 else let i = index_of xs y in if i = - 1 then - 1 else i + 1)"

definition thresholdIndex :: "string option \<Rightarrow> int" where
  "thresholdIndex log_level =
     (let index = index_of LEVEL_ORDER (nullish log_level ''log'')
      in if index = - 1 then index_of LEVEL_ORDER ''log'' else index)"

text \<open>A logged value: an \<open>Error\<close> with its message and stack, or any other value.\<close>

datatype log_value = LError string "string option" | LValue "json option"

datatype log_method = Log | Error | Warn | Debug | Verbose | Fatal

fun method_level :: "log_method \<Rightarrow> string" where
  "method_level Log = ''log''"
| "method_level Error = ''error''"
| "method_level Warn = ''warn''"
| "method_level Debug = ''debug''"
| "method_level Verbose = ''verbose''"
| "method_level Fatal = ''error''"

datatype stream = Stdout | Stderr

type_synonym log_record = "(string \<times> json option) list"

text \<open>The trailing parameters: the last string is the context, the one before it a stack.\<close>

fun split_param :: "string option \<times> string option \<Rightarrow> log_value \<Rightarrow> string option \<times> string option" where
  "split_param (context, stack) (LError m s) = (context, s)"
| "split_param (context, stack) (LValue (Some (JStr p))) =
     (case context of None \<Rightarrow> (Some p, stack) | Some c \<Rightarrow> (Some p, Some c))"
| "split_param (context, stack) (LValue v) = (context, stack)"

definition split_params :: "log_value list \<Rightarrow> string option \<times> string option" where
  "split_params params = foldl split_param (None, None) params"

text \<open>\<open>Object.assign(record, message)\<close>: the entries of an object, the indexed elements of an array.\<close>

definition assign_all :: "log_record \<Rightarrow> (string \<times> json) list \<Rightarrow> log_record" where
  "assign_all r kvs = foldl (\<lambda>m (k, v). AList.update k (Some v) m) r kvs"

definition log_message :: "log_record \<Rightarrow> log_value \<Rightarrow> log_record" where
  "log_message r message = (case message of
       LError m s \<Rightarrow> AList.update ''stack'' (map_option JStr s) (AList.update ''message'' (Some (JStr m)) r)
     | LValue (Some (JObj kvs)) \<Rightarrow> assign_all r kvs
     | LValue (Some (JArr js)) \<Rightarrow> assign_all r (zip (map digits [0..<length js]) js)
     | LValue v \<Rightarrow> AList.update ''message'' v r)"

text \<open>\<open>emit\<close>: nothing below the threshold, otherwise one record and the stream it goes to.\<close>

definition log_emit ::
  "int \<Rightarrow> string \<Rightarrow> string option \<Rightarrow> log_method \<Rightarrow> log_value \<Rightarrow> log_value list \<Rightarrow> (stream \<times> log_record) option"
where
  "log_emit threshold now store method message params =
     (let level = method_level method in
      if threshold < index_of LEVEL_ORDER level then None
      else
        let (context, stack) = split_params params;
            r0 = [(''time'', Some (JStr now)), (''level'', Some (JStr level))];
            r1 = (if truthy_str (currentCorrelationId store)
                  then AList.update ''correlation_id'' (map_option JStr (currentCorrelationId store)) r0 else r0);
            r2 = (if truthy_str context then AList.update ''context'' (map_option JStr context) r1 else r1);
            r3 = log_message r2 message;
            r4 = (if truthy_str stack \<and> map_of r3 ''stack'' \<in> {None, Some None}
                  then AList.update ''stack'' (map_option JStr stack) r3 else r3)
        in Some (if level = ''error'' then Stderr else Stdout, r4))"

lemma thresholdIndex_range: "0 \<le> thresholdIndex v \<and> thresholdIndex v \<le> 4"
  by (auto simp: thresholdIndex_def LEVEL_ORDER_def Let_def)

lemma thresholdIndex_value:
  "thresholdIndex v = (case v of None \<Rightarrow> 2 | Some l \<Rightarrow>
     if l = ''error'' then 0 else if l = ''warn'' then 1 else if l = ''log'' then 2
     else if l = ''debug'' then 3 else if l = ''verbose'' then 4 else 2)"
  by (cases v) (simp_all add: thresholdIndex_def LEVEL_ORDER_def Let_def)

lemma method_level_index:
  "index_of LEVEL_ORDER (method_level m) =
     (case m of Error \<Rightarrow> 0 | Fatal \<Rightarrow> 0 | Warn \<Rightarrow> 1 | Log \<Rightarrow> 2 | Debug \<Rightarrow> 3 | Verbose \<Rightarrow> 4)"
  by (cases m) (simp_all add: LEVEL_ORDER_def)

subsection \<open>Properties of the correlation id and of logging\<close>

text \<open>No caller-controlled id is propagated unchecked: the id a request runs under is the caller's exactly
  when that is a single value of 1 to 128 word characters, dots, colons or dashes, and the generated
  UUID otherwise; the response header carries that same id. With a well-formed UUID it is always
  plain ASCII of at most 128 characters.\<close>

theorem correlation_id_sanitised:
  assumes "valid_correlation_id uuid"
  shows "\<exists>c. correlation_use uuid hs next = ((CORRELATION_HEADER, c), next (Some c))
           \<and> c = (case hs CORRELATION_HEADER of
                    Some (Single v) \<Rightarrow> if valid_correlation_id v then v else uuid
                  | _ \<Rightarrow> uuid)
           \<and> valid_correlation_id c \<and> js_length c \<le> 128"
proof -
  let ?c = "case hs CORRELATION_HEADER of Some (Single v) \<Rightarrow> if valid_correlation_id v then v else uuid | _ \<Rightarrow> uuid"
  have "valid_correlation_id ?c" using assms by (auto split: option.splits header.splits)
  moreover have "js_length ?c \<le> 128" by (rule valid_correlation_id_ascii(3)) (rule calculation)
  ultimately show ?thesis
    by (intro exI [of _ ?c]) (simp add: correlation_use_def runWithCorrelationId_def Let_def)
qed

theorem correlation_id_sanitised_witness:
  "\<exists>c. correlation_use ''00000000-0000-4000-8000-000000000000'' [CORRELATION_HEADER \<mapsto> Single ''bad value''] id
         = ((CORRELATION_HEADER, c), Some c) \<and> c = ''00000000-0000-4000-8000-000000000000''"
proof -
  have "valid_correlation_id ''00000000-0000-4000-8000-000000000000''" "\<not> valid_correlation_id ''bad value''"
    by code_simp+
  with correlation_id_sanitised [of "''00000000-0000-4000-8000-000000000000''"
      "[CORRELATION_HEADER \<mapsto> Single ''bad value'']" id] show ?thesis by simp
qed

end
