(* ===== verification/OrderConsumer.thy ===== *)
theory OrderConsumer
  imports Processor Common
begin

text \<open>
  \<open>src/src/consumer/order-consumer.ts\<close>: the handler of the work queue. A run of it is its outcome
  (what the client library makes of the returned or rejected promise), the effects in order, and
  the tables afterwards. Log lines are left out. The broker's answer to each publish is the
  argument \<open>publish\<close>; \<open>uuid\<close> is what \<open>randomUUID()\<close> returns.
\<close>

subsection \<open>Outcomes and effects\<close>

datatype outcome = Ack | NackRequeue | Threw exn

datatype effect =
    Published publication
  | Emitted stage_input
  | Counted string
  | Timed

fun effect_publication :: "effect \<Rightarrow> publication list" where
  "effect_publication (Published p) = [p]"
| "effect_publication _ = []"

definition publications :: "effect list \<Rightarrow> publication list" where
  "publications es = concat (map effect_publication es)"

fun effect_count :: "effect \<Rightarrow> string list" where
  "effect_count (Counted c) = [c]"
| "effect_count _ = []"

definition counted :: "effect list \<Rightarrow> string list" where
  "counted es = concat (map effect_count es)"

fun effect_stage :: "effect \<Rightarrow> stage_input list" where
  "effect_stage (Emitted i) = [i]"
| "effect_stage _ = []"

definition stages :: "effect list \<Rightarrow> stage_input list" where
  "stages es = concat (map effect_stage es)"

lemma trace_simps [simp]:
  "publications [] = []" "publications (e # es) = effect_publication e @ publications es"
  "publications (es @ fs) = publications es @ publications fs" "publications (map Emitted is) = []"
  "counted [] = []" "counted (e # es) = effect_count e @ counted es"
  "counted (es @ fs) = counted es @ counted fs" "counted (map Emitted is) = []"
  "stages [] = []" "stages (e # es) = effect_stage e @ stages es"
  "stages (es @ fs) = stages es @ stages fs" "stages (map Emitted is) = is"
  by (simp_all add: publications_def counted_def stages_def o_def)

subsection \<open>Reading the message\<close>

definition parse :: "string \<Rightarrow> json option" where
  "parse raw = json_parse raw"

text \<open>A property of \<open>parsed\<close>, \<open>undefined\<close> when there is nothing truthy to read it from.\<close>

definition parsed_field :: "string \<Rightarrow> string \<Rightarrow> json option" where
  "parsed_field raw k = (case parse raw of
       Some parsed \<Rightarrow> if truthy parsed then field parsed k else None
     | None \<Rightarrow> None)"

definition correlationOf :: "string \<Rightarrow> amqp_message \<Rightarrow> string \<Rightarrow> string" where
  "correlationOf uuid m raw =
     (let fromProps = as_string (msg_correlationId m) in
      if truthy_str fromProps then the fromProps
      else let header = as_string (msg_header m ''x-correlation-id'') in
        if truthy_str header then the header
        else let body = as_string (parsed_field raw ''correlation_id'') in
          if truthy_str body then the body else uuid)"

text \<open>The event a message carries; \<open>None\<close> when it does not parse or has no usable \<open>event_id\<close>.\<close>

definition event_of :: "string \<Rightarrow> string \<Rightarrow> handled_event option" where
  "event_of correlationId raw =
     (let i = as_string (parsed_field raw ''event_id'') in
      if truthy_str i then
        Some \<lparr>he_eventId = the i,
              he_eventType = nullish (as_string (parsed_field raw ''event_type'')) ''unknown'',
              he_correlationId = correlationId,
              he_payload = (let p = parsed_field raw ''payload'' in if is_object p then the p else JObj [])\<rparr>
      else None)"

definition is_continuation :: "amqp_message \<Rightarrow> bool" where
  "is_continuation m \<longleftrightarrow> msg_header m ATTEMPT_HEADER \<noteq> None \<or> msg_redelivered m"

subsection \<open>What is published\<close>

record dead_letter =
  dd_eventId :: "string option"
  dd_correlationId :: string
  dd_reason :: string
  dd_attempts :: int
  dd_payload :: string

definition toDeadLetter :: "dead_letter \<Rightarrow> publication" where
  "toDeadLetter dead =
     \<lparr>pub_exchange = DEAD_LETTER_EXCHANGE, pub_routingKey = DEAD_LETTER_ROUTING_KEY,
      pub_body = JsonBody (JObj [(''event_id'', json_opt (dd_eventId dead)),
                                 (''correlation_id'', JStr (dd_correlationId dead)),
                                 (''reason'', JStr (dd_reason dead)),
                                 (''attempts'', json_int (dd_attempts dead)),
                                 (''payload'', JStr (dd_payload dead))]),
      pub_persistent = True, pub_mandatory = False,
      pub_messageId = dd_eventId dead, pub_correlationId = Some (dd_correlationId dead),
      pub_contentType = None,
      pub_headers = [(''x-correlation-id'', JStr (dd_correlationId dead))]\<rparr>"

definition retry_publication :: "handled_event \<Rightarrow> int \<Rightarrow> publication" where
  "retry_publication event attempts =
     \<lparr>pub_exchange = RETRY_EXCHANGE, pub_routingKey = tier_routingKey (retryTierForAttempt attempts),
      pub_body = JsonBody (JObj [(''event_id'', JStr (he_eventId event)),
                                 (''event_type'', JStr (he_eventType event)),
                                 (''payload'', he_payload event),
                                 (''correlation_id'', JStr (he_correlationId event))]),
      pub_persistent = True, pub_mandatory = False,
      pub_messageId = Some (he_eventId event), pub_correlationId = Some (he_correlationId event),
      pub_contentType = None,
      pub_headers = [(ATTEMPT_HEADER, json_int attempts), (''x-correlation-id'', JStr (he_correlationId event))]\<rparr>"

text \<open>\<open>await this.amqp.publish(...)\<close>, then the rest: a rejected publish ends the handler with its error.\<close>

definition await_publish ::
  "(publication \<Rightarrow> unit result) \<Rightarrow> publication \<Rightarrow> effect list \<Rightarrow> outcome \<times> effect list"
where
  "await_publish publish p rest = (case publish p of
       Inl e \<Rightarrow> (Threw e, [Published p])
     | Inr _ \<Rightarrow> (Ack, Published p # rest))"

definition stage_of :: "telemetry_stage \<Rightarrow> string \<Rightarrow> string option \<Rightarrow> string \<Rightarrow> string \<Rightarrow> int \<Rightarrow> effect" where
  "stage_of st correlationId eventId eventType status attempts =
     Emitted \<lparr>si_stage = st, si_correlationId = correlationId, si_eventId = eventId, si_eventType = eventType,
              si_status = status, si_attempts = attempts\<rparr>"

subsection \<open>The handler\<close>

definition consume_unparseable :: "(publication \<Rightarrow> unit result) \<Rightarrow> string \<Rightarrow> string \<Rightarrow> outcome \<times> effect list" where
  "consume_unparseable publish correlationId raw =
     await_publish publish
       (toDeadLetter \<lparr>dd_eventId = None, dd_correlationId = correlationId,
                      dd_reason = ''unparseable payload or missing event_id'', dd_attempts = 0, dd_payload = raw\<rparr>)
       [stage_of StDead correlationId None ''unknown'' (status_string Dead) 0, Counted ''unparseable'']"

text \<open>The catch block around \<open>processor.process\<close>\<close>

definition consume_error ::
  "(publication \<Rightarrow> unit result) \<Rightarrow> handled_event \<Rightarrow> string \<Rightarrow> exn \<Rightarrow> outcome \<times> effect list"
where
  "consume_error publish event raw error =
     (if isNonRecoverableDbError error then
        await_publish publish
          (toDeadLetter \<lparr>dd_eventId = Some (he_eventId event), dd_correlationId = he_correlationId event,
                         dd_reason = error_message error, dd_attempts = 0, dd_payload = raw\<rparr>)
          [stage_of StDead (he_correlationId event) (Some (he_eventId event)) (he_eventType event) (status_string Dead) 0,
           Counted ''db_error'']
      else (NackRequeue, [Counted ''requeued'']))"

text \<open>From the decision on\<close>

definition settle_decision ::
  "(publication \<Rightarrow> unit result) \<Rightarrow> handled_event \<Rightarrow> string \<Rightarrow> decision \<Rightarrow> outcome \<times> effect list"
where
  "settle_decision publish event raw d =
     (let report = [Counted (decision_kind d), Timed,
                    stage_of StProcessingDecision (he_correlationId event) (Some (he_eventId event))
                      (he_eventType event) (decision_kind d) (decision_attempts d)];
          (oc, es) = (case d of
             DProcessed a \<Rightarrow> (Ack, [])
           | DDuplicate a \<Rightarrow> (Ack, [])
           | DRetry a \<Rightarrow> await_publish publish (retry_publication event a) []
           | DDead a reason \<Rightarrow>
               await_publish publish
                 (toDeadLetter \<lparr>dd_eventId = Some (he_eventId event), dd_correlationId = he_correlationId event,
                                dd_reason = reason, dd_attempts = a, dd_payload = raw\<rparr>)
                 [stage_of StDead (he_correlationId event) (Some (he_eventId event)) (he_eventType event)
                    (status_string Dead) a])
      in (oc, report @ es))"

record worker =
  wk_pg :: pg
  wk_maxAttempts :: jsnum
  wk_handler :: handler
  wk_uuid :: string
  wk_publish :: "publication \<Rightarrow> unit result"

definition consume :: "worker \<Rightarrow> string \<Rightarrow> string \<Rightarrow> amqp_message \<Rightarrow> db \<Rightarrow> outcome \<times> effect list \<times> db" where
  "consume w correlationId raw m s =
     (case event_of correlationId raw of
        None \<Rightarrow> (let (oc, es) = consume_unparseable (wk_publish w) correlationId raw in (oc, es, s))
      | Some event \<Rightarrow>
          let consuming = stage_of StConsuming correlationId (Some (he_eventId event)) (he_eventType event)
                            (status_string Received) 0;
              (r, inputs, s') = processor_process (wk_pg w) (wk_maxAttempts w) (wk_handler w) event (is_continuation m) s;
              (oc, es) = (case r of
                 Inl error \<Rightarrow> consume_error (wk_publish w) event raw error
               | Inr d \<Rightarrow> settle_decision (wk_publish w) event raw d)
          in (oc, consuming # map Emitted inputs @ es, s'))"

definition order_handle :: "worker \<Rightarrow> amqp_message \<Rightarrow> db \<Rightarrow> outcome \<times> effect list \<times> db" where
  "order_handle w m s =
     (let raw = msg_content m; correlationId = correlationOf (wk_uuid w) m raw
      in consume w correlationId raw m s)"

subsection \<open>Lemmas\<close>

lemma publication_simps [simp]:
  "pub_exchange (toDeadLetter d) = DEAD_LETTER_EXCHANGE"
  "pub_routingKey (toDeadLetter d) = DEAD_LETTER_ROUTING_KEY"
  "pub_persistent (toDeadLetter d)"
  "pub_messageId (toDeadLetter d) = dd_eventId d"
  "pub_correlationId (toDeadLetter d) = Some (dd_correlationId d)"
  "pub_exchange (retry_publication event a) = RETRY_EXCHANGE"
  "pub_routingKey (retry_publication event a) = tier_routingKey (retryTierForAttempt a)"
  "pub_persistent (retry_publication event a)"
  "pub_messageId (retry_publication event a) = Some (he_eventId event)"
  "pub_correlationId (retry_publication event a) = Some (he_correlationId event)"
  by (simp_all add: toDeadLetter_def retry_publication_def)

lemma await_publish_cases:
  obtains e where "publish p = Inl e" "await_publish publish p rest = (Threw e, [Published p])"
  | "publish p = Inr ()" "await_publish publish p rest = (Ack, Published p # rest)"
  by (cases "publish p") (simp_all add: await_publish_def)

lemma await_publish_eq:
  "await_publish publish p rest =
     (if publish p = Inr () then (Ack, Published p # rest) else (Threw (projl (publish p)), [Published p]))"
  by (cases "publish p") (simp_all add: await_publish_def)

lemma stage_of_effects [simp]:
  "effect_publication (stage_of st c i t u a) = []"
  "effect_count (stage_of st c i t u a) = []"
  "effect_stage (stage_of st c i t u a) =
     [\<lparr>si_stage = st, si_correlationId = c, si_eventId = i, si_eventType = t, si_status = u, si_attempts = a\<rparr>]"
  by (simp_all add: stage_of_def)

text \<open>The three ways through \<open>consume\<close>.\<close>

lemma consume_cases:
  assumes "consume w correlationId raw m s = (oc, es, s')"
  obtains
    (unparseable) "event_of correlationId raw = None" "s' = s" "consume_unparseable (wk_publish w) correlationId raw = (oc, es)"
  | (error) event error es2 where "event_of correlationId raw = Some event"
      "claimAndHandle (wk_pg w) (wk_maxAttempts w) (wk_handler w) event (is_continuation m) s = (Inl error, s')"
      "consume_error (wk_publish w) event raw error = (oc, es2)"
      "publications es = publications es2" "counted es = counted es2"
  | (decided) event d es2 where "event_of correlationId raw = Some event"
      "claimAndHandle (wk_pg w) (wk_maxAttempts w) (wk_handler w) event (is_continuation m) s = (Inr d, s')"
      "settle_decision (wk_publish w) event raw d = (oc, es2)"
      "publications es = publications es2" "counted es = counted es2"
proof (cases "event_of correlationId raw")
  case None
  with assms show thesis
    by (intro unparseable) (auto simp: consume_def split: prod.splits)
next
  case (Some event)
  obtain r s1 where r: "claimAndHandle (wk_pg w) (wk_maxAttempts w) (wk_handler w) event (is_continuation m) s = (r, s1)"
    by fastforce
  show thesis
  proof (cases r)
    case (Inl e)
    with Some r assms show thesis
      by (intro error [of event e "snd (consume_error (wk_publish w) event raw e)"])
        (auto simp: consume_def processor_process_def Let_def split: prod.splits)
  next
    case (Inr d)
    with Some r assms show thesis
      by (intro decided [of event d "snd (settle_decision (wk_publish w) event raw d)"])
        (auto simp: consume_def processor_process_def Let_def split: prod.splits)
  qed
qed

lemma settle_decision_trace:
  assumes "settle_decision publish event raw d = (oc, es)"
  shows "counted es = [decision_kind d]"
    and "(\<exists>e. oc = Threw e) \<or> oc = Ack"
    and "oc = Ack \<Longrightarrow> p \<in> set (publications es) \<Longrightarrow> publish p = Inr ()"
    and "publications es = (case d of
           DProcessed a \<Rightarrow> [] | DDuplicate a \<Rightarrow> []
         | DRetry a \<Rightarrow> [retry_publication event a]
         | DDead a reason \<Rightarrow>
             [toDeadLetter \<lparr>dd_eventId = Some (he_eventId event), dd_correlationId = he_correlationId event,
                            dd_reason = reason, dd_attempts = a, dd_payload = raw\<rparr>])"
  using assms
  by (auto simp: settle_decision_def Let_def await_publish_eq split: decision.splits if_splits)

lemma consume_error_trace:
  assumes "consume_error publish event raw error = (oc, es)"
  shows "oc = NackRequeue \<longleftrightarrow> \<not> isNonRecoverableDbError error"
    and "oc = NackRequeue \<Longrightarrow> publications es = [] \<and> counted es = [''requeued'']"
    and "oc = Ack \<Longrightarrow> counted es = [''db_error''] \<and>
           (let p = toDeadLetter \<lparr>dd_eventId = Some (he_eventId event), dd_correlationId = he_correlationId event,
                                  dd_reason = error_message error, dd_attempts = 0, dd_payload = raw\<rparr>
            in publications es = [p] \<and> publish p = Inr ())"
    and "\<And>e. oc = Threw e \<Longrightarrow> counted es = []"
  using assms by (auto simp: consume_error_def await_publish_eq Let_def split: if_splits)

lemma consume_unparseable_trace:
  assumes "consume_unparseable publish correlationId raw = (oc, es)"
  shows "oc \<noteq> NackRequeue" and "\<And>e. oc = Threw e \<Longrightarrow> counted es = []"
    and "oc = Ack \<Longrightarrow> counted es = [''unparseable'']"
    and "publications es =
           [toDeadLetter \<lparr>dd_eventId = None, dd_correlationId = correlationId,
              dd_reason = ''unparseable payload or missing event_id'', dd_attempts = 0, dd_payload = raw\<rparr>]"
    and "oc = Ack \<Longrightarrow> p \<in> set (publications es) \<Longrightarrow> publish p = Inr ()"
  using assms by (auto simp: consume_unparseable_def await_publish_eq split: if_splits)

text \<open>Every rejection of the schema is a data exception (class 22), hence non-recoverable.\<close>

definition data_exception :: "string option \<Rightarrow> bool" where
  "data_exception e \<longleftrightarrow> (\<forall>c. e = Some c \<longrightarrow> take 2 c = ''22'' \<and> c \<noteq> ''23505'')"

lemma data_exception_checks [simp]:
  "data_exception None" "data_exception (varchar255_error k)" "data_exception (text_error k)"
  "data_exception (int4_error n)" "data_exception (Some ''22P05'')"
  by (auto simp: data_exception_def varchar255_error_def text_error_def int4_error_def split: if_splits jsnum.splits)

lemma data_exception_opt [simp]: "(\<And>y. data_exception (f y)) \<Longrightarrow> data_exception (opt_error f x)"
  by (cases x) simp_all

lemma data_exception_first [simp]: "(\<forall>e \<in> set es. data_exception e) \<Longrightarrow> data_exception (first_error es)"
  by (induction es rule: first_error.induct) simp_all

lemma data_exception_schema: "data_exception (schema_error st)"
  by (cases st) simp_all

lemma schema_error_non_recoverable:
  assumes "schema_error st = Some c"
  shows "\<exists>e. stmt_error pg st = Some e \<and> isNonRecoverableDbError e"
  using data_exception_schema [of st] assms
  by (simp add: data_exception_def stmt_error_def non_recoverable_sqlstate_def UNIQUE_VIOLATION_def)

lemma consume_outcome:
  assumes "order_handle w m s = (oc, es, s')"
  shows "consume w (correlationOf (wk_uuid w) m (msg_content m)) (msg_content m) m s = (oc, es, s')"
  using assms by (simp add: order_handle_def Let_def)

lemma ledger_step_duplicate:
  assumes "ledger_step maxAttempts handle event isNew isContinuation l = (DDuplicate a, l')"
  shows "lg_status l' = lg_status l" and "lg_duplicates l' = lg_duplicates l + 1"
    and "lg_status l = Received \<Longrightarrow> \<not> isNew"
  using assms
  by (auto simp: ledger_attempt_def Let_def split: event_status.splits if_splits sum.splits)

lemma is_new_fresh: "is_new s k \<Longrightarrow> ledger_at s k = fresh_ledger"
  by (simp add: is_new_def ledger_at_def)

text \<open>A worker whose broker confirms every publish, over a calm database.\<close>

definition calm_worker :: "handler \<Rightarrow> worker" where
  "calm_worker h =
     \<lparr>wk_pg = calm_pg, wk_maxAttempts = Fin 4, wk_handler = h,
      wk_uuid = ''11111111-1111-4111-8111-111111111111'', wk_publish = (\<lambda>_. Inr ())\<rparr>"

definition sample_message :: "string \<Rightarrow> amqp_message" where
  "sample_message raw =
     \<lparr>msg_content = raw, msg_correlationId = Some (JStr ''corr-1''), msg_messageId = None,
      msg_headers = None, msg_redelivered = False\<rparr>"

subsection \<open>Properties\<close>

text \<open>C5. Nothing is acknowledged into thin air: when the work-queue handler acknowledges a message, the
  broker has confirmed a persistent retry or dead-letter message for it, or the event is recorded as
  processed, or it was already recorded and is counted as a duplicate of that record.\<close>

theorem acknowledged_is_accounted:
  assumes "order_handle w m s = (Ack, es, s')"
  shows "(\<exists>p \<in> set (publications es). wk_publish w p = Inr () \<and> pub_persistent p
            \<and> (pub_exchange p = RETRY_EXCHANGE \<or> pub_exchange p = DEAD_LETTER_EXCHANGE))
         \<or> (\<exists>event. event_of (correlationOf (wk_uuid w) m (msg_content m)) (msg_content m) = Some event
              \<and> events s' (he_eventId event) \<noteq> None
              \<and> (lg_status (ledger_at s' (he_eventId event)) = Processed
                 \<or> events s (he_eventId event) \<noteq> None
                   \<and> lg_duplicates (ledger_at s' (he_eventId event)) = lg_duplicates (ledger_at s (he_eventId event)) + 1))"
  using consume_outcome [OF assms]
proof (cases rule: consume_cases)
  case unparseable
  note trace = consume_unparseable_trace [OF unparseable(3)]
  have "wk_publish w p = Inr ()" if "p \<in> set (publications es)" for p
    using trace(5) that by blast
  with trace(4) show ?thesis by auto
next
  case (error event e es2)
  from consume_error_trace(3) [OF error(3)] error(4) show ?thesis
    by (auto simp: Let_def)
next
  case (decided event d es2)
  note step = claim_ledger(4) [OF decided(2) refl]
  note trace = settle_decision_trace [OF decided(3)]
  show ?thesis
  proof (cases d)
    case (DProcessed a)
    from ledger_step_processed(3) [OF step [THEN conjunct1, unfolded DProcessed]] step decided(1) show ?thesis
      by (auto simp: is_new_def simp del: ledger_step.simps)
  next
    case (DDuplicate a)
    note dup = ledger_step_duplicate [OF step [THEN conjunct1, unfolded DDuplicate]]
    have "\<not> is_new s (he_eventId event)"
      using dup(3) is_new_fresh [of s "he_eventId event"] by (auto simp: fresh_ledger_def)
    with dup(2) step decided(1) show ?thesis
      by (simp add: is_new_def del: ledger_step.simps)
  next
    case (DRetry a)
    with trace(3,4) decided(4) show ?thesis by auto
  next
    case (DDead a r)
    with trace(3,4) decided(4) show ?thesis by auto
  qed
qed

text \<open>A requeued message left no trace: when the handler asks for a requeue it has published nothing and
  counted the delivery as requeued, the database error was not one that redelivery would meet again,
  and the tables are as before, or hold a commit whose acknowledgement was lost.\<close>

theorem requeue_publishes_nothing:
  assumes "order_handle w m s = (NackRequeue, es, s')"
  shows "publications es = [] \<and> counted es = [''requeued'']
         \<and> (s' = s \<or> (\<exists>e. pg_fault (wk_pg w) CommitAcknowledged = Some e \<and> isNonRecoverableDbError e = False))"
  using consume_outcome [OF assms]
proof (cases rule: consume_cases)
  case unparseable
  with consume_unparseable_trace(1) show ?thesis by blast
next
  case (error event e es2)
  have "s' = s \<or> pg_fault (wk_pg w) CommitAcknowledged = Some e"
    using error(2) by (auto simp: claimAndHandle_def transaction_def split: sum.splits option.splits prod.splits)
  with consume_error_trace(1,2) [OF error(3)] error(4,5) show ?thesis by auto
next
  case (decided event d es2)
  with settle_decision_trace(2) show ?thesis by blast
qed

text \<open>Whatever the attempt, a delivery is announced with no attempts.\<close>

lemma consuming_reports_zero:
  assumes "i \<in> set (stages (fst (snd (order_handle w m s))))" and "si_stage i = StConsuming"
  shows "si_attempts i = 0"
proof -
  have stage: "\<forall>i \<in> set (decision_stage event d). si_stage i \<noteq> StConsuming" for event d
    by (cases d) (simp_all add: decision_stage_def)
  let ?c = "correlationOf (wk_uuid w) m (msg_content m)"
  show ?thesis
  proof (cases "event_of ?c (msg_content m)")
    case None
    with assms show ?thesis
      by (auto simp: order_handle_def consume_def consume_unparseable_def await_publish_eq Let_def split: if_splits)
  next
    case (Some event)
    obtain r s1 where r: "claimAndHandle (wk_pg w) (wk_maxAttempts w) (wk_handler w) event (is_continuation m) s = (r, s1)"
      by fastforce
    show ?thesis
    proof (cases r)
      case (Inl e)
      with Some r assms show ?thesis
        by (auto simp: order_handle_def consume_def processor_process_def consume_error_def await_publish_eq Let_def
            split: if_splits)
    next
      case (Inr d)
      with Some r assms stage [of event d] show ?thesis
        by (cases d) (auto simp: order_handle_def consume_def processor_process_def settle_decision_def await_publish_eq Let_def
            split: if_splits)
    qed
  qed
qed

text \<open>The correlation id chosen for a message is carried through: every stage event emitted and every
  message published while handling it bears that id.\<close>

theorem correlation_id_carried:
  "set (map (\<lambda>i. Some (si_correlationId i)) (stages (fst (snd (order_handle w m s))))
        @ map pub_correlationId (publications (fst (snd (order_handle w m s)))))
     \<subseteq> {Some (correlationOf (wk_uuid w) m (msg_content m))}"
proof -
  have stage: "set (map si_correlationId (decision_stage event d)) \<subseteq> {he_correlationId event}" for event d
    by (cases d) (simp_all add: decision_stage_def)
  have event: "he_correlationId event = c" if "event_of c raw = Some event" for c raw event
    using that by (auto simp: event_of_def Let_def split: if_splits)
  show ?thesis
  proof (cases "event_of (correlationOf (wk_uuid w) m (msg_content m)) (msg_content m)")
    case None
    then show ?thesis
      by (auto simp: order_handle_def consume_def consume_unparseable_def await_publish_eq Let_def)
  next
    case (Some event)
    obtain r s1 where r: "claimAndHandle (wk_pg w) (wk_maxAttempts w) (wk_handler w) event (is_continuation m) s = (r, s1)"
      by fastforce
    show ?thesis
    proof (cases r)
      case (Inl e)
      with Some r event [OF Some] show ?thesis
        by (auto simp: order_handle_def consume_def processor_process_def consume_error_def await_publish_eq Let_def)
    next
      case (Inr d)
      with Some r event [OF Some] stage [of event d] show ?thesis
        by (cases d) (auto simp: order_handle_def consume_def processor_process_def settle_decision_def await_publish_eq Let_def)
    qed
  qed
qed


subsection \<open>Through the retry queues and back\<close>

context wire
begin

lemma parsed_field_delivered:
  assumes "pub_body p = JsonBody (JObj kvs)" and "representable (JObj kvs)"
  shows "parsed_field (msg_content (deliver p r)) k = map_of kvs k"
  using json_body [OF assms, of r] by (simp add: parsed_field_def parse_def)

lemma correlationOf_delivered:
  assumes "pub_correlationId p = Some c" and "c \<noteq> []"
  shows "correlationOf uuid (deliver p r) raw = c"
  using assms by (simp add: correlationOf_def correlation)

end

text \<open>An event that JSON text can carry, with usable ids: what every producer of the work queue publishes.\<close>

definition event_carried :: "handled_event \<Rightarrow> bool" where
  "event_carried event \<longleftrightarrow>
     he_eventId event \<noteq> [] \<and> he_correlationId event \<noteq> [] \<and> is_object (Some (he_payload event))
     \<and> representable (he_payload event) \<and> representable (JStr (he_eventId event))
     \<and> representable (JStr (he_eventType event)) \<and> representable (JStr (he_correlationId event))"

lemma retry_redelivered:
  assumes wire: "wire deliver" and carried: "event_carried event"
  shows "correlationOf uuid (deliver (retry_publication event a) r) raw = he_correlationId event"
    and "event_of (he_correlationId event) (msg_content (deliver (retry_publication event a) r)) = Some event"
    and "is_continuation (deliver (retry_publication event a) r)"
proof -
  let ?kvs = "[(''event_id'', JStr (he_eventId event)), (''event_type'', JStr (he_eventType event)),
               (''payload'', he_payload event), (''correlation_id'', JStr (he_correlationId event))]"
  have body: "pub_body (retry_publication event a) = JsonBody (JObj ?kvs)"
    by (simp add: retry_publication_def)
  have "representable (JObj ?kvs)"
    using carried by (simp add: event_carried_def representable_obj)
  note field = wire.parsed_field_delivered [OF wire body this]
  show "correlationOf uuid (deliver (retry_publication event a) r) raw = he_correlationId event"
    using carried by (intro wire.correlationOf_delivered [OF wire]) (simp_all add: event_carried_def)
  show "event_of (he_correlationId event) (msg_content (deliver (retry_publication event a) r)) = Some event"
    using carried by (simp add: event_of_def field event_carried_def)
  show "is_continuation (deliver (retry_publication event a) r)"
    by (simp add: is_continuation_def wire.header [OF wire] retry_publication_def)
qed

text \<open>A retry loses nothing on its way through the broker: the message published for a retry is routed to
  exactly the queue of its tier, and when it comes back (requeued or not) the handler reads from it the
  very same event under the same correlation id, and takes it as a continuation, not a duplicate.\<close>

theorem retry_comes_back_as_continuation:
  assumes "wire deliver" and "event_carried event"
  shows "routed_to (rabbit_config demo get) (pub_exchange (retry_publication event a))
           (pub_routingKey (retry_publication event a)) = [tier_queue (retryTierForAttempt a)]
         \<and> correlationOf uuid (deliver (retry_publication event a) r) (msg_content (deliver (retry_publication event a) r))
             = he_correlationId event
         \<and> event_of (he_correlationId event) (msg_content (deliver (retry_publication event a) r)) = Some event
         \<and> is_continuation (deliver (retry_publication event a) r)"
  using retry_redelivered [OF assms] by simp

lemma sample_carried: "event_carried (sample_event (JObj []))"
proof -
  have "join_surrogates ''evt-1'' = ''evt-1''" "join_surrogates ''order.created'' = ''order.created''"
    "join_surrogates ''corr-1'' = ''corr-1''"
    by code_simp+
  then show ?thesis by (simp add: event_carried_def sample_event_def representable_obj)
qed

theorem retry_comes_back_as_continuation_witness:
  "event_of ''corr-1'' (msg_content (amqp_deliver (retry_publication (sample_event (JObj [])) 2) False))
     = Some (sample_event (JObj []))
   \<and> is_continuation (amqp_deliver (retry_publication (sample_event (JObj [])) 2) False)"
  using retry_comes_back_as_continuation [OF wire_amqp_deliver sample_carried, of False "\<lambda>_. None" 2 "[]" False]
  by (simp add: sample_event_def)

text \<open>A delivery of the sample event, for the witnesses.\<close>

definition sample_delivery :: "json \<Rightarrow> amqp_message" where
  "sample_delivery payload = amqp_deliver (retry_publication (sample_event payload) 1) False"

lemma sample_delivered:
  "correlationOf uuid (sample_delivery (JObj [])) raw = ''corr-1''"
  "event_of ''corr-1'' (msg_content (sample_delivery (JObj []))) = Some (sample_event (JObj []))"
  "is_continuation (sample_delivery (JObj []))"
  using retry_redelivered [OF wire_amqp_deliver sample_carried]
  by (simp_all add: sample_delivery_def sample_event_def)

definition broken_pg :: pg where
  "broken_pg = calm_pg\<lparr>pg_fault := \<lambda>_. Some (PlainError ''connection refused'')\<rparr>"

theorem requeue_publishes_nothing_witness:
  "\<exists>es s'. order_handle ((calm_worker NoopOrderHandler_handle)\<lparr>wk_pg := broken_pg\<rparr>) (sample_delivery (JObj [])) empty_db
             = (NackRequeue, es, s')
           \<and> publications es = [] \<and> counted es = [''requeued'']"
proof -
  let ?w = "(calm_worker NoopOrderHandler_handle)\<lparr>wk_pg := broken_pg\<rparr>"
  obtain oc es s' where r: "order_handle ?w (sample_delivery (JObj [])) empty_db = (oc, es, s')"
    using prod_cases3 by blast
  have "stmt_error broken_pg (InsertEvent (claim_values (sample_event (JObj [])))) = Some (PlainError ''connection refused'')"
    using sample_fits [of "JObj []"] by (simp add: stmt_error_def broken_pg_def)
  then have "claimAndHandle broken_pg (Fin 4) NoopOrderHandler_handle (sample_event (JObj [])) True empty_db
               = (Inl (PlainError ''connection refused''), empty_db)"
    by (simp add: claimAndHandle_def transaction_def body_run)
  with r have "oc = NackRequeue"
    by (auto simp: order_handle_def consume_def sample_delivered processor_process_def consume_error_def Let_def
        calm_worker_def)
  with r requeue_publishes_nothing [of ?w "sample_delivery (JObj [])" empty_db es s'] show ?thesis by simp
qed

theorem acknowledged_is_accounted_witness:
  "\<exists>es s'. order_handle (calm_worker NoopOrderHandler_handle) (sample_message ''nope'') empty_db = (Ack, es, s')
     \<and> (\<exists>p \<in> set (publications es). pub_persistent p
          \<and> (pub_exchange p = RETRY_EXCHANGE \<or> pub_exchange p = DEAD_LETTER_EXCHANGE))"
proof -
  let ?w = "calm_worker NoopOrderHandler_handle" and ?m = "sample_message ''nope''"
  obtain oc es s' where r: "order_handle ?w ?m empty_db = (oc, es, s')"
    using prod_cases3 by blast
  have "json_parse ''nope'' = None" by code_simp
  then have none: "event_of c ''nope'' = None" for c
    by (simp add: event_of_def parsed_field_def parse_def)
  with r have "oc = Ack"
    by (auto simp: order_handle_def consume_def sample_message_def consume_unparseable_def await_publish_eq Let_def
        calm_worker_def)
  with r acknowledged_is_accounted [of ?w ?m empty_db es s'] none show ?thesis
    by (auto simp: sample_message_def)
qed


end
