(* ===== verification/DlqConsumer.thy ===== *)
theory DlqConsumer
  imports OrderConsumer
begin

text \<open>
  \<open>src/src/consumer/dlq-consumer.ts\<close>: the handler of the dead-letter queue, which persists a dead
  letter and marks its event dead in one transaction. A run of it is its outcome, how often it
  counted a persisted dead letter, and the tables afterwards.
\<close>

subsection \<open>Reading the dead letter\<close>

definition dlq_parse :: "string \<Rightarrow> json" where
  "dlq_parse raw = nullish (json_parse raw) (JObj [(''payload'', JStr raw)])"

text \<open>\<open>typeof v === 'string' && v ? v : null\<close>\<close>

definition nonempty_string :: "json option \<Rightarrow> string option" where
  "nonempty_string v = (case as_string v of Some s \<Rightarrow> if s \<noteq> [] then Some s else None | None \<Rightarrow> None)"

record dead_fields =
  df_eventId :: "string option"
  df_correlationId :: string
  df_messageId :: "string option"
  df_values :: dlq_values

text \<open>
  The properties read before the \<open>try\<close> block, and the row values read inside it. The only way the
  reads can throw is a body that parses to \<open>null\<close>, on the very first of them.
\<close>

definition dead_fields_of :: "amqp_message \<Rightarrow> dead_fields result" where
  "dead_fields_of m =
     (let raw = msg_content m; dead = dlq_parse raw in
      bind_res (get_prop dead ''event_id'') (\<lambda>event_id.
      bind_res (get_prop dead ''correlation_id'') (\<lambda>correlation_id.
      bind_res (get_prop dead ''reason'') (\<lambda>reason.
      bind_res (get_prop dead ''attempts'') (\<lambda>attempts.
      bind_res (get_prop dead ''payload'') (\<lambda>payload.
        let eventId = nonempty_string event_id;
            correlationId = nullish (nonempty_string correlation_id)
                              (nullish (as_string (msg_correlationId m)) ''unknown'');
            messageId = (case as_string (msg_messageId m) of Some i \<Rightarrow> Some i | None \<Rightarrow> eventId)
        in Inr \<lparr>df_eventId = eventId, df_correlationId = correlationId, df_messageId = messageId,
                df_values = \<lparr>dv_messageId = messageId, dv_correlationId = correlationId, dv_eventId = eventId,
                             dv_reason = nullish (as_string reason) ''unknown'',
                             dv_attempts = nullish (as_number attempts) (Fin 0),
                             dv_payload = nullish (as_string payload) raw\<rparr>\<rparr>))))))"

subsection \<open>The handler\<close>

definition dead_patch :: event_patch where
  "dead_patch = \<lparr>up_status = Some Dead, up_attempts = None, up_failureReason = None\<rparr>"

definition dlq_body :: "pg \<Rightarrow> dead_fields \<Rightarrow> unit tx" where
  "dlq_body pg f =
     bind_tx (insert_dlq_or_ignore pg (df_values f)) (\<lambda>_.
       case df_eventId f of
         Some eventId \<Rightarrow> update_event pg eventId dead_patch
       | None \<Rightarrow> return_tx ())"

definition dlq_handle :: "pg \<Rightarrow> amqp_message \<Rightarrow> db \<Rightarrow> outcome \<times> nat \<times> db" where
  "dlq_handle pg m s =
     (case dead_fields_of m of
        Inl e \<Rightarrow> (Threw e, 0, s)
      | Inr f \<Rightarrow>
          (case transaction pg (dlq_body pg f) s of
             (Inr _, s') \<Rightarrow> (Ack, 1, s')
           | (Inl e, s') \<Rightarrow> (NackRequeue, 0, s')))"

subsection \<open>Lemmas\<close>

definition mark_dead :: "pg \<Rightarrow> string option \<Rightarrow> db \<Rightarrow> db" where
  "mark_dead pg eventId s = (case eventId of
       Some k \<Rightarrow> modify_event k (apply_patch pg dead_patch) s
     | None \<Rightarrow> s)"

definition bury :: "pg \<Rightarrow> dead_fields \<Rightarrow> db \<Rightarrow> db" where
  "bury pg f s = mark_dead pg (df_eventId f) (put_dlq pg (df_values f) s)"

lemma dlq_body_run:
  "dlq_body pg f s =
     (case stmt_error pg (InsertDlq (df_values f)) of
        Some e \<Rightarrow> Inl e
      | None \<Rightarrow>
          (case df_eventId f of
             None \<Rightarrow> Inr ((), bury pg f s)
           | Some k \<Rightarrow>
               (case stmt_error pg (UpdateEvent k dead_patch) of
                  Some e \<Rightarrow> Inl e
                | None \<Rightarrow> Inr ((), bury pg f s))))"
  by (simp add: dlq_body_def insert_dlq_or_ignore_def tx_simps bury_def mark_dead_def update_event_def run_stmt_def
      split: option.splits)

lemma dlq_handle_cases:
  assumes "dlq_handle pg m s = (oc, n, s')"
  obtains (threw) e where "dead_fields_of m = Inl e" "oc = Threw e" "n = 0" "s' = s"
  | (persisted) f where "dead_fields_of m = Inr f" "oc = Ack" "n = 1" "s' = bury pg f s"
  | (requeued) f e where "dead_fields_of m = Inr f" "oc = NackRequeue" "n = 0"
      "s' = s \<or> s' = bury pg f s \<and> pg_fault pg CommitAcknowledged = Some e"
proof (cases "dead_fields_of m")
  case (Inl e)
  with assms show thesis by (intro threw) (auto simp: dlq_handle_def)
next
  case (Inr f)
  have body: "dlq_body pg f s = Inr (u, t) \<Longrightarrow> t = bury pg f s" for u t
    by (auto simp: dlq_body_run split: option.splits)
  obtain r t where r: "transaction pg (dlq_body pg f) s = (r, t)" by fastforce
  show thesis
  proof (cases r)
    case (Inl e)
    with r body have "t = s \<or> t = bury pg f s \<and> pg_fault pg CommitAcknowledged = Some e"
      by (auto simp: transaction_def split: sum.splits option.splits prod.splits)
    with Inl Inr r assms show thesis by (intro requeued [of f]) (auto simp: dlq_handle_def)
  next
    case (Inr u)
    with r body have "t = bury pg f s" by (simp add: transaction_Inr)
    with Inr \<open>dead_fields_of m = Inr f\<close> r assms show thesis
      by (intro persisted [of f]) (auto simp: dlq_handle_def)
  qed
qed

lemma mark_dead_simps [simp]:
  "dlq (mark_dead pg eventId s) = dlq s"
  "events (mark_dead pg eventId s) j =
     (if eventId = Some j then map_option (apply_patch pg dead_patch) (events s j) else events s j)"
  by (auto simp: mark_dead_def split: option.splits)

lemma bury_simps [simp]:
  "dlq (bury pg f s) = dlq (put_dlq pg (df_values f) s)"
  "events (bury pg f s) j =
     (if df_eventId f = Some j then map_option (apply_patch pg dead_patch) (events s j) else events s j)"
  by (simp_all add: bury_def)

lemma put_dlq_rows:
  "dlq (put_dlq pg v s) =
     (if dlq_conflict (dv_messageId v) (dlq s) then dlq s else dlq s @ [new_dlq_row pg v])"
  by (simp add: put_dlq_def)

lemma put_dlq_conflict: "dv_messageId v = Some i \<Longrightarrow> dlq_conflict (Some i) (dlq (put_dlq pg v s))"
  by (auto simp: put_dlq_rows dlq_conflict_def new_dlq_row_def)

lemma dead_fields_values:
  assumes "dead_fields_of m = Inr f"
  shows "dv_messageId (df_values f) = df_messageId f" and "dv_eventId (df_values f) = df_eventId f"
    and "df_eventId f \<noteq> None \<Longrightarrow> df_messageId f \<noteq> None"
  using assms by (auto simp: dead_fields_of_def Let_def bind_res_Inr split: option.splits)

text \<open>Message ids are unique among the dead letters that have one.\<close>

definition dlq_unique :: "dlq_row list \<Rightarrow> bool" where
  "dlq_unique rows \<longleftrightarrow> distinct (filter (\<lambda>i. i \<noteq> None) (map dl_messageId rows))"

lemma dlq_conflict_in: "dlq_conflict i rows \<longleftrightarrow> i \<noteq> None \<and> i \<in> set (map dl_messageId rows)"
  by (auto simp: dlq_conflict_def list_ex_iff)

lemma put_dlq_unique: "dlq_unique (dlq s) \<Longrightarrow> dlq_unique (dlq (put_dlq pg v s))"
  by (cases "dv_messageId v") (auto simp: put_dlq_rows dlq_unique_def dlq_conflict_in new_dlq_row_def)

text \<open>What the worker publishes to the dead-letter exchange is read back field by field.\<close>

definition dead_carried :: "dead_letter \<Rightarrow> bool" where
  "dead_carried d \<longleftrightarrow>
     dd_eventId d \<noteq> Some [] \<and> dd_correlationId d \<noteq> [] \<and> \<bar>dd_attempts d\<bar> < 10 ^ 21
     \<and> representable (json_opt (dd_eventId d)) \<and> representable (JStr (dd_correlationId d))
     \<and> representable (JStr (dd_reason d)) \<and> representable (JStr (dd_payload d))"

definition dead_fields_expected :: "dead_letter \<Rightarrow> dead_fields" where
  "dead_fields_expected d =
     \<lparr>df_eventId = dd_eventId d, df_correlationId = dd_correlationId d, df_messageId = dd_eventId d,
      df_values = \<lparr>dv_messageId = dd_eventId d, dv_correlationId = dd_correlationId d, dv_eventId = dd_eventId d,
                   dv_reason = dd_reason d, dv_attempts = Fin (of_int (dd_attempts d)), dv_payload = dd_payload d\<rparr>\<rparr>"

lemma nonempty_string_simps [simp]:
  "nonempty_string (Some (JStr s)) = (if s \<noteq> [] then Some s else None)"
  "nonempty_string (Some JNull) = None"
  "nonempty_string None = None"
  by (simp_all add: nonempty_string_def)

lemma dead_letter_read_back:
  assumes "wire deliver" and "dead_carried d"
  shows "dead_fields_of (deliver (toDeadLetter d) r) = Inr (dead_fields_expected d)"
proof -
  let ?kvs = "[(''event_id'', json_opt (dd_eventId d)), (''correlation_id'', JStr (dd_correlationId d)),
               (''reason'', JStr (dd_reason d)), (''attempts'', json_int (dd_attempts d)),
               (''payload'', JStr (dd_payload d))]"
  have body: "pub_body (toDeadLetter d) = JsonBody (JObj ?kvs)"
    by (simp add: toDeadLetter_def)
  have "representable (JObj ?kvs)"
    using assms(2) representable_int [of "dd_attempts d"] by (simp add: dead_carried_def representable_obj json_int_def)
  then have parsed: "json_parse (msg_content (deliver (toDeadLetter d) r)) = Some (JObj ?kvs)"
    by (rule wire.json_body [OF assms(1) body])
  have mid: "as_string (msg_messageId (deliver (toDeadLetter d) r)) = dd_eventId d"
    by (cases "dd_eventId d") (simp_all add: wire.message_id [OF assms(1)])
  show ?thesis
    using assms(2)
    by (cases "dd_eventId d")
      (auto simp: dead_fields_of_def dlq_parse_def parsed mid dead_fields_expected_def dead_carried_def json_opt_def
        json_int_def Let_def)
qed

subsection \<open>Properties\<close>

text \<open>C18. The dead letter the worker publishes for a failed event reaches the table as published, in one
  piece: with a server that accepts the row, the handler acknowledges it, the row with its message id
  is there, the event (if there is one) is dead with its attempts kept, and no other event changed.\<close>

theorem dead_letter_recorded:
  assumes "wire deliver" and "dead_carried d" and "dd_eventId d = Some k"
    and "stmt_error pg (InsertDlq (df_values (dead_fields_expected d))) = None"
    and "stmt_error pg (UpdateEvent k dead_patch) = None"
    and "pg_fault pg Commit = None" and "pg_fault pg CommitAcknowledged = None"
  shows "\<exists>s'. dlq_handle pg (deliver (toDeadLetter d) r) s = (Ack, 1, s')
     \<and> has_dead_letter s' k
     \<and> (has_dead_letter s k \<or> dlq s' = dlq s @ [new_dlq_row pg (df_values (dead_fields_expected d))])
     \<and> events s' = (events s)(k := map_option (apply_patch pg dead_patch) (events s k))"
proof -
  let ?f = "dead_fields_expected d" and ?s' = "bury pg (dead_fields_expected d) s"
  have f: "df_eventId ?f = Some k" "dv_messageId (df_values ?f) = Some k"
    using assms(3) by (simp_all add: dead_fields_expected_def)
  have "dlq_handle pg (deliver (toDeadLetter d) r) s = (Ack, 1, ?s')"
    using assms(4-7) f by (simp add: dlq_handle_def dead_letter_read_back [OF assms(1,2)] transaction_def dlq_body_run)
  moreover have "has_dead_letter ?s' k"
    using put_dlq_conflict [OF f(2), of pg s] by (simp add: dlq_conflict_Some [symmetric])
  moreover have "has_dead_letter s k \<or> dlq ?s' = dlq s @ [new_dlq_row pg (df_values ?f)]"
    using f(2) by (simp add: put_dlq_rows dlq_conflict_Some)
  moreover have "events ?s' = (events s)(k := map_option (apply_patch pg dead_patch) (events s k))"
    using f(1) by (auto simp: fun_eq_iff)
  ultimately show ?thesis by blast
qed

definition sample_dead :: dead_letter where
  "sample_dead = \<lparr>dd_eventId = Some ''evt-1'', dd_correlationId = ''corr-1'', dd_reason = ''boom'', dd_attempts = 4,
                  dd_payload = ''{}''\<rparr>"

lemma sample_dead_carried: "dead_carried sample_dead"
proof -
  have "join_surrogates ''evt-1'' = ''evt-1''" "join_surrogates ''corr-1'' = ''corr-1''"
    "join_surrogates ''boom'' = ''boom''" "join_surrogates ''{}'' = ''{}''"
    by code_simp+
  then show ?thesis by (simp add: dead_carried_def sample_dead_def json_opt_def)
qed

lemma sample_dead_fits:
  "stmt_error calm_pg (InsertDlq (df_values (dead_fields_expected sample_dead))) = None"
  "stmt_error calm_pg (UpdateEvent ''evt-1'' dead_patch) = None"
proof -
  have "varchar255_error ''evt-1'' = None" "varchar255_error ''corr-1'' = None"
    by (rule varchar255_fits; simp)+
  moreover have "int4_error (Fin 4) = None"
    using int4_error_int [of 4] by simp
  ultimately show "stmt_error calm_pg (InsertDlq (df_values (dead_fields_expected sample_dead))) = None"
    "stmt_error calm_pg (UpdateEvent ''evt-1'' dead_patch) = None"
    by (simp_all add: stmt_error_None sample_dead_def dead_fields_expected_def first_error_None text_error_def dead_patch_def)
qed

theorem dead_letter_recorded_witness:
  "\<exists>s'. dlq_handle calm_pg (amqp_deliver (toDeadLetter sample_dead) False) empty_db = (Ack, 1, s')
     \<and> has_dead_letter s' ''evt-1''"
  using dead_letter_recorded [OF wire_amqp_deliver sample_dead_carried _ sample_dead_fits, of False empty_db]
  by (auto simp: sample_dead_def)

text \<open>C11. A redelivered dead letter changes nothing further: once a dead letter with an id has been
  persisted, handling it again (whatever the server answers) leaves the dead letters as they are and
  every event's status, attempts and reason too.\<close>

theorem dead_letter_redelivery_idempotent:
  assumes "dlq_handle pg m s = (Ack, n, s1)" and "dead_fields_of m = Inr f" and "df_messageId f \<noteq> None"
    and "dlq_handle pg' m s1 = (oc, n', s2)"
  shows "dlq s2 = dlq s1 \<and> map_option ledger_of (events s2 j) = map_option ledger_of (events s1 j)"
proof -
  have s1: "s1 = bury pg f s"
    using assms(1,2) by (cases rule: dlq_handle_cases) auto
  obtain i where i: "dv_messageId (df_values f) = Some i"
    using dead_fields_values(1) [OF assms(2)] assms(3) by auto
  have again: "dlq (bury pg' f s1) = dlq s1"
    using put_dlq_conflict [OF i, of pg s] i by (simp add: s1 put_dlq_rows [of pg'] )
  have same: "map_option ledger_of (events (bury pg' f s1) j) = map_option ledger_of (events s1 j)"
    by (cases "events s j") (auto simp: s1 ledger_of_def dead_patch_def)
  from assms(4) show ?thesis
  proof (cases rule: dlq_handle_cases)
    case (threw e)
    with assms(2) show ?thesis by simp
  next
    case (persisted f')
    with assms(2) again same show ?thesis by simp
  next
    case (requeued f' e)
    with assms(2) again same show ?thesis by auto
  qed
qed

theorem dead_letter_redelivery_idempotent_witness:
  "\<exists>s1 s2. dlq_handle calm_pg (amqp_deliver (toDeadLetter sample_dead) False) empty_db = (Ack, 1, s1)
     \<and> dlq_handle calm_pg (amqp_deliver (toDeadLetter sample_dead) False) s1 = (Ack, 1, s2) \<and> dlq s2 = dlq s1"
proof -
  let ?m = "amqp_deliver (toDeadLetter sample_dead) False"
  have f: "dead_fields_of ?m = Inr (dead_fields_expected sample_dead)"
    by (rule dead_letter_read_back [OF wire_amqp_deliver sample_dead_carried])
  have run: "\<exists>s'. dlq_handle calm_pg ?m s = (Ack, 1, s')" for s
    using sample_dead_fits
    by (simp add: dlq_handle_def f transaction_def dlq_body_run) (simp add: dead_fields_expected_def sample_dead_def)
  then obtain s1 s2 where "dlq_handle calm_pg ?m empty_db = (Ack, 1, s1)" "dlq_handle calm_pg ?m s1 = (Ack, 1, s2)"
    by blast
  with dead_letter_redelivery_idempotent [OF this(1) f _ this(2)] show ?thesis
    by (auto simp: dead_fields_expected_def sample_dead_def)
qed

text \<open>All or nothing, for any message and any server: an acknowledged dead letter is counted once, its
  row is in the table and its event, if recorded, is dead; otherwise nothing is counted and the tables
  are as before, or the whole of it committed and only the acknowledgement was lost. The message ids
  of the stored dead letters stay unique either way.\<close>

theorem dead_letter_atomic:
  assumes "dlq_unique (dlq s)"
  shows "case dlq_handle pg m s of
      (Ack, n, s') \<Rightarrow> n = 1 \<and> dlq_unique (dlq s') \<and> (\<exists>f. dead_fields_of m = Inr f \<and> s' = bury pg f s)
    | (oc, n, s') \<Rightarrow> n = 0 \<and> dlq_unique (dlq s')
        \<and> (s' = s \<or> (\<exists>f e. dead_fields_of m = Inr f \<and> s' = bury pg f s \<and> pg_fault pg CommitAcknowledged = Some e))"
proof -
  obtain oc n s' where r: "dlq_handle pg m s = (oc, n, s')" using prod_cases3 by blast
  then show ?thesis
    by (cases rule: dlq_handle_cases) (use assms r put_dlq_unique in \<open>auto simp: assms\<close>)
qed

theorem dead_letter_atomic_witness:
  "snd (snd (dlq_handle broken_pg (amqp_deliver (toDeadLetter sample_dead) False) empty_db)) = empty_db
   \<and> dlq_unique (dlq empty_db)"
proof -
  let ?m = "amqp_deliver (toDeadLetter sample_dead) False"
  have f: "dead_fields_of ?m = Inr (dead_fields_expected sample_dead)"
    by (rule dead_letter_read_back [OF wire_amqp_deliver sample_dead_carried])
  have "stmt_error broken_pg (InsertDlq (df_values (dead_fields_expected sample_dead))) \<noteq> None"
    by (simp add: stmt_error_def broken_pg_def split: option.splits)
  then have "\<exists>e. stmt_error broken_pg (InsertDlq (df_values (dead_fields_expected sample_dead))) = Some e"
    by blast
  then have "dlq_handle broken_pg ?m empty_db = (NackRequeue, 0, empty_db)"
    by (auto simp: dlq_handle_def f transaction_def dlq_body_run)
  with dead_letter_atomic [of empty_db ?m broken_pg] show ?thesis
    by (simp add: dlq_unique_def)
qed

text \<open>A dead letter whose body is the JSON text \<open>null\<close> escapes the handler: the property reads come
  before its \<open>try\<close> block, so it rejects with a \<open>TypeError\<close> instead of asking for a requeue, whatever the
  server, and nothing is persisted.\<close>

theorem null_dead_letter_throws:
  assumes "json_parse (msg_content m) = Some JNull"
  shows "\<exists>msg. dlq_handle pg m s = (Threw (TypeError msg), 0, s)"
  using assms by (simp add: dlq_handle_def dead_fields_of_def dlq_parse_def)

theorem null_dead_letter_throws_witness:
  "\<exists>msg. dlq_handle calm_pg (sample_message ''null'') empty_db = (Threw (TypeError msg), 0, empty_db)"
proof -
  have "json_parse ''null'' = Some JNull" by code_simp
  then show ?thesis
    by (intro null_dead_letter_throws) (simp add: sample_message_def)
qed

text \<open>Poison spins in the dead-letter queue: a dead letter the \<open>dlq_messages\<close> columns cannot hold, such
  as that of an event whose id carries a NUL (which the worker dead-letters because \<open>events\<close> cannot hold
  it either), is requeued by every delivery, whatever the server and the tables, and never persisted.\<close>

theorem unstorable_dead_letter_always_requeued:
  assumes "wire deliver" and "dead_carried d" and "dd_eventId d = Some k" and "CHR 0x00 \<in> set k"
  shows "dlq_handle pg (deliver (toDeadLetter d) r) s = (NackRequeue, 0, s)"
proof -
  have err: "schema_error (InsertDlq (df_values (dead_fields_expected d))) = Some ''22021''"
    using assms(3,4) by (simp add: dead_fields_expected_def varchar255_error_def)
  from schema_error_non_recoverable [OF this, of pg] obtain e where
    "stmt_error pg (InsertDlq (df_values (dead_fields_expected d))) = Some e" by blast
  then show ?thesis
    by (simp add: dlq_handle_def dead_letter_read_back [OF assms(1,2)] transaction_def dlq_body_run)
qed

theorem unstorable_dead_letter_always_requeued_witness:
  "dlq_handle calm_pg (amqp_deliver (toDeadLetter (sample_dead\<lparr>dd_eventId := Some [CHR ''a'', CHR 0x00]\<rparr>)) True) empty_db
     = (NackRequeue, 0, empty_db)"
proof (rule unstorable_dead_letter_always_requeued [OF wire_amqp_deliver, where k = "[CHR ''a'', CHR 0x00]"])
  have "join_surrogates [CHR ''a'', CHR 0x00] = [CHR ''a'', CHR 0x00]" by code_simp
  then show "dead_carried (sample_dead\<lparr>dd_eventId := Some [CHR ''a'', CHR 0x00]\<rparr>)"
    using sample_dead_carried by (simp add: dead_carried_def json_opt_def)
qed simp_all

end
