(* ===== verification/Replay.thy ===== *)
theory Replay
  imports DlqConsumer "HOL-Library.Multiset"
begin

text \<open>
  The operator's side of the dead letters, \<open>src/src/dlq/\<close>: the key guard (\<open>admin-key.guard.ts\<close>), the
  replay service (\<open>dlq-replay.service.ts\<close>) and the listing and discarding of \<open>dlq.controller.ts\<close>.
  What becomes of a publish is the argument \<open>confirm\<close>: it throws at once, or the promise and the
  timer of \<open>withTimeout\<close> deliver a first event and possibly later ones.
\<close>

subsection \<open>The key guard (\<open>admin-key.guard.ts\<close>)\<close>

definition AdminKeyGuard_new :: "(string \<Rightarrow> string option) \<Rightarrow> string result" where
  "AdminKeyGuard_new get =
     (let secret = get ''ADMIN_API_KEY''
      in if \<not> truthy_str secret then Inl (PlainError ''ADMIN_API_KEY must be set to a non-empty value'')
         else Inr (the secret))"

definition AdminKeyGuard_canActivate :: "string \<Rightarrow> headers \<Rightarrow> bool result" where
  "AdminKeyGuard_canActivate secret hs =
     (let provided = headerValue hs ''x-admin-key'' in
      if \<not> truthy_str provided then Inl (HttpException 401 ''missing admin key'')
      else bind_res (timingSafeEqualString (the provided) secret)
             (\<lambda>equal. if \<not> equal then Inl (HttpException 403 ''invalid admin key'') else Inr True))"

subsection \<open>The replay service (\<open>dlq-replay.service.ts\<close>)\<close>

definition REPLAYABLE_STATES :: "event_status list" where
  "REPLAYABLE_STATES = [Dead, Failed, Received]"

record prepared_replay =
  pr_eventId :: string
  pr_correlationId :: string
  pr_body :: json

definition parseStoredMessage :: "dlq_row \<Rightarrow> json result" where
  "parseStoredMessage dead =
     (case (if truthy_str (dl_payload dead) then json_parse (the (dl_payload dead)) else None) of
        Some (JObj kvs) \<Rightarrow> Inr (JObj kvs)
      | _ \<Rightarrow> Inl (HttpException 409 ''stored payload is not the original message and cannot be replayed''))"

definition reset_patch :: event_patch where
  "reset_patch = \<lparr>up_status = Some Received, up_attempts = Some 0, up_failureReason = Some None\<rparr>"

text \<open>\<open>now\<close> is \<open>new Date()\<close>.\<close>

definition prepare :: "pg \<Rightarrow> int \<Rightarrow> string \<Rightarrow> prepared_replay tx" where
  "prepare pg now i =
     bind_tx (lock_dlq pg i) (\<lambda>found.
       case found of
         None \<Rightarrow> throw_tx (HttpException 404 ''dead letter not found'')
       | Some dead \<Rightarrow>
           if \<not> truthy_str (dl_eventId dead) then
             throw_tx (HttpException 409 ''dead letter has no event id and cannot be replayed'')
           else
             case parseStoredMessage dead of
               Inl e \<Rightarrow> throw_tx e
             | Inr body \<Rightarrow>
                 let k = the (dl_eventId dead) in
                 bind_tx (lock_event pg k) (\<lambda>event.
                   if event \<noteq> None \<and> ev_status (the event) \<notin> set REPLAYABLE_STATES then
                     throw_tx (HttpException 409
                       (''event is '' @ status_string (ev_status (the event)) @ '' and cannot be replayed''))
                   else
                     bind_tx (if event \<noteq> None then update_event pg k reset_patch else return_tx ()) (\<lambda>_.
                     bind_tx (update_dlq_replayed pg i now) (\<lambda>_.
                       return_tx \<lparr>pr_eventId = k, pr_correlationId = dl_correlationId dead, pr_body = body\<rparr>))))"

definition replay_publication :: "prepared_replay \<Rightarrow> publication" where
  "replay_publication p =
     \<lparr>pub_exchange = WEBHOOK_EXCHANGE, pub_routingKey = ORDER_RECEIVED_ROUTING_KEY,
      pub_body = JsonBody (pr_body p), pub_persistent = True, pub_mandatory = False,
      pub_messageId = Some (pr_eventId p), pub_correlationId = Some (pr_correlationId p),
      pub_contentType = Some ''application/json'',
      pub_headers = [(ATTEMPT_HEADER, json_int 0), (''x-correlation-id'', JStr (pr_correlationId p))]\<rparr>"

type_synonym confirm = "publication \<Rightarrow> exn + (unit await_event \<times> unit await_event list)"

text \<open>\<open>await withTimeout(amqp.publish(...), ms, message)\<close>\<close>

definition await_confirm :: "confirm \<Rightarrow> publication \<Rightarrow> unit result" where
  "await_confirm confirm p = (case confirm p of
       Inl e \<Rightarrow> Inl e
     | Inr (first, later) \<Rightarrow> the (settled (withTimeout ''publisher confirm timed out'' (first # later))))"

record receipt =
  rc_event_id :: string
  rc_correlation_id :: string
  rc_status :: string

definition replay :: "pg \<Rightarrow> int \<Rightarrow> confirm \<Rightarrow> string \<Rightarrow> db \<Rightarrow> receipt result \<times> publication list \<times> db" where
  "replay pg now confirm i s =
     (case transaction pg (prepare pg now i) s of
        (Inl e, s') \<Rightarrow> (Inl e, [], s')
      | (Inr prepared, s') \<Rightarrow>
          let p = replay_publication prepared in
          case await_confirm confirm p of
            Inl e \<Rightarrow> (Inl (HttpException 503 ''replay could not be published''), [p], s')
          | Inr _ \<Rightarrow>
              (Inr \<lparr>rc_event_id = pr_eventId prepared, rc_correlation_id = pr_correlationId prepared,
                    rc_status = ''replayed''\<rparr>, [p], s'))"

subsection \<open>Listing and discarding (\<open>dlq.controller.ts\<close>)\<close>

text \<open>
  \<open>order\<close> is the order the server returns the rows in, newest first; the sources leave ties to it.
\<close>

record dlq_page =
  pg_data :: "dlq_row list"
  pg_page :: nat
  pg_limit :: nat
  pg_total :: nat

definition dlq_list :: "(dlq_row list \<Rightarrow> dlq_row list) \<Rightarrow> nat \<Rightarrow> nat \<Rightarrow> db \<Rightarrow> dlq_page" where
  "dlq_list order page limit s =
     \<lparr>pg_data = take limit (drop ((page - 1) * limit) (order (dlq s))), pg_page = page, pg_limit = limit,
      pg_total = length (dlq s)\<rparr>"

definition discard :: "pg \<Rightarrow> string \<Rightarrow> db \<Rightarrow> unit result \<times> db" where
  "discard pg i s =
     (case transaction pg (delete_dlq pg i) s of
        (Inl e, s') \<Rightarrow> (Inl e, s')
      | (Inr affected, s') \<Rightarrow>
          if affected = 0 then (Inl (HttpException 404 ''unknown dead letter''), s') else (Inr (), s'))"

subsection \<open>Lemmas\<close>

lemma await_confirm_first:
  "await_confirm confirm p = (case confirm p of
       Inl e \<Rightarrow> Inl e
     | Inr (first, later) \<Rightarrow> first_outcome ''publisher confirm timed out'' first)"
  by (simp add: await_confirm_def withTimeout_settled split: sum.splits prod.splits)

definition stamp_replayed :: "string \<Rightarrow> int \<Rightarrow> dlq_row list \<Rightarrow> dlq_row list" where
  "stamp_replayed i t rows = map (\<lambda>r. if dl_id r = i then r\<lparr>dl_replayedAt := Some t\<rparr> else r) rows"

text \<open>
  What a replay owes the operator, written without the code's patch: the event is as good as new,
  the dead letter stamped, and the message goes to the work queue as a continuation with the stored
  body under the stored correlation id.
\<close>

definition renewed :: "pg \<Rightarrow> event_row \<Rightarrow> event_row" where
  "renewed pg row =
     row\<lparr>ev_status := Received, ev_attempts := 0, ev_failureReason := None, ev_updatedAt := pg_now pg\<rparr>"

lemma apply_reset [simp]: "apply_patch pg reset_patch = renewed pg"
  by (rule ext) (simp add: apply_patch_def reset_patch_def renewed_def)

lemma renewed_simps [simp]:
  "ev_status (renewed pg row) = Received" "ev_attempts (renewed pg row) = 0"
  "ev_failureReason (renewed pg row) = None" "ev_eventId (renewed pg row) = ev_eventId row"
  "ev_payload (renewed pg row) = ev_payload row" "ev_duplicateCount (renewed pg row) = ev_duplicateCount row"
  by (simp_all add: renewed_def)

definition redriven :: "pg \<Rightarrow> int \<Rightarrow> string \<Rightarrow> string \<Rightarrow> db \<Rightarrow> db" where
  "redriven pg now i k s = (modify_event k (renewed pg) s)\<lparr>dlq := stamp_replayed i now (dlq s)\<rparr>"

definition redrive_of :: "prepared_replay \<Rightarrow> publication \<Rightarrow> bool" where
  "redrive_of p q \<longleftrightarrow>
     pub_exchange q = WEBHOOK_EXCHANGE \<and> pub_routingKey q = ORDER_RECEIVED_ROUTING_KEY \<and> pub_persistent q
     \<and> pub_body q = JsonBody (pr_body p) \<and> pub_correlationId q = Some (pr_correlationId p)
     \<and> pub_messageId q = Some (pr_eventId p) \<and> is_continuation (amqp_deliver q False)"

lemma redrive_of_publication [simp]: "redrive_of p (replay_publication p)"
  by (simp add: redrive_of_def replay_publication_def is_continuation_def amqp.header)

lemma redriven_simps [simp]:
  "events (redriven pg now i k s) j =
     (if j = k then map_option (renewed pg) (events s k) else events s j)"
  "dlq (redriven pg now i k s) = stamp_replayed i now (dlq s)"
  by (simp_all add: redriven_def)

definition dead_row :: "string \<Rightarrow> db \<Rightarrow> dlq_row option" where
  "dead_row i s = List.find (\<lambda>r. dl_id r = i) (dlq s)"

text \<open>What the replay of row \<open>i\<close> would send, when the stored row and its event allow one.\<close>

definition replayable :: "string \<Rightarrow> db \<Rightarrow> prepared_replay option" where
  "replayable i s =
     (case dead_row i s of
        None \<Rightarrow> None
      | Some dead \<Rightarrow>
          if truthy_str (dl_eventId dead)
             \<and> (events s (the (dl_eventId dead)) = None
                \<or> ev_status (the (events s (the (dl_eventId dead)))) \<in> set REPLAYABLE_STATES)
          then (case parseStoredMessage dead of
                  Inl e \<Rightarrow> None
                | Inr body \<Rightarrow> Some \<lparr>pr_eventId = the (dl_eventId dead), pr_correlationId = dl_correlationId dead,
                                     pr_body = body\<rparr>)
          else None)"

text \<open>Why it is refused otherwise.\<close>

definition refusal :: "string \<Rightarrow> db \<Rightarrow> nat" where
  "refusal i s = (if dead_row i s = None then 404 else 409)"

lemma modify_event_None: "events s k = None \<Longrightarrow> modify_event k f s = s"
  by (simp add: modify_event_def fun_upd_idem)

lemma prepare_Inr:
  assumes "prepare pg now i s = Inr (p, s')"
  shows "replayable i s = Some p" and "s' = redriven pg now i (pr_eventId p) s"
  using assms
  by (auto simp: prepare_def lock_dlq_def lock_event_def update_event_def update_dlq_replayed_def tx_simps
      replayable_def redriven_def dead_row_def stamp_replayed_def Let_def modify_event_None
      split: option.splits sum.splits if_splits)

text \<open>A server without failures accepts the statements on a key without NUL.\<close>

lemma replay_statements:
  assumes "pg_fault pg = (\<lambda>_. None)"
  shows "stmt_error pg (LockDlq i) = None" and "stmt_error pg (UpdateDlq i t) = None"
    and "stmt_error pg (DeleteDlq i) = None"
    and "CHR 0x00 \<notin> set k \<Longrightarrow> stmt_error pg (LockEvent k) = None"
    and "CHR 0x00 \<notin> set k \<Longrightarrow> stmt_error pg (UpdateEvent k reset_patch) = None"
  using assms int4_error_int [of 0]
  by (simp_all add: stmt_error_None text_error_def reset_patch_def first_error_None)

lemma prepare_refused:
  assumes "replayable i s = None" and "pg_fault pg = (\<lambda>_. None)"
    and "\<And>dead k. dead_row i s = Some dead \<Longrightarrow> dl_eventId dead = Some k \<Longrightarrow> CHR 0x00 \<notin> set k"
  shows "\<exists>msg. prepare pg now i s = Inl (HttpException (refusal i s) msg)"
proof (cases "dead_row i s")
  case None
  with assms(1,2) show ?thesis
    by (simp add: prepare_def lock_dlq_def tx_simps refusal_def dead_row_def replay_statements)
next
  case (Some dead)
  have "stmt_error pg (LockEvent (the (dl_eventId dead))) = None" if "truthy_str (dl_eventId dead)"
    using that assms(3) [OF Some] replay_statements(4) [OF assms(2)] by (elim truthy_strE) auto
  with Some assms(1,2) show ?thesis
    by (auto simp: replay_statements prepare_def lock_dlq_def lock_event_def tx_simps refusal_def dead_row_def replayable_def
        parseStoredMessage_def Let_def split: option.splits sum.splits if_splits json.splits)
qed

lemma prepare_ready:
  assumes "replayable i s = Some p" and "pg_fault pg = (\<lambda>_. None)" and "CHR 0x00 \<notin> set (pr_eventId p)"
  shows "prepare pg now i s = Inr (p, redriven pg now i (pr_eventId p) s)"
proof -
  obtain dead where dead: "dead_row i s = Some dead" "truthy_str (dl_eventId dead)" "pr_eventId p = the (dl_eventId dead)"
    using assms(1) by (auto simp: replayable_def split: option.splits if_splits sum.splits)
  note ok = replay_statements [OF assms(2)] replay_statements(4,5) [OF assms(2,3)]
  show ?thesis
    using assms(1) dead ok(1,2,6,7)
    by (auto simp: prepare_def lock_dlq_def lock_event_def update_event_def update_dlq_replayed_def tx_simps
        replayable_def redriven_def dead_row_def stamp_replayed_def Let_def modify_event_None
        split: option.splits sum.splits if_splits)
qed

lemma find_stamp:
  "List.find (\<lambda>r. dl_id r = i) (stamp_replayed i now rows)
     = map_option (\<lambda>r. r\<lparr>dl_replayedAt := Some now\<rparr>) (List.find (\<lambda>r. dl_id r = i) rows)"
  by (induction rows) (simp_all add: stamp_replayed_def)

lemma replay_cases:
  assumes "replay pg now confirm i s = (r, ps, s')"
  obtains (untouched) e where "r = Inl e" "ps = []"
      "s' = s \<or> (\<exists>p. replayable i s = Some p \<and> s' = redriven pg now i (pr_eventId p) s
                   \<and> pg_fault pg CommitAcknowledged = Some e)"
  | (attempted) p where "replayable i s = Some p" "ps = [replay_publication p]"
      "s' = redriven pg now i (pr_eventId p) s"
      "r = (case await_confirm confirm (replay_publication p) of
              Inl e \<Rightarrow> Inl (HttpException 503 ''replay could not be published'')
            | Inr _ \<Rightarrow> Inr \<lparr>rc_event_id = pr_eventId p, rc_correlation_id = pr_correlationId p,
                             rc_status = ''replayed''\<rparr>)"
proof -
  obtain t s1 where t: "transaction pg (prepare pg now i) s = (t, s1)" by fastforce
  show thesis
  proof (cases t)
    case (Inl e)
    have "s1 = s \<or> (\<exists>p. replayable i s = Some p \<and> s1 = redriven pg now i (pr_eventId p) s
                   \<and> pg_fault pg CommitAcknowledged = Some e)"
      using t Inl prepare_Inr [of pg now i s]
      by (auto simp: transaction_def split: sum.splits option.splits prod.splits)
    with Inl t assms show thesis
      by (intro untouched [of e]) (auto simp: replay_def)
  next
    case (Inr p)
    with t have "prepare pg now i s = Inr (p, s1)" by (simp add: transaction_Inr)
    from prepare_Inr [OF this] Inr t assms show thesis
      by (intro attempted [of p]) (auto simp: replay_def Let_def split: sum.splits)
  qed
qed

subsection \<open>Properties\<close>

text \<open>C9. A replay is all or nothing and never silent: it publishes at most one message, to the work
  exchange, and only for a row that may be replayed; whenever it publishes, the event was reset (fresh
  budget, no failure) and the row stamped beforehand; and it answers 202 exactly when the broker's
  confirmation came first. A refused replay leaves everything as it was.\<close>

theorem replay_resets_then_publishes:
  "(case replay pg now confirm i s of
      (Inr receipt, ps, s') \<Rightarrow>
        (\<exists>p q. replayable i s = Some p \<and> ps = [q] \<and> redrive_of p q \<and> s' = redriven pg now i (pr_eventId p) s
             \<and> await_confirm confirm q = Inr () \<and> rc_event_id receipt = pr_eventId p)
    | (Inl e, ps, s') \<Rightarrow>
        ps = [] \<and> (s' = s \<or> pg_fault pg CommitAcknowledged = Some e)
        \<or> (\<exists>p q f. replayable i s = Some p \<and> ps = [q] \<and> redrive_of p q \<and> s' = redriven pg now i (pr_eventId p) s
             \<and> await_confirm confirm q = Inl f
             \<and> e = HttpException 503 ''replay could not be published''))"
proof -
  obtain r ps s' where r: "replay pg now confirm i s = (r, ps, s')" using prod_cases3 by blast
  then show ?thesis
  proof (cases rule: replay_cases)
    case (untouched e)
    with r show ?thesis by auto
  next
    case (attempted p)
    with r show ?thesis by (auto split: sum.splits)
  qed
qed

lemma replayable_again:
  assumes "replayable i s = Some q"
  shows "replayable i (redriven pg now i (pr_eventId q) s) = Some q"
proof -
  have "dead_row i (redriven pg now i (pr_eventId q) s)
          = map_option (\<lambda>r. r\<lparr>dl_replayedAt := Some now\<rparr>) (dead_row i s)"
    by (simp add: dead_row_def find_stamp)
  with assms show ?thesis
    by (auto simp: replayable_def parseStoredMessage_def reset_patch_def REPLAYABLE_STATES_def
        split: option.splits sum.splits if_splits)
qed

lemma replay_ready:
  assumes "replayable i s = Some p" and "pg_fault pg = (\<lambda>_. None)" and "CHR 0x00 \<notin> set (pr_eventId p)"
    and "await_confirm confirm (replay_publication p) = Inr ()"
  shows "replay pg now confirm i s
     = (Inr \<lparr>rc_event_id = pr_eventId p, rc_correlation_id = pr_correlationId p, rc_status = ''replayed''\<rparr>,
        [replay_publication p], redriven pg now i (pr_eventId p) s)"
  using prepare_ready [OF assms(1-3), of now] assms(2,4) by (simp add: replay_def transaction_def Let_def)

text \<open>A replay whose publish failed can simply be retried: after a 503 the event is still replayable,
  and calling replay again with a broker that confirms publishes the same message and succeeds.\<close>

theorem failed_replay_is_retryable:
  assumes "replay pg now confirm i s = (Inl (HttpException 503 msg), [replay_publication p], s')"
    and "replayable i s = Some p" and "CHR 0x00 \<notin> set (pr_eventId p)" and "pg_fault pg' = (\<lambda>_. None)"
    and "await_confirm confirm' (replay_publication p) = Inr ()"
  shows "\<exists>receipt s2. replay pg' now' confirm' i s' = (Inr receipt, [replay_publication p], s2)
           \<and> lg_status (ledger_at s2 (pr_eventId p)) = Received"
  using assms(1)
proof (cases rule: replay_cases)
  case (untouched e)
  then show ?thesis by simp
next
  case (attempted q)
  with assms(2) have "s' = redriven pg now i (pr_eventId p) s" by simp
  with replayable_again [OF assms(2), of pg now] have "replayable i s' = Some p" by simp
  from replay_ready [OF this assms(4,3,5), of now'] show ?thesis
    by (auto simp: ledger_at_def fresh_ledger_def reset_patch_def split: option.splits)
qed

definition sample_dead_row :: dlq_row where
  "sample_dead_row =
     \<lparr>dl_id = ''d1'', dl_messageId = Some ''evt-1'', dl_correlationId = ''corr-1'', dl_eventId = Some ''evt-1'',
      dl_reason = ''boom'', dl_attempts = 4, dl_payload = Some ''{}'', dl_createdAt = 7, dl_replayedAt = None\<rparr>"

definition sample_dead_db :: db where
  "sample_dead_db =
     \<lparr>events = [''evt-1'' \<mapsto> (new_event calm_pg (claim_values (sample_event (JObj []))))
                  \<lparr>ev_status := Dead, ev_attempts := 4, ev_failureReason := Some ''boom''\<rparr>],
      dlq = [sample_dead_row]\<rparr>"

definition sample_prepared :: prepared_replay where
  "sample_prepared = \<lparr>pr_eventId = ''evt-1'', pr_correlationId = ''corr-1'', pr_body = JObj []\<rparr>"

lemma sample_replayable: "replayable ''d1'' sample_dead_db = Some sample_prepared"
proof -
  have "json_parse ''{}'' = Some (JObj [])" by code_simp
  then show ?thesis
    by (simp add: replayable_def dead_row_def sample_dead_db_def sample_dead_row_def REPLAYABLE_STATES_def
        parseStoredMessage_def sample_prepared_def)
qed

theorem failed_replay_is_retryable_witness:
  "\<exists>s' receipt s2. replay calm_pg 9 (\<lambda>_. Inr (TimerFires, [])) ''d1'' sample_dead_db
      = (Inl (HttpException 503 ''replay could not be published''), [replay_publication sample_prepared], s')
     \<and> replay calm_pg 10 (\<lambda>_. Inr (Resolves (), [])) ''d1'' s' = (Inr receipt, [replay_publication sample_prepared], s2)
     \<and> lg_status (ledger_at s2 ''evt-1'') = Received"
proof -
  have id: "CHR 0x00 \<notin> set (pr_eventId sample_prepared)" by (simp add: sample_prepared_def)
  have "prepare calm_pg 9 ''d1'' sample_dead_db = Inr (sample_prepared, redriven calm_pg 9 ''d1'' (pr_eventId sample_prepared) sample_dead_db)"
    by (rule prepare_ready [OF sample_replayable _ id]) simp
  then have "replay calm_pg 9 (\<lambda>_. Inr (TimerFires, [])) ''d1'' sample_dead_db
      = (Inl (HttpException 503 ''replay could not be published''), [replay_publication sample_prepared],
         redriven calm_pg 9 ''d1'' (pr_eventId sample_prepared) sample_dead_db)"
    by (simp add: replay_def transaction_def Let_def await_confirm_first)
  with failed_replay_is_retryable [OF this sample_replayable id, of calm_pg "\<lambda>_. Inr (Resolves (), [])" 10] show ?thesis
    by (auto simp: await_confirm_first sample_prepared_def)
qed

text \<open>What may not be replayed is refused with the right status and nothing happens: 404 for an unknown
  row, 409 for one without event id, with a payload that is not a JSON object, or whose event is being
  processed or already processed; no message is published and the tables are as before.\<close>

theorem replay_refusals:
  assumes "replayable i s = None" and "pg_fault pg = (\<lambda>_. None)"
    and "\<And>dead k. dead_row i s = Some dead \<Longrightarrow> dl_eventId dead = Some k \<Longrightarrow> CHR 0x00 \<notin> set k"
  shows "\<exists>msg. replay pg now confirm i s = (Inl (HttpException (refusal i s) msg), [], s)"
proof -
  obtain msg where "prepare pg now i s = Inl (HttpException (refusal i s) msg)"
    using prepare_refused [OF assms(1,2), of now] assms(3) by blast
  then show ?thesis by (simp add: replay_def transaction_def)
qed

theorem replay_refusals_witness:
  "\<exists>msg. replay calm_pg 9 (\<lambda>_. Inr (Resolves (), [])) ''d1''
     (sample_dead_db\<lparr>events := (events sample_dead_db)(''evt-1'' := map_option (ev_status_update (\<lambda>_. Processed)) (events sample_dead_db ''evt-1''))\<rparr>)
   = (Inl (HttpException 409 msg), [],
     (sample_dead_db\<lparr>events := (events sample_dead_db)(''evt-1'' := map_option (ev_status_update (\<lambda>_. Processed)) (events sample_dead_db ''evt-1''))\<rparr>))"
    (is "\<exists>msg. replay _ _ _ _ ?s = _")
proof -
  have row: "dead_row ''d1'' ?s = Some sample_dead_row"
    by (simp add: dead_row_def sample_dead_db_def sample_dead_row_def)
  then have none: "replayable ''d1'' ?s = None"
    by (simp add: replayable_def sample_dead_row_def sample_dead_db_def REPLAYABLE_STATES_def)
  have "\<exists>msg. replay calm_pg 9 (\<lambda>_. Inr (Resolves (), [])) ''d1'' ?s = (Inl (HttpException (refusal ''d1'' ?s) msg), [], ?s)"
    by (rule replay_refusals [OF none]) (auto simp: row, simp add: sample_dead_row_def)
  then show ?thesis by (simp add: refusal_def row)
qed

text \<open>The admin boundary: a guard exists only for a non-empty key, and lets a request in exactly when it
  carries a non-empty \<open>x-admin-key\<close> with the digest of that key; without one it answers 401, with a
  wrong one 403. The key itself always opens it.\<close>

theorem admin_boundary:
  "AdminKeyGuard_new get =
     (if truthy_str (get ''ADMIN_API_KEY'') then Inr (the (get ''ADMIN_API_KEY''))
      else Inl (PlainError ''ADMIN_API_KEY must be set to a non-empty value''))
   \<and> AdminKeyGuard_canActivate secret hs =
     (if \<not> truthy_str (headerValue hs ''x-admin-key'') then Inl (HttpException 401 ''missing admin key'')
      else if sha256 (utf8_bytes (the (headerValue hs ''x-admin-key''))) = sha256 (utf8_bytes secret) then Inr True
      else Inl (HttpException 403 ''invalid admin key''))
   \<and> (secret = [] \<or> AdminKeyGuard_canActivate secret (hs(''x-admin-key'' \<mapsto> Single secret)) = Inr True)"
  by (auto simp: AdminKeyGuard_new_def AdminKeyGuard_canActivate_def Let_def headerValue_def)

lemma pages_append:
  assumes "0 < limit"
  shows "concat (map (\<lambda>page. take limit (drop ((page - 1) * limit) xs)) [1..<Suc n]) = take (n * limit) xs"
proof (induction n)
  case (Suc n)
  have "[1..<Suc (Suc n)] = [1..<Suc n] @ [Suc n]" by simp
  moreover have "take (Suc n * limit) xs = take (n * limit) xs @ take limit (drop (n * limit) xs)"
    using take_add [of "n * limit" limit xs] by (simp add: add.commute)
  ultimately show ?case using Suc by simp
qed simp

text \<open>Paging loses and repeats nothing: as long as the server returns the rows in one order, the pages
  of any size, put together, are exactly that order, and each page reports the whole count.\<close>

theorem pages_partition_dead_letters:
  assumes "0 < limit" and "length (dlq s) \<le> n * limit" and "mset (order (dlq s)) = mset (dlq s)"
  shows "concat (map (\<lambda>page. pg_data (dlq_list order page limit s)) [1..<Suc n]) = order (dlq s)
         \<and> map (\<lambda>page. pg_total (dlq_list order page limit s)) [1..<Suc n] = replicate n (length (dlq s))"
proof -
  have "length (order (dlq s)) \<le> n * limit" using assms(2,3) by (metis size_mset)
  then show ?thesis
    using pages_append [OF assms(1), of "order (dlq s)" n]
    by (simp add: dlq_list_def map_replicate_const del: upt_Suc)
qed

theorem pages_partition_dead_letters_witness:
  "concat (map (\<lambda>page. pg_data (dlq_list (sort_key (\<lambda>r. - dl_createdAt r)) page 20 sample_dead_db)) [1..<2]) = [sample_dead_row]"
  using pages_partition_dead_letters [of 20 sample_dead_db 1 "sort_key (\<lambda>r. - dl_createdAt r)"]
  by (simp add: sample_dead_db_def numeral_2_eq_2 del: upt_Suc)

text \<open>Discarding removes the dead letter and nothing else: 204 exactly when a row had that id, no row of
  that id is left, the other rows and every event stay as they are.\<close>

theorem discard_removes_only_the_row:
  assumes "pg_fault pg = (\<lambda>_. None)"
  shows "discard pg i s =
     (if i \<in> dl_id ` set (dlq s) then Inr () else Inl (HttpException 404 ''unknown dead letter''),
      s\<lparr>dlq := filter (\<lambda>r. dl_id r \<noteq> i) (dlq s)\<rparr>)"
proof -
  have "filter (\<lambda>r. dl_id r = i) (dlq s) = [] \<longleftrightarrow> i \<notin> dl_id ` set (dlq s)"
    by (auto simp: filter_empty_conv)
  with assms show ?thesis
    by (simp add: discard_def transaction_def delete_dlq_def run_stmt_def replay_statements)
qed

theorem discard_removes_only_the_row_witness:
  "discard calm_pg ''d1'' sample_dead_db = (Inr (), sample_dead_db\<lparr>dlq := []\<rparr>)"
  using discard_removes_only_the_row [of calm_pg "''d1''" sample_dead_db]
  by (simp add: sample_dead_db_def sample_dead_row_def)

end
