(* ===== verification/Webhooks.thy ===== *)
theory Webhooks
  imports OrderConsumer
begin

text \<open>
  The HTTP boundary, \<open>src/src/webhooks/\<close>: the signature guard (\<open>webhook-signature.guard.ts\<close>), the
  body's rules (\<open>dto/order-webhook.dto.ts\<close>), the controller (\<open>webhooks.controller.ts\<close>), the publisher
  (\<open>rabbit-event-publisher.ts\<close>) behind its interface (\<open>event-publisher.ts\<close>), and the poison endpoint
  of the demo (\<open>demo-poison.controller.ts\<close>).
\<close>

subsection \<open>The signature guard (\<open>webhook-signature.guard.ts\<close>)\<close>

record signature_guard =
  sg_secret :: string
  sg_toleranceSeconds :: jsnum

definition WebhookSignatureGuard_new :: "(string \<Rightarrow> string option) \<Rightarrow> signature_guard result" where
  "WebhookSignatureGuard_new get =
     (let secret = get ''WEBHOOK_HMAC_SECRET'' in
      if \<not> truthy_str secret then Inl (PlainError ''WEBHOOK_HMAC_SECRET must be set to a non-empty value'')
      else Inr \<lparr>sg_secret = the secret,
                sg_toleranceSeconds = config_number get ''WEBHOOK_TIMESTAMP_TOLERANCE_SECONDS'' 300\<rparr>)"

text \<open>\<open>now\<close> is \<open>Date.now()\<close>, in milliseconds.\<close>

definition withinTolerance :: "jsnum \<Rightarrow> int \<Rightarrow> string \<Rightarrow> bool" where
  "withinTolerance toleranceSeconds now timestamp =
     (case js_number_str timestamp of
        Fin ts \<Rightarrow> js_le (Fin \<bar>of_int (now div 1000) - ts\<bar>) toleranceSeconds
      | _ \<Rightarrow> False)"

text \<open>Hex HMAC-SHA256 of \<open>timestamp.rawBody\<close>.\<close>

definition expected_signature :: "string \<Rightarrow> string \<Rightarrow> string \<Rightarrow> string" where
  "expected_signature secret timestamp rawBody =
     digest_hex (hmac_sha256 (utf8_bytes secret) (utf8_bytes (timestamp @ ''.'' @ rawBody)))"

definition signature_canActivate :: "signature_guard \<Rightarrow> int \<Rightarrow> headers \<Rightarrow> string option \<Rightarrow> bool result" where
  "signature_canActivate g now hs rawBody =
     (let signature = headerValue hs ''x-signature''; timestamp = headerValue hs ''x-timestamp'' in
      if \<not> truthy_str signature \<or> \<not> truthy_str timestamp then
        Inl (HttpException 401 ''missing signature or timestamp'')
      else if \<not> withinTolerance (sg_toleranceSeconds g) now (the timestamp) then
        Inl (HttpException 401 ''stale or invalid timestamp'')
      else
        let expected = expected_signature (sg_secret g) (the timestamp) (nullish rawBody [])
        in bind_res (timingSafeEqualString (the signature) expected)
             (\<lambda>equal. if \<not> equal then Inl (HttpException 401 ''invalid signature'') else Inr True))"

subsection \<open>The body (\<open>dto/order-webhook.dto.ts\<close>)\<close>

datatype constraint = IsString | IsNotEmpty | MaxLength nat | IsObject

definition MAX_ID_LENGTH :: nat where "MAX_ID_LENGTH = 255"

definition OrderWebhookDto :: "(string \<times> constraint list) list" where
  "OrderWebhookDto =
     [(''event_id'', [IsString, IsNotEmpty, MaxLength MAX_ID_LENGTH]),
      (''event_type'', [IsString, IsNotEmpty, MaxLength MAX_ID_LENGTH]),
      (''payload'', [IsObject])]"

text \<open>
  The validation pipe of \<open>app.module.ts\<close> (\<open>whitelist\<close>, \<open>forbidNonWhitelisted\<close>) is the parameter
  \<open>accept\<close>. Its laws are what the decorators document: a body is accepted when it is an object of
  the declared properties only and every property satisfies its decorators.
\<close>

fun satisfies :: "constraint \<Rightarrow> json option \<Rightarrow> bool" where
  "satisfies IsString v = (as_string v \<noteq> None)"
| "satisfies IsNotEmpty v = (v \<noteq> None \<and> v \<noteq> Some JNull \<and> v \<noteq> Some (JStr []))"
| "satisfies (MaxLength n) v = (case as_string v of Some s \<Rightarrow> code_points s \<le> n | None \<Rightarrow> False)"
| "satisfies IsObject v = (case v of Some (JObj kvs) \<Rightarrow> True | _ \<Rightarrow> False)"

definition meets :: "(string \<times> constraint list) list \<Rightarrow> json \<Rightarrow> bool" where
  "meets rules body = (case body of
       JObj kvs \<Rightarrow> list_all (\<lambda>(k, v). k \<in> fst ` set rules) kvs
                   \<and> list_all (\<lambda>(k, cs). list_all (\<lambda>c. satisfies c (map_of kvs k)) cs) rules
     | _ \<Rightarrow> False)"

locale validation_pipe =
  fixes accept :: "(string \<times> constraint list) list \<Rightarrow> json \<Rightarrow> bool"
  assumes accepts: "accept rules body \<longleftrightarrow> meets rules body"

interpretation class_validator: validation_pipe meets
  by unfold_locales simp

record order_webhook =
  ow_event_id :: string
  ow_event_type :: string
  ow_payload :: json

text \<open>The instance the pipe hands to the controller.\<close>

definition order_dto :: "json \<Rightarrow> order_webhook option" where
  "order_dto body = (case body of
       JObj kvs \<Rightarrow>
         (case (as_string (map_of kvs ''event_id''), as_string (map_of kvs ''event_type''), map_of kvs ''payload'') of
            (Some i, Some t, Some p) \<Rightarrow> Some \<lparr>ow_event_id = i, ow_event_type = t, ow_payload = p\<rparr>
          | _ \<Rightarrow> None)
     | _ \<Rightarrow> None)"

context validation_pipe
begin

lemma accepted_order:
  assumes "accept OrderWebhookDto body"
  obtains kvs i t pkvs where "body = JObj kvs" and "fst ` set kvs \<subseteq> {''event_id'', ''event_type'', ''payload''}"
    and "map_of kvs ''event_id'' = Some (JStr i)" and "i \<noteq> []" and "code_points i \<le> 255"
    and "map_of kvs ''event_type'' = Some (JStr t)" and "t \<noteq> []" and "code_points t \<le> 255"
    and "map_of kvs ''payload'' = Some (JObj pkvs)"
    and "order_dto body = Some \<lparr>ow_event_id = i, ow_event_type = t, ow_payload = JObj pkvs\<rparr>"
proof -
  from assms have m: "meets OrderWebhookDto body" by (simp add: accepts)
  then obtain kvs where body: "body = JObj kvs" by (cases body) (simp_all add: meets_def)
  have sat: "list_all (\<lambda>(k, cs). list_all (\<lambda>c. satisfies c (map_of kvs k)) cs) OrderWebhookDto"
    using m by (simp add: meets_def body)
  have keys: "fst ` set kvs \<subseteq> {''event_id'', ''event_type'', ''payload''}"
    using m by (auto simp: meets_def body list_all_iff OrderWebhookDto_def)
  from sat obtain i t where i: "map_of kvs ''event_id'' = Some (JStr i)" "i \<noteq> []" "code_points i \<le> 255"
    and t: "map_of kvs ''event_type'' = Some (JStr t)" "t \<noteq> []" "code_points t \<le> 255"
    by (auto simp: OrderWebhookDto_def MAX_ID_LENGTH_def split: option.splits)
  from sat obtain pkvs where p: "map_of kvs ''payload'' = Some (JObj pkvs)"
    by (auto simp: OrderWebhookDto_def split: option.splits json.splits)
  show thesis
    by (rule that [OF body keys i t p]) (simp add: order_dto_def body i(1) t(1) p)
qed

end

subsection \<open>The publisher (\<open>rabbit-event-publisher.ts\<close>)\<close>

definition PUBLISH_TOKEN_HEADER :: string where
  "PUBLISH_TOKEN_HEADER = ''x-publish-token''"

definition order_publication :: "order_webhook \<Rightarrow> string \<Rightarrow> string \<Rightarrow> publication" where
  "order_publication event correlationId publishToken =
     \<lparr>pub_exchange = WEBHOOK_EXCHANGE, pub_routingKey = ORDER_RECEIVED_ROUTING_KEY,
      pub_body = JsonBody (JObj [(''event_id'', JStr (ow_event_id event)), (''event_type'', JStr (ow_event_type event)),
                                 (''payload'', ow_payload event), (''correlation_id'', JStr correlationId)]),
      pub_persistent = True, pub_mandatory = True,
      pub_messageId = Some (ow_event_id event), pub_correlationId = Some correlationId,
      pub_contentType = Some ''application/json'',
      pub_headers = [(''x-correlation-id'', JStr correlationId), (PUBLISH_TOKEN_HEADER, JStr publishToken)]\<rparr>"

text \<open>
  \<open>pendingReturns\<close> maps the token of a publish in flight to its \<open>returned\<close> variable. The events of
  the channel interleave: publishes start, messages are returned, publishes settle.
\<close>

type_synonym pending_returns = "string \<rightharpoonup> bool"

datatype channel_event =
    Starts string
  | Returns "json option"
  | Settles string "unit result"

text \<open>The \<open>return\<close> listener of \<open>onApplicationBootstrap\<close>: the argument is the token header.\<close>

definition on_return :: "json option \<Rightarrow> pending_returns \<Rightarrow> pending_returns" where
  "on_return token pending = (case as_string token of
       Some t \<Rightarrow> (case pending t of Some _ \<Rightarrow> pending(t \<mapsto> True) | None \<Rightarrow> pending)
     | None \<Rightarrow> pending)"

text \<open>The end of \<open>publish\<close>: \<open>finally\<close> drops the token, then an await that failed rethrows.\<close>

definition on_settle :: "string \<Rightarrow> unit result \<Rightarrow> pending_returns \<Rightarrow> unit result \<times> pending_returns" where
  "on_settle t r pending =
     ((case r of
         Inl e \<Rightarrow> Inl e
       | Inr _ \<Rightarrow> if pending t = Some True then Inl (PlainError ''message returned as unroutable'') else Inr ()),
      pending(t := None))"

fun channel_step :: "channel_event \<Rightarrow> pending_returns \<Rightarrow> (string \<times> unit result) list \<times> pending_returns" where
  "channel_step (Starts t) pending = ([], pending(t \<mapsto> False))"
| "channel_step (Returns h) pending = ([], on_return h pending)"
| "channel_step (Settles t r) pending = (let (res, pending') = on_settle t r pending in ([(t, res)], pending'))"

fun channel_run :: "channel_event list \<Rightarrow> pending_returns \<Rightarrow> (string \<times> unit result) list \<times> pending_returns" where
  "channel_run [] pending = ([], pending)"
| "channel_run (e # es) pending =
     (let (o1, p1) = channel_step e pending; (o2, p2) = channel_run es p1 in (o1 @ o2, p2))"

text \<open>One call of \<open>publish\<close>: what the channel does while it waits, and how its await settles.\<close>

record channel =
  ch_token :: string
  ch_meanwhile :: "channel_event list"
  ch_confirm :: "publication \<Rightarrow> exn + (unit await_event \<times> unit await_event list)"

definition confirm_result :: "channel \<Rightarrow> publication \<Rightarrow> unit result" where
  "confirm_result ch p = (case ch_confirm ch p of
       Inl e \<Rightarrow> Inl e
     | Inr (first, later) \<Rightarrow> the (settled (withTimeout ''publisher confirm timed out'' (first # later))))"

definition RabbitEventPublisher_publish ::
  "channel \<Rightarrow> order_webhook \<Rightarrow> string \<Rightarrow> pending_returns \<Rightarrow> unit result \<times> pending_returns"
where
  "RabbitEventPublisher_publish ch event correlationId pending =
     (let t = ch_token ch;
          p = order_publication event correlationId t;
          pending1 = snd (channel_run (ch_meanwhile ch) (pending(t \<mapsto> False)))
      in on_settle t (confirm_result ch p) pending1)"

subsection \<open>The controller (\<open>webhooks.controller.ts\<close>)\<close>

text \<open>\<open>publish\<close> is the injected \<open>EventPublisher\<close>; \<open>uuid\<close> is what \<open>randomUUID()\<close> returns.\<close>

definition ingestOrder ::
  "(order_webhook \<Rightarrow> string \<Rightarrow> unit result) \<Rightarrow> string \<Rightarrow> order_webhook \<Rightarrow> (string \<times> string) result in_context"
where
  "ingestOrder publish uuid event store =
     (let correlationId = nullish (currentCorrelationId store) uuid in
      case publish event correlationId of
        Inl error \<Rightarrow> Inl (HttpException 503 ''event could not be accepted'')
      | Inr _ \<Rightarrow> Inr (correlationId, ''accepted''))"

text \<open>
  \<open>POST /webhooks/orders\<close> as declared: the throttler (a parameter), the signature guard, the
  validation pipe, then the controller. The status of the response.
\<close>

definition post_orders ::
  "(unit \<Rightarrow> unit result) \<Rightarrow> signature_guard \<Rightarrow> ((string \<times> constraint list) list \<Rightarrow> json \<Rightarrow> bool) \<Rightarrow>
     (order_webhook \<Rightarrow> string \<Rightarrow> unit result) \<Rightarrow> string \<Rightarrow> int \<Rightarrow> headers \<Rightarrow> string \<Rightarrow> json \<Rightarrow> (string \<times> string) result in_context"
where
  "post_orders throttle g accept publish uuid now hs rawBody body store =
     bind_res (throttle ()) (\<lambda>_.
     bind_res (signature_canActivate g now hs (Some rawBody)) (\<lambda>_.
       if \<not> accept OrderWebhookDto body then Inl (HttpException 400 ''Bad Request'')
       else case order_dto body of
              None \<Rightarrow> Inl (HttpException 400 ''Bad Request'')
            | Some event \<Rightarrow> ingestOrder publish uuid event store))"

subsection \<open>The poison endpoint (\<open>demo-poison.controller.ts\<close>)\<close>

definition POISON_BYTES :: string where
  "POISON_BYTES = CHR ''{'' # CHR 0x22 # ''event_id'' @ CHR 0x22 # '': <not even json''"

definition poison_publication :: "string \<Rightarrow> publication" where
  "poison_publication correlationId =
     \<lparr>pub_exchange = WEBHOOK_EXCHANGE, pub_routingKey = ORDER_RECEIVED_ROUTING_KEY, pub_body = RawBody POISON_BYTES,
      pub_persistent = True, pub_mandatory = False, pub_messageId = None, pub_correlationId = Some correlationId,
      pub_contentType = Some ''application/json'', pub_headers = [(''x-correlation-id'', JStr correlationId)]\<rparr>"

definition poison_inject ::
  "bool \<Rightarrow> (publication \<Rightarrow> unit result) \<Rightarrow> string \<Rightarrow> ((string \<times> string) result \<times> publication list) in_context"
where
  "poison_inject demo publish uuid store =
     (if \<not> demo then (Inl (HttpException 404 ''Not Found''), [])
      else let correlationId = nullish (currentCorrelationId store) uuid;
               p = poison_publication correlationId
           in (bind_res (publish p) (\<lambda>_. Inr (correlationId, ''injected'')), [p]))"

subsection \<open>Lemmas\<close>

lemma signature_canActivate_iff:
  "signature_canActivate g now hs rawBody = Inr b \<longleftrightarrow>
     b \<and> truthy_str (headerValue hs ''x-signature'') \<and> truthy_str (headerValue hs ''x-timestamp'')
     \<and> withinTolerance (sg_toleranceSeconds g) now (the (headerValue hs ''x-timestamp''))
     \<and> sha256 (utf8_bytes (the (headerValue hs ''x-signature'')))
       = sha256 (utf8_bytes (expected_signature (sg_secret g) (the (headerValue hs ''x-timestamp'')) (nullish rawBody [])))"
  by (auto simp: signature_canActivate_def Let_def)

text \<open>The returns of a token in flight are noted, however the channel interleaves.\<close>

definition own_events :: "string \<Rightarrow> channel_event list \<Rightarrow> bool" where
  "own_events t es \<longleftrightarrow> list_ex (\<lambda>e. case e of Starts u \<Rightarrow> u = t | Settles u r \<Rightarrow> u = t | Returns h \<Rightarrow> False) es"

lemma on_return_at:
  "on_return h pending t = (if h = Some (JStr t) \<and> pending t \<noteq> None then Some True else pending t)"
  by (cases "as_string h") (auto simp: on_return_def split: option.splits)

lemma channel_run_flag:
  assumes "\<not> own_events t es" and "pending t = Some b"
  shows "snd (channel_run es pending) t = Some (b \<or> Returns (Some (JStr t)) \<in> set es)"
  using assms
proof (induction es arbitrary: pending b)
  case (Cons e es)
  have rest: "\<not> own_events t es" using Cons.prems(1) by (simp add: own_events_def)
  have "snd (channel_step e pending) t = Some (b \<or> e = Returns (Some (JStr t)))"
    using Cons.prems by (cases e) (auto simp: own_events_def on_return_at on_settle_def)
  from Cons.IH [where pending = "snd (channel_step e pending)", OF rest this] show ?case
    by (auto simp: case_prod_beta)
qed simp

lemma channel_step_local:
  "p j = q j \<Longrightarrow> snd (channel_step e p) j = snd (channel_step e q) j"
  by (cases e) (simp_all add: on_return_at on_settle_def)

lemma channel_run_local: "p j = q j \<Longrightarrow> snd (channel_run es p) j = snd (channel_run es q) j"
proof (induction es arbitrary: p q)
  case (Cons e es)
  have "snd (channel_step e p) j = snd (channel_step e q) j"
    by (rule channel_step_local) (rule Cons.prems)
  then have "snd (channel_run es (snd (channel_step e p))) j = snd (channel_run es (snd (channel_step e q))) j"
    by (rule Cons.IH)
  then show ?case by (simp add: case_prod_beta)
qed simp

lemma publish_result:
  assumes "\<not> own_events (ch_token ch) (ch_meanwhile ch)"
  shows "fst (RabbitEventPublisher_publish ch event c pending) =
     (case confirm_result ch (order_publication event c (ch_token ch)) of
        Inl e \<Rightarrow> Inl e
      | Inr _ \<Rightarrow> if Returns (Some (JStr (ch_token ch))) \<in> set (ch_meanwhile ch)
                 then Inl (PlainError ''message returned as unroutable'') else Inr ())"
  using channel_run_flag [OF assms, of "pending(ch_token ch \<mapsto> False)" False]
  by (auto simp: RabbitEventPublisher_publish_def on_settle_def Let_def split: sum.splits)

subsection \<open>The publisher's contract\<close>

text \<open>What the controller relies on: a publish resolves exactly when the message is queued.\<close>

locale event_publisher =
  fixes publish :: "'env \<Rightarrow> order_webhook \<Rightarrow> string \<Rightarrow> unit result"
    and queued :: "'env \<Rightarrow> order_webhook \<Rightarrow> string \<Rightarrow> bool"
  assumes publish_iff: "publish env event c = Inr () \<longleftrightarrow> queued env event c"
begin

lemma ingest_iff:
  "ingestOrder (publish env) uuid event store =
     (if queued env event (nullish store uuid) then Inr (nullish store uuid, ''accepted'')
      else Inl (HttpException 503 ''event could not be accepted''))"
  using publish_iff [of env event "nullish store uuid"]
  by (auto simp: ingestOrder_def currentCorrelationId_def Let_def split: sum.splits)

lemma post_accepted:
  assumes "post_orders throttle g accept (publish env) uuid now hs rawBody body store = Inr answer"
  shows "signature_canActivate g now hs (Some rawBody) = Inr True" and "accept OrderWebhookDto body"
    and "\<exists>event. order_dto body = Some event \<and> queued env event (nullish store uuid)"
    and "answer = (nullish store uuid, ''accepted'')"
  using assms
  by (auto simp: post_orders_def bind_res_Inr ingest_iff signature_canActivate_iff split: if_splits option.splits)

end

definition rabbit_publish :: "channel \<times> pending_returns \<Rightarrow> order_webhook \<Rightarrow> string \<Rightarrow> unit result" where
  "rabbit_publish env event c = fst (RabbitEventPublisher_publish (fst env) event c (snd env))"

definition rabbit_queued :: "channel \<times> pending_returns \<Rightarrow> order_webhook \<Rightarrow> string \<Rightarrow> bool" where
  "rabbit_queued env event c \<longleftrightarrow>
     confirm_result (fst env) (order_publication event c (ch_token (fst env))) = Inr ()
     \<and> snd (channel_run (ch_meanwhile (fst env)) ((snd env)(ch_token (fst env) \<mapsto> False))) (ch_token (fst env)) \<noteq> Some True"

interpretation rabbit: event_publisher rabbit_publish rabbit_queued
  by unfold_locales
    (auto simp: rabbit_publish_def rabbit_queued_def RabbitEventPublisher_publish_def on_settle_def Let_def split: sum.splits)

subsection \<open>Properties\<close>


text \<open>An honest client gets through: a request stamped with a unix time within a tolerance of \<open>n\<close> seconds
  and signed with the shared secret over exactly its body is accepted, and it is refused as stale once
  the clock has moved further than the tolerance.\<close>

lemma honest_request_accepted:
  assumes "sg_toleranceSeconds g = Fin (of_int n)" and "of_nat t < double_limit"
    and "hs ''x-timestamp'' = Some (Single (digits t))"
    and "hs ''x-signature'' = Some (Single (expected_signature (sg_secret g) (digits t) rawBody))"
  shows "signature_canActivate g now hs (Some rawBody) =
     (if \<bar>now div 1000 - int t\<bar> \<le> n then Inr True else Inl (HttpException 401 ''stale or invalid timestamp''))"
proof -
  have num: "js_number_str (digits t) = Fin (of_nat t)"
    using js_number_str_digits [of "digits t"] digits_all [of t] assms(2)
    by (simp add: to_jsnum_def double_limit_def)
  have "\<bar>of_int (now div 1000) - (of_nat t :: rat)\<bar> = of_int \<bar>now div 1000 - int t\<bar>" by simp
  then have tol: "withinTolerance (sg_toleranceSeconds g) now (digits t) \<longleftrightarrow> \<bar>now div 1000 - int t\<bar> \<le> n"
    by (simp add: withinTolerance_def num assms(1) del: of_int_abs)
  have "length (expected_signature (sg_secret g) (digits t) rawBody) = 64"
    by (simp add: expected_signature_def)
  then have "expected_signature (sg_secret g) (digits t) rawBody \<noteq> []" by force
  with tol show ?thesis
    by (simp add: signature_canActivate_def Let_def headerValue_def assms(3,4))
qed

text \<open>C21. One return, one publish: a publish whose token no other event of the channel uses resolves exactly
  when its confirmation came and no message with its token was returned meanwhile, whatever is returned
  for other publishes (even with the same correlation id); it leaves no entry behind in
  \<open>pendingReturns\<close>, and the entries of the others are as if it had never been there.\<close>

theorem publish_resolves_iff_routed:
  assumes "\<not> own_events (ch_token ch) (ch_meanwhile ch)"
  shows "(fst (RabbitEventPublisher_publish ch event c pending) = Inr () \<longleftrightarrow>
            confirm_result ch (order_publication event c (ch_token ch)) = Inr ()
            \<and> Returns (Some (JStr (ch_token ch))) \<notin> set (ch_meanwhile ch))
         \<and> snd (RabbitEventPublisher_publish ch event c pending) (ch_token ch) = None
         \<and> (j = ch_token ch
            \<or> snd (RabbitEventPublisher_publish ch event c pending) j = snd (channel_run (ch_meanwhile ch) pending) j)"
proof -
  have "snd (RabbitEventPublisher_publish ch event c pending) j = snd (channel_run (ch_meanwhile ch) pending) j"
    if "j \<noteq> ch_token ch"
  proof -
    have "snd (channel_run (ch_meanwhile ch) (pending(ch_token ch \<mapsto> False))) j = snd (channel_run (ch_meanwhile ch) pending) j"
      by (rule channel_run_local) (simp add: that)
    with that show ?thesis by (simp add: RabbitEventPublisher_publish_def on_settle_def Let_def)
  qed
  moreover have "snd (RabbitEventPublisher_publish ch event c pending) (ch_token ch) = None"
    by (simp add: RabbitEventPublisher_publish_def on_settle_def Let_def)
  ultimately show ?thesis
    unfolding publish_result [OF assms] by (auto split: sum.splits)
qed

definition sample_order :: order_webhook where
  "sample_order = \<lparr>ow_event_id = ''evt-1'', ow_event_type = ''order.created'', ow_payload = JObj []\<rparr>"

definition sample_channel :: "channel_event list \<Rightarrow> channel" where
  "sample_channel es = \<lparr>ch_token = ''t-1'', ch_meanwhile = es, ch_confirm = (\<lambda>_. Inr (Resolves (), []))\<rparr>"

lemma sample_confirmed: "confirm_result (sample_channel es) p = Inr ()"
  using withTimeout_settled [of "''publisher confirm timed out''" "Resolves ()" "[]"]
  by (simp add: confirm_result_def sample_channel_def)

theorem publish_resolves_iff_routed_witness:
  "fst (RabbitEventPublisher_publish
          (sample_channel [Starts ''t-2'', Returns (Some (JStr ''t-2'')), Settles ''t-2'' (Inr ())]) sample_order ''corr-1'' Map.empty)
     = Inr ()
   \<and> fst (RabbitEventPublisher_publish (sample_channel [Returns (Some (JStr ''t-1''))]) sample_order ''corr-1'' Map.empty)
     \<noteq> Inr ()"
  using publish_resolves_iff_routed [of "sample_channel [Starts ''t-2'', Returns (Some (JStr ''t-2'')), Settles ''t-2'' (Inr ())]"
      sample_order "''corr-1''" Map.empty "''t-1''"]
    publish_resolves_iff_routed [of "sample_channel [Returns (Some (JStr ''t-1''))]" sample_order "''corr-1''" Map.empty "''t-1''"]
  by (simp add: sample_confirmed) (simp add: sample_channel_def own_events_def)

text \<open>C4. Accepted means queued: a 202 from \<open>POST /webhooks/orders\<close> implies that the request was signed, its
  body met the declared rules, and the message of exactly that order was confirmed by the broker
  without being returned; it is persistent, mandatory and routed to the work queue alone. The answer
  carries the request's correlation id.\<close>

theorem accepted_means_queued:
  assumes "post_orders throttle g meets (rabbit_publish (ch, pending)) uuid now hs rawBody body store = Inr (c, status)"
  shows "c = nullish store uuid \<and> status = ''accepted''
         \<and> signature_canActivate g now hs (Some rawBody) = Inr True \<and> meets OrderWebhookDto body
         \<and> (\<exists>event. order_dto body = Some event
              \<and> confirm_result ch (order_publication event c (ch_token ch)) = Inr ()
              \<and> rabbit_queued (ch, pending) event c
              \<and> pub_persistent (order_publication event c (ch_token ch))
              \<and> pub_mandatory (order_publication event c (ch_token ch))
              \<and> routed_to (rabbit_config demo get) (pub_exchange (order_publication event c (ch_token ch)))
                  (pub_routingKey (order_publication event c (ch_token ch))) = [WORK_QUEUE])"
proof -
  note accepted = rabbit.post_accepted [OF assms]
  then obtain event where "order_dto body = Some event" "rabbit_queued (ch, pending) event (nullish store uuid)" by blast
  with accepted show ?thesis
    by (auto simp: order_publication_def rabbit_queued_def intro!: exI [of _ event])
qed

lemma sample_body_meets:
  "meets OrderWebhookDto (JObj [(''event_id'', JStr ''evt-1''), (''event_type'', JStr ''order.created''), (''payload'', JObj [])])"
  by code_simp

lemma sample_body_dto:
  "order_dto (JObj [(''event_id'', JStr ''evt-1''), (''event_type'', JStr ''order.created''), (''payload'', JObj [])])
     = Some sample_order"
  by (simp add: order_dto_def sample_order_def)

text \<open>A signed request for the sample order, answered with 202.\<close>

definition sample_body :: json where
  "sample_body = JObj [(''event_id'', JStr ''evt-1''), (''event_type'', JStr ''order.created''), (''payload'', JObj [])]"

lemma sample_post:
  "\<exists>g hs. post_orders (\<lambda>_. Inr ()) g meets (rabbit_publish (sample_channel [], Map.empty)) ''u'' 1700000123456
      hs ''{}'' sample_body (Some ''corr-1'') = Inr (''corr-1'', ''accepted'')"
proof -
  let ?g = "\<lparr>sg_secret = ''s3cret'', sg_toleranceSeconds = Fin (of_int 300)\<rparr>"
  let ?hs = "[''x-timestamp'' \<mapsto> Single (digits 1700000000),
              ''x-signature'' \<mapsto> Single (expected_signature ''s3cret'' (digits 1700000000) ''{}'')]"
  have "signature_canActivate ?g 1700000123456 ?hs (Some ''{}'') = Inr True"
  proof -
    have num: "js_number_str (digits 1700000000) = Fin 1700000000"
      using js_number_str_digits [of "digits 1700000000"] digits_all [of 1700000000]
      by (simp add: to_jsnum_def double_limit_def)
    have "length (expected_signature ''s3cret'' (digits 1700000000) ''{}'') = 64"
      by (simp add: expected_signature_def)
    then have "expected_signature ''s3cret'' (digits 1700000000) ''{}'' \<noteq> []" by force
    then show ?thesis
      by (simp add: signature_canActivate_def Let_def headerValue_def withinTolerance_def num)
  qed
  moreover have "rabbit_queued (sample_channel [], Map.empty) sample_order ''corr-1''"
    by (simp add: rabbit_queued_def sample_confirmed) (simp add: sample_channel_def)
  ultimately have "post_orders (\<lambda>_. Inr ()) ?g meets (rabbit_publish (sample_channel [], Map.empty)) ''u'' 1700000123456
      ?hs ''{}'' sample_body (Some ''corr-1'') = Inr (''corr-1'', ''accepted'')"
    by (simp add: post_orders_def sample_body_def sample_body_meets sample_body_dto rabbit.ingest_iff)
  then show ?thesis by blast
qed

theorem accepted_means_queued_witness:
  "\<exists>event. order_dto sample_body = Some event \<and> rabbit_queued (sample_channel [], Map.empty) event ''corr-1''"
proof -
  obtain g hs where "post_orders (\<lambda>_. Inr ()) g meets (rabbit_publish (sample_channel [], Map.empty)) ''u'' 1700000123456
      hs ''{}'' sample_body (Some ''corr-1'') = Inr (''corr-1'', ''accepted'')"
    using sample_post by blast
  from accepted_means_queued [OF this] show ?thesis by blast
qed

text \<open>What the API accepts, the schema holds: the values the worker inserts for an accepted order under a
  well-formed correlation id are never too long for the \<open>events\<close> columns; the one thing the insert can
  still reject is a NUL character, which the rules let through.\<close>

theorem accepted_order_fits_schema:
  assumes "validation_pipe accept" and "accept OrderWebhookDto body" and "order_dto body = Some event"
    and "valid_correlation_id c"
  shows "schema_error (InsertEvent \<lparr>iv_eventId = ow_event_id event, iv_eventType = ow_event_type event,
            iv_correlationId = c, iv_payload = ow_payload event, iv_status = Received\<rparr>) =
         (if CHR 0x00 \<in> set (ow_event_id event) \<or> CHR 0x00 \<in> set (ow_event_type event) then Some ''22021''
          else if json_has_nul (ow_payload event) then Some ''22P05'' else None)"
proof -
  obtain i t pkvs where ev: "event = \<lparr>ow_event_id = i, ow_event_type = t, ow_payload = JObj pkvs\<rparr>"
    and len: "code_points i \<le> 255" "code_points t \<le> 255"
    by (rule validation_pipe.accepted_order [OF assms(1,2)]) (use assms(3) in auto)
  have "CHR 0x00 \<notin> set c"
    using assms(4) by (auto simp: valid_correlation_id_def list_all_iff correlation_char_def is_digit_def code_def)
  moreover have "length c \<le> 255" using assms(4) by (simp add: valid_correlation_id_def)
  ultimately have "varchar255_error c = None" by (rule varchar255_fits)
  with len show ?thesis by (simp add: ev varchar255_error_def)
qed

theorem accepted_order_fits_schema_witness:
  "schema_error (InsertEvent \<lparr>iv_eventId = ''evt-1'', iv_eventType = ''order.created'', iv_correlationId = ''corr-1'',
     iv_payload = JObj [], iv_status = Received\<rparr>) = None"
proof -
  have "valid_correlation_id ''corr-1''" by code_simp
  from accepted_order_fits_schema [OF class_validator.validation_pipe_axioms sample_body_meets sample_body_dto this]
  show ?thesis by (simp add: sample_order_def)
qed



text \<open>The poison demo does what it claims: outside demo mode the endpoint is a 404 that publishes nothing;
  in demo mode its bytes are no JSON, and the worker, whatever its state, answers the delivered message
  with exactly one dead letter that keeps the bytes verbatim, and leaves the tables alone.\<close>

theorem poison_is_dead_lettered:
  assumes "wire deliver" and "c \<noteq> []"
  shows "fst (poison_inject False publish uuid store) = Inl (HttpException 404 ''Not Found'')
         \<and> snd (poison_inject False publish uuid store) = []
         \<and> snd (poison_inject True publish uuid (Some c)) = [poison_publication c]
         \<and> (case order_handle w (deliver (poison_publication c) r) s of (oc, es, s') \<Rightarrow>
              s' = s \<and> publications es =
                [toDeadLetter \<lparr>dd_eventId = None, dd_correlationId = c,
                   dd_reason = ''unparseable payload or missing event_id'', dd_attempts = 0, dd_payload = POISON_BYTES\<rparr>])"
proof -
  let ?m = "deliver (poison_publication c) r"
  have content: "msg_content ?m = POISON_BYTES"
    by (rule wire.raw_body [OF assms(1)]) (simp add: poison_publication_def)
  have "json_parse POISON_BYTES = None" by code_simp
  then have none: "event_of c POISON_BYTES = None"
    by (simp add: event_of_def parsed_field_def parse_def)
  have corr: "correlationOf (wk_uuid w) ?m POISON_BYTES = c"
    by (rule wire.correlationOf_delivered [OF assms(1) _ assms(2)]) (simp add: poison_publication_def)
  obtain oc es s' where r: "order_handle w ?m s = (oc, es, s')" using prod_cases3 by blast
  then have "consume_unparseable (wk_publish w) c POISON_BYTES = (oc, es)" and "s' = s"
    by (auto simp: order_handle_def content corr consume_def none Let_def split: prod.splits)
  from consume_unparseable_trace(4) [OF this(1)] this(2) r show ?thesis
    by (simp add: poison_inject_def currentCorrelationId_def Let_def)
qed

theorem poison_is_dead_lettered_witness:
  "snd (snd (order_handle (calm_worker NoopOrderHandler_handle) (amqp_deliver (poison_publication ''corr-1'') False) empty_db))
     = empty_db"
proof -
  let ?r = "order_handle (calm_worker NoopOrderHandler_handle) (amqp_deliver (poison_publication ''corr-1'') False) empty_db"
  obtain oc es s' where r: "?r = (oc, es, s')" using prod_cases3 by blast
  have "s' = empty_db"
    using poison_is_dead_lettered [OF wire_amqp_deliver, where c = "''corr-1''" and s = empty_db and r = False
        and w = "calm_worker NoopOrderHandler_handle" and publish = "\<lambda>_. Inr ()" and uuid = "[]" and store = None] r
    by simp
  with r show ?thesis by simp
qed

end
