(* ===== verification/Observe.thy ===== *)
theory Observe
  imports DlqConsumer
begin

text \<open>
  Observability: \<open>src/src/metrics/\<close> (the registry of \<open>metrics.service.ts\<close>, the HTTP middleware, the
  scrape endpoint and the worker's bare server) and \<open>src/src/health/health.controller.ts\<close>. Counters
  are maps from label values to counts; a histogram is the list of its observations per label value.
  The text \<open>prom-client\<close> renders is the parameter \<open>render\<close>.
\<close>

subsection \<open>The registry (\<open>metrics.service.ts\<close>)\<close>

record metrics_registry =
  httpRequests :: "string \<times> string \<times> string \<Rightarrow> nat"
  httpDuration :: "string \<times> string \<Rightarrow> rat list"
  eventsProcessed :: "string \<Rightarrow> nat"
  processingDuration :: "rat list"
  deadLettersPersisted :: nat

definition new_registry :: metrics_registry where
  "new_registry =
     \<lparr>httpRequests = (\<lambda>_. 0), httpDuration = (\<lambda>_. []), eventsProcessed = (\<lambda>_. 0), processingDuration = [],
      deadLettersPersisted = 0\<rparr>"

definition inc :: "'l \<Rightarrow> ('l \<Rightarrow> nat) \<Rightarrow> 'l \<Rightarrow> nat" where
  "inc label c = c(label := c label + 1)"

subsection \<open>The HTTP middleware (\<open>http-metrics.middleware.ts\<close>)\<close>

record http_request =
  rq_method :: string
  rq_baseUrl :: string
  rq_route :: "string option"

text \<open>The \<open>finish\<close> listener; times are nanoseconds.\<close>

definition http_finish :: "http_request \<Rightarrow> nat \<Rightarrow> int \<Rightarrow> int \<Rightarrow> metrics_registry \<Rightarrow> metrics_registry" where
  "http_finish request statusCode startedAt now m =
     (let route = (case rq_route request of Some path \<Rightarrow> rq_baseUrl request @ path | None \<Rightarrow> ''unmatched'');
          seconds = of_int (now - startedAt) / 10 ^ 9
      in m\<lparr>httpRequests := inc (rq_method request, route, digits statusCode) (httpRequests m),
           httpDuration := (httpDuration m)((rq_method request, route) :=
                              httpDuration m (rq_method request, route) @ [seconds])\<rparr>)"

subsection \<open>What the consumers count\<close>

fun apply_effect :: "rat \<Rightarrow> effect \<Rightarrow> metrics_registry \<Rightarrow> metrics_registry" where
  "apply_effect seconds (Counted outcome) m = m\<lparr>eventsProcessed := inc outcome (eventsProcessed m)\<rparr>"
| "apply_effect seconds Timed m = m\<lparr>processingDuration := processingDuration m @ [seconds]\<rparr>"
| "apply_effect seconds _ m = m"

definition count_effects :: "rat \<Rightarrow> effect list \<Rightarrow> metrics_registry \<Rightarrow> metrics_registry" where
  "count_effects seconds es m = foldl (\<lambda>m e. apply_effect seconds e m) m es"

definition count_dead_letters :: "nat \<Rightarrow> metrics_registry \<Rightarrow> metrics_registry" where
  "count_dead_letters n m = m\<lparr>deadLettersPersisted := deadLettersPersisted m + n\<rparr>"

lemma count_effects_simps [simp]:
  "count_effects x [] m = m"
  "count_effects x (e # es) m = count_effects x es (apply_effect x e m)"
  by (simp_all add: count_effects_def)

lemma events_processed_counted:
  "eventsProcessed (count_effects x es m) outcome = eventsProcessed m outcome + count_list (counted es) outcome"
proof (induction es arbitrary: m)
  case (Cons e es)
  then show ?case by (cases e) (simp_all add: inc_def)
qed simp

subsection \<open>Scraping (\<open>metrics.controller.ts\<close>, \<open>worker-metrics-server.ts\<close>)\<close>

record http_response =
  rs_status :: nat
  rs_contentType :: "string option"
  rs_body :: string

definition scrape :: "string \<Rightarrow> (metrics_registry \<Rightarrow> string result) \<Rightarrow> metrics_registry \<Rightarrow> http_response result" where
  "scrape contentType render m =
     bind_res (render m) (\<lambda>body. Inr \<lparr>rs_status = 200, rs_contentType = Some contentType, rs_body = body\<rparr>)"

definition worker_metrics_handler ::
  "string \<Rightarrow> (metrics_registry \<Rightarrow> string result) \<Rightarrow> string \<Rightarrow> string \<Rightarrow> metrics_registry \<Rightarrow> http_response"
where
  "worker_metrics_handler contentType render method url m =
     (if method = ''GET'' \<and> url = ''/metrics'' then
        (case render m of
           Inr body \<Rightarrow> \<lparr>rs_status = 200, rs_contentType = Some contentType, rs_body = body\<rparr>
         | Inl e \<Rightarrow> \<lparr>rs_status = 500, rs_contentType = None, rs_body = []\<rparr>)
      else \<lparr>rs_status = 404, rs_contentType = None, rs_body = []\<rparr>)"

subsection \<open>Health (\<open>health.controller.ts\<close>)\<close>

datatype check_state = Up | Down

record health_report =
  hr_postgres :: check_state
  hr_rabbitmq :: check_state

text \<open>The first of the ping's outcome and its timer decides; \<open>Promise.race\<close> ignores the rest.\<close>

definition postgresState :: "unit await_event \<Rightarrow> check_state" where
  "postgresState first = (case first of Resolves _ \<Rightarrow> Up | _ \<Rightarrow> Down)"

definition health_check :: "unit await_event \<Rightarrow> bool \<Rightarrow> health_report result" where
  "health_check first amqpUp =
     (let checks = \<lparr>hr_postgres = postgresState first, hr_rabbitmq = (if amqpUp then Up else Down)\<rparr>
      in if hr_postgres checks \<noteq> Up \<or> hr_rabbitmq checks \<noteq> Up then Inl (HttpException 503 ''degraded'')
         else Inr checks)"

subsection \<open>Properties\<close>

text \<open>The worker's metrics tell the truth: after handling a message, the counter of each outcome has
  grown by exactly the number of times the handler counted that outcome, which is at most once in
  all, and the duration of a delivery is observed exactly when it came to a decision.\<close>

theorem outcome_counters_exact:
  "(case order_handle w m s of (oc, es, s') \<Rightarrow>
      eventsProcessed (count_effects x es reg) outcome = eventsProcessed reg outcome + count_list (counted es) outcome
      \<and> length (counted es) \<le> 1
      \<and> processingDuration (count_effects x es reg) =
          processingDuration reg @ (if set (counted es) \<inter> {''processed'', ''duplicate'', ''retry'', ''dead''} = {} then [] else [x]))"
proof -
  have timed: "processingDuration (count_effects x es reg)
                 = processingDuration reg @ map (\<lambda>_. x) (filter (\<lambda>e. e = Timed) es)" for es reg
  proof (induction es arbitrary: reg)
    case (Cons e es)
    then show ?case by (cases e) simp_all
  qed simp
  have emitted: "filter (\<lambda>e. e = Timed) (map Emitted is) = []" for "is" by (induction "is") simp_all
  have stage [simp]: "stage_of a b c d e f \<noteq> Timed" for a b c d e f by (simp add: stage_of_def)
  obtain oc es s' where r: "order_handle w m s = (oc, es, s')" using prod_cases3 by blast
  have "length (counted es) \<le> 1
        \<and> map (\<lambda>_. x) (filter (\<lambda>e. e = Timed) es)
           = (if set (counted es) \<inter> {''processed'', ''duplicate'', ''retry'', ''dead''} = {} then [] else [x])"
  proof (cases "event_of (correlationOf (wk_uuid w) m (msg_content m)) (msg_content m)")
    case None
    with r show ?thesis
      by (auto simp: order_handle_def consume_def consume_unparseable_def await_publish_eq Let_def split: if_splits)
  next
    case (Some event)
    obtain q s1 where q: "claimAndHandle (wk_pg w) (wk_maxAttempts w) (wk_handler w) event (is_continuation m) s = (q, s1)"
      by fastforce
    show ?thesis
    proof (cases q)
      case (Inl e)
      with Some q r show ?thesis
        by (auto simp: order_handle_def consume_def processor_process_def consume_error_def await_publish_eq Let_def split: if_splits)
    next
      case (Inr d)
      with Some q r show ?thesis
        by (cases d)
          (auto simp: order_handle_def consume_def processor_process_def settle_decision_def await_publish_eq Let_def
            emitted split: if_splits)
    qed
  qed
  with r show ?thesis by (simp add: events_processed_counted timed)
qed

text \<open>Health: the probe answers 200 exactly when the database ping succeeded before its timer and the
  broker connection is up, and 503 otherwise; the worker's metrics port answers nothing but
  \<open>GET /metrics\<close>.\<close>

theorem health_and_metrics_endpoints:
  "(health_check first amqpUp = Inr \<lparr>hr_postgres = Up, hr_rabbitmq = Up\<rparr> \<longleftrightarrow> first = Resolves () \<and> amqpUp)
   \<and> (health_check first amqpUp = Inr \<lparr>hr_postgres = Up, hr_rabbitmq = Up\<rparr>
      \<or> health_check first amqpUp = Inl (HttpException 503 ''degraded''))
   \<and> (rs_status (worker_metrics_handler ct render method url reg) = 404 \<longleftrightarrow> (method, url) \<noteq> (''GET'', ''/metrics''))"
  by (cases first; cases amqpUp) (auto simp: health_check_def postgresState_def worker_metrics_handler_def Let_def split: sum.splits)

end
