(* ===== verification/Api.thy ===== *)
theory Api
  imports Replay Webhooks Observe
begin

text \<open>
  The HTTP surface of the API as the controllers declare it: every route with its guards, pipes, handler and
  status, behind the body parser and the two middlewares that \<open>ObservabilityModule\<close> and \<open>MetricsModule\<close> apply
  to all routes, and in front of the framework's exception filter. What a request finds outside is the record
  \<open>api\<close>; the body parser of \<open>main.ts\<close> is its field \<open>ap_parse\<close>, which gives the body and, when it read one as
  JSON, the raw bytes it keeps. Not here: the documentation pages and the preflight
  requests that the CORS middleware answers in demo mode.
\<close>

subsection \<open>Requests and routes\<close>

record api_request =
  ar_method :: string
  ar_path :: "string list"
  ar_query :: "(string \<times> string) list"
  ar_headers :: headers
  ar_raw :: string

datatype api_route =
    IngestOrder
  | InjectPoison
  | ListDeadLetters
  | ReplayDeadLetter string
  | DiscardDeadLetter string
  | HealthCheck
  | ScrapeMetrics

text \<open>The routes each controller declares. A \<open>HEAD\<close> request is answered by the \<open>GET\<close> route.\<close>

definition is_get :: "string \<Rightarrow> bool" where
  "is_get meth \<longleftrightarrow> meth = ''GET'' \<or> meth = ''HEAD''"

definition WebhooksController_route :: "string \<Rightarrow> string list \<Rightarrow> api_route option" where
  "WebhooksController_route meth path =
     (if meth = ''POST'' \<and> path = [''webhooks'', ''orders''] then Some IngestOrder else None)"

definition DemoPoisonController_route :: "string \<Rightarrow> string list \<Rightarrow> api_route option" where
  "DemoPoisonController_route meth path =
     (if meth = ''POST'' \<and> path = [''demo'', ''poison''] then Some InjectPoison else None)"

definition DlqController_route :: "string \<Rightarrow> string list \<Rightarrow> api_route option" where
  "DlqController_route meth path =
     (case path of
        [d] \<Rightarrow> if d = ''dlq'' \<and> is_get meth then Some ListDeadLetters else None
      | [d, i] \<Rightarrow> if d = ''dlq'' \<and> meth = ''DELETE'' then Some (DiscardDeadLetter i) else None
      | [d, i, r] \<Rightarrow> if d = ''dlq'' \<and> r = ''replay'' \<and> meth = ''POST'' then Some (ReplayDeadLetter i) else None
      | _ \<Rightarrow> None)"

definition HealthController_route :: "string \<Rightarrow> string list \<Rightarrow> api_route option" where
  "HealthController_route meth path = (if is_get meth \<and> path = [''health''] then Some HealthCheck else None)"

definition MetricsController_route :: "string \<Rightarrow> string list \<Rightarrow> api_route option" where
  "MetricsController_route meth path = (if is_get meth \<and> path = [''metrics''] then Some ScrapeMetrics else None)"

text \<open>The first that matches, in the order of the modules; no two overlap.\<close>

definition match_route :: "string \<Rightarrow> string list \<Rightarrow> api_route option" where
  "match_route meth path =
     fold (\<lambda>controller found. case found of Some rt \<Rightarrow> Some rt | None \<Rightarrow> controller meth path)
       [MetricsController_route, HealthController_route, WebhooksController_route, DemoPoisonController_route,
        DlqController_route] None"

lemmas route_defs =
  match_route_def is_get_def WebhooksController_route_def DemoPoisonController_route_def DlqController_route_def
  HealthController_route_def MetricsController_route_def

text \<open>\<open>request.route.path\<close>: the template, whatever the id.\<close>

fun route_template :: "api_route \<Rightarrow> string" where
  "route_template IngestOrder = ''/webhooks/orders''"
| "route_template InjectPoison = ''/demo/poison''"
| "route_template ListDeadLetters = ''/dlq''"
| "route_template (ReplayDeadLetter i) = ''/dlq/:id/replay''"
| "route_template (DiscardDeadLetter i) = ''/dlq/:id''"
| "route_template HealthCheck = ''/health''"
| "route_template ScrapeMetrics = ''/metrics''"

subsection \<open>The page query (\<open>dlq-query.dto.ts\<close>)\<close>

text \<open>\<open>@IsOptional\<close>, \<open>@Type(() => Number)\<close>, \<open>@IsInt\<close>, \<open>@Min(1)\<close> and possibly \<open>@Max\<close>\<close>

definition query_number :: "nat \<Rightarrow> nat option \<Rightarrow> string option \<Rightarrow> nat result" where
  "query_number initial most value = (case value of
       None \<Rightarrow> Inr initial
     | Some v \<Rightarrow>
         (case js_number_str v of
            Fin q \<Rightarrow>
              if snd (quotient_of q) = 1 \<and> 1 \<le> q \<and> (case most of Some m \<Rightarrow> q \<le> of_nat m | None \<Rightarrow> True)
              then Inr (nat (fst (quotient_of q))) else Inl (HttpException 400 ''Bad Request'')
          | _ \<Rightarrow> Inl (HttpException 400 ''Bad Request'')))"

definition DlqQueryDto :: "(string \<times> string) list \<Rightarrow> (nat \<times> nat) result" where
  "DlqQueryDto query =
     (if \<not> fst ` set query \<subseteq> {''page'', ''limit''} then Inl (HttpException 400 ''Bad Request'')
      else bind_res (query_number 1 None (map_of query ''page'')) (\<lambda>page.
           bind_res (query_number 20 (Some 100) (map_of query ''limit'')) (\<lambda>limit. Inr (page, limit))))"

subsection \<open>Serving a route\<close>

record api =
  ap_demo :: bool
  ap_guard :: signature_guard
  ap_adminKey :: string
  ap_accept :: "(string \<times> constraint list) list \<Rightarrow> json \<Rightarrow> bool"
  ap_throttle :: "unit \<Rightarrow> unit result"
  ap_parse :: "headers \<Rightarrow> string \<Rightarrow> (json \<times> string option) result"
  ap_isUuid :: "string \<Rightarrow> bool"
  ap_channel :: "channel \<times> pending_returns"
  ap_publish :: "publication \<Rightarrow> unit result"
  ap_confirm :: confirm
  ap_pg :: pg
  ap_order :: "dlq_row list \<Rightarrow> dlq_row list"
  ap_findError :: "exn option"
  ap_ping :: "unit await_event"
  ap_amqpUp :: bool
  ap_contentType :: string
  ap_render :: "metrics_registry \<Rightarrow> string result"
  ap_now :: int
  ap_uuid :: string
  ap_handlerUuid :: string

datatype api_body =
    NoBody
  | Acceptance "string \<times> string"
  | DeadLetters dlq_page
  | Receipt receipt
  | Report health_report
  | Text string
  | Failure string

text \<open>What \<open>POST /webhooks/orders\<close> hands to the broker, confirmed or not.\<close>

definition orders_sent :: "api \<Rightarrow> headers \<Rightarrow> string \<Rightarrow> json \<Rightarrow> string option \<Rightarrow> publication list" where
  "orders_sent a hs raw body store =
     (case bind_res (ap_throttle a ()) (\<lambda>_. signature_canActivate (ap_guard a) (ap_now a) hs (Some raw)) of
        Inl e \<Rightarrow> []
      | Inr _ \<Rightarrow>
          if \<not> ap_accept a OrderWebhookDto body then []
          else (case order_dto body of
                  None \<Rightarrow> []
                | Some event \<Rightarrow>
                    [order_publication event (nullish (currentCorrelationId store) (ap_handlerUuid a))
                       (ch_token (fst (ap_channel a)))]))"

text \<open>\<open>findAndCount\<close>: PostgreSQL refuses an offset that is no \<open>bigint\<close>.\<close>

definition find_page :: "api \<Rightarrow> nat \<Rightarrow> nat \<Rightarrow> db \<Rightarrow> dlq_page result" where
  "find_page a page limit s =
     (if 2 ^ 63 \<le> (page - 1) * limit then Inl (QueryFailed (Some ''22003'') ''bigint out of range'')
      else (case ap_findError a of
              Some e \<Rightarrow> Inl e
            | None \<Rightarrow> Inr (dlq_list (ap_order a) page limit s)))"

definition uuid_pipe :: "api \<Rightarrow> string \<Rightarrow> unit result" where
  "uuid_pipe a i =
     (if ap_isUuid a i then Inr () else Inl (HttpException 400 ''Validation failed (uuid is expected)''))"

text \<open>The guard of \<open>DlqController\<close>, then the pipe of its \<open>:id\<close>.\<close>

definition admin_id :: "api \<Rightarrow> headers \<Rightarrow> string \<Rightarrow> unit result" where
  "admin_id a hs i = bind_res (AdminKeyGuard_canActivate (ap_adminKey a) hs) (\<lambda>_. uuid_pipe a i)"

text \<open>One definition per handler method, with what its decorators put around it.\<close>

type_synonym served = "(nat \<times> api_body) result \<times> publication list \<times> db"

definition serve_ingest :: "api \<Rightarrow> api_request \<Rightarrow> json \<Rightarrow> db \<Rightarrow> served in_context" where
  "serve_ingest a rq body s store =
     (bind_res (post_orders (ap_throttle a) (ap_guard a) (ap_accept a) (rabbit_publish (ap_channel a)) (ap_handlerUuid a)
          (ap_now a) (ar_headers rq) (ar_raw rq) body store) (\<lambda>answer. Inr (202, Acceptance answer)),
      orders_sent a (ar_headers rq) (ar_raw rq) body store, s)"

definition serve_poison :: "api \<Rightarrow> db \<Rightarrow> served in_context" where
  "serve_poison a s store =
     (let (r, sent) = poison_inject (ap_demo a) (ap_publish a) (ap_handlerUuid a) store
      in (bind_res r (\<lambda>answer. Inr (202, Acceptance answer)), sent, s))"

definition serve_list :: "api \<Rightarrow> api_request \<Rightarrow> db \<Rightarrow> served" where
  "serve_list a rq s =
     (bind_res (AdminKeyGuard_canActivate (ap_adminKey a) (ar_headers rq)) (\<lambda>_.
      bind_res (DlqQueryDto (ar_query rq)) (\<lambda>(page, limit).
      bind_res (find_page a page limit s) (\<lambda>found. Inr (200, DeadLetters found)))), [], s)"

definition serve_replay :: "api \<Rightarrow> api_request \<Rightarrow> string \<Rightarrow> db \<Rightarrow> served" where
  "serve_replay a rq i s =
     (case admin_id a (ar_headers rq) i of
        Inl e \<Rightarrow> (Inl e, [], s)
      | Inr _ \<Rightarrow>
          let (r, sent, s') = replay (ap_pg a) (ap_now a) (ap_confirm a) i s
          in (bind_res r (\<lambda>answer. Inr (202, Receipt answer)), sent, s'))"

definition serve_discard :: "api \<Rightarrow> api_request \<Rightarrow> string \<Rightarrow> db \<Rightarrow> served" where
  "serve_discard a rq i s =
     (case admin_id a (ar_headers rq) i of
        Inl e \<Rightarrow> (Inl e, [], s)
      | Inr _ \<Rightarrow> let (r, s') = discard (ap_pg a) i s in (bind_res r (\<lambda>_. Inr (204, NoBody)), [], s'))"

definition serve_health :: "api \<Rightarrow> db \<Rightarrow> served" where
  "serve_health a s = (bind_res (health_check (ap_ping a) (ap_amqpUp a)) (\<lambda>report. Inr (200, Report report)), [], s)"

definition serve_metrics :: "api \<Rightarrow> metrics_registry \<Rightarrow> db \<Rightarrow> served" where
  "serve_metrics a reg s =
     (bind_res (scrape (ap_contentType a) (ap_render a) reg) (\<lambda>answer. Inr (rs_status answer, Text (rs_body answer))), [], s)"

lemmas serve_defs =
  serve_ingest_def serve_poison_def serve_list_def serve_replay_def serve_discard_def serve_health_def serve_metrics_def

fun serve_route :: "api \<Rightarrow> api_request \<Rightarrow> json \<Rightarrow> metrics_registry \<Rightarrow> db \<Rightarrow> api_route \<Rightarrow> served in_context" where
  "serve_route a rq body reg s IngestOrder store = serve_ingest a rq body s store"
| "serve_route a rq body reg s InjectPoison store = serve_poison a s store"
| "serve_route a rq body reg s ListDeadLetters store = serve_list a rq s"
| "serve_route a rq body reg s (ReplayDeadLetter i) store = serve_replay a rq i s"
| "serve_route a rq body reg s (DiscardDeadLetter i) store = serve_discard a rq i s"
| "serve_route a rq body reg s HealthCheck store = serve_health a s"
| "serve_route a rq body reg s ScrapeMetrics store = serve_metrics a reg s"

subsection \<open>A request\<close>

text \<open>The exception filter.\<close>

fun filtered :: "exn \<Rightarrow> nat \<times> api_body" where
  "filtered (HttpException c m) = (c, Failure m)"
| "filtered e = (500, Failure ''Internal server error'')"

definition answer_of :: "(nat \<times> api_body) result \<Rightarrow> nat \<times> api_body" where
  "answer_of r = (case r of Inl e \<Rightarrow> filtered e | Inr b \<Rightarrow> b)"

record api_response =
  as_status :: nat
  as_correlation :: "string option"
  as_body :: api_body

text \<open>\<open>finished\<close> is the clock when the response is out, in nanoseconds, \<open>started\<close> when the middleware ran.\<close>

definition handle_request ::
  "api \<Rightarrow> int \<Rightarrow> int \<Rightarrow> api_request \<Rightarrow> metrics_registry \<Rightarrow> db \<Rightarrow>
     api_response \<times> publication list \<times> metrics_registry \<times> db"
where
  "handle_request a started finished rq reg s =
     (case ap_parse a (ar_headers rq) (ar_raw rq) of
        Inl e \<Rightarrow> (\<lparr>as_status = fst (filtered e), as_correlation = None, as_body = snd (filtered e)\<rparr>, [], reg, s)
      | Inr (body, rawBody) \<Rightarrow>
          let found = match_route (ar_method rq) (ar_path rq);
              ((name, correlationId), (r, sent, s')) =
                correlation_use (ap_uuid a) (ar_headers rq) (\<lambda>store.
                  case found of
                    None \<Rightarrow> (Inl (HttpException 404 ''Not Found''), [], s)
                  | Some rt \<Rightarrow> serve_route a (rq\<lparr>ar_raw := nullish rawBody []\<rparr>) body reg s rt store);
              (status, answer) = answer_of r
          in (\<lparr>as_status = status, as_correlation = Some correlationId, as_body = answer\<rparr>, sent,
              http_finish \<lparr>rq_method = ar_method rq, rq_baseUrl = [], rq_route = map_option route_template found\<rparr>
                status started finished reg, s'))"

subsection \<open>Lemmas\<close>

lemma admin_id_Inr:
  "admin_id a hs i = Inr () \<longleftrightarrow> AdminKeyGuard_canActivate (ap_adminKey a) hs = Inr True \<and> ap_isUuid a i"
  by (auto simp: admin_id_def uuid_pipe_def bind_res_Inr AdminKeyGuard_canActivate_def Let_def split: if_splits)

text \<open>What gives a request the right to have an effect.\<close>

definition order_authorised :: "api \<Rightarrow> api_request \<Rightarrow> bool" where
  "order_authorised a rq \<longleftrightarrow> signature_canActivate (ap_guard a) (ap_now a) (ar_headers rq) (Some (ar_raw rq)) = Inr True"

definition admin_authorised :: "api \<Rightarrow> api_request \<Rightarrow> bool" where
  "admin_authorised a rq \<longleftrightarrow> AdminKeyGuard_canActivate (ap_adminKey a) (ar_headers rq) = Inr True"

lemma orders_sent_authorised: "orders_sent a (ar_headers rq) (ar_raw rq) body store \<noteq> [] \<Longrightarrow> order_authorised a rq"
  by (cases "ap_throttle a ()")
    (auto simp: orders_sent_def order_authorised_def signature_canActivate_iff split: sum.splits if_splits)

lemma serve_route_effects:
  assumes "serve_route a rq body reg s rt store = (r, sent, t)"
  shows "sent \<noteq> [] \<or> t \<noteq> s \<Longrightarrow>
      rt = IngestOrder \<and> order_authorised a rq \<and> t = s \<or> rt = InjectPoison \<and> ap_demo a \<and> t = s
      \<or> (\<exists>i. (rt = ReplayDeadLetter i \<or> rt = DiscardDeadLetter i) \<and> ap_isUuid a i) \<and> admin_authorised a rq"
    and "r = Inr (status, DeadLetters page) \<Longrightarrow> admin_authorised a rq"
  using assms orders_sent_authorised [of a rq body store]
  by (cases rt; auto simp: serve_defs admin_authorised_def admin_id_Inr poison_inject_def bind_res_Inr Let_def
      AdminKeyGuard_canActivate_def split: sum.splits if_splits prod.splits)+

lemma filtered_body: "snd (filtered e) \<noteq> DeadLetters page"
  by (cases e) simp_all

text \<open>One parsed request, its route run under the correlation id the middleware chose.\<close>

definition chosen_id :: "api \<Rightarrow> headers \<Rightarrow> string" where
  "chosen_id a hs = (case hs CORRELATION_HEADER of
       Some (Single incoming) \<Rightarrow> if valid_correlation_id incoming then incoming else ap_uuid a
     | _ \<Rightarrow> ap_uuid a)"

lemma handle_request_cases:
  assumes "handle_request a started finished rq reg s = (resp, sent, reg', t)"
  obtains (unparsed) e where "ap_parse a (ar_headers rq) (ar_raw rq) = Inl e" "as_status resp = fst (filtered e)"
      "as_body resp = snd (filtered e)" "sent = []" "reg' = reg" "t = s"
  | (routed) body raw r where "ap_parse a (ar_headers rq) (ar_raw rq) = Inr (body, raw)"
      "(case match_route (ar_method rq) (ar_path rq) of
          None \<Rightarrow> (Inl (HttpException 404 ''Not Found''), [], s)
        | Some rt \<Rightarrow> serve_route a (rq\<lparr>ar_raw := nullish raw []\<rparr>) body reg s rt (Some (chosen_id a (ar_headers rq)))) = (r, sent, t)"
      "as_status resp = fst (answer_of r)" "as_body resp = snd (answer_of r)"
      "as_correlation resp = Some (chosen_id a (ar_headers rq))"
      "reg' = http_finish \<lparr>rq_method = ar_method rq, rq_baseUrl = [],
                rq_route = map_option route_template (match_route (ar_method rq) (ar_path rq))\<rparr>
                (as_status resp) started finished reg"
proof (cases "ap_parse a (ar_headers rq) (ar_raw rq)")
  case (Inl e)
  with assms show thesis by (intro unparsed [of e]) (auto simp: handle_request_def)
next
  case (Inr b)
  obtain body raw where b: "b = (body, raw)" by fastforce
  obtain r sent' t' where run: "(case match_route (ar_method rq) (ar_path rq) of
          None \<Rightarrow> (Inl (HttpException 404 ''Not Found''), [], s)
        | Some rt \<Rightarrow> serve_route a (rq\<lparr>ar_raw := nullish raw []\<rparr>) body reg s rt (Some (chosen_id a (ar_headers rq)))) = (r, sent', t')"
    using prod_cases3 by blast
  with Inr b assms have "sent' = sent" "t' = t" "as_status resp = fst (answer_of r)" "as_body resp = snd (answer_of r)"
      "as_correlation resp = Some (chosen_id a (ar_headers rq))"
      "reg' = http_finish \<lparr>rq_method = ar_method rq, rq_baseUrl = [],
                rq_route = map_option route_template (match_route (ar_method rq) (ar_path rq))\<rparr>
                (as_status resp) started finished reg"
    by (auto simp: handle_request_def correlation_use_def runWithCorrelationId_def chosen_id_def [symmetric] Let_def
        split: prod.splits)
  with run Inr b show thesis by (intro routed [of body raw r]) simp_all
qed

subsection \<open>Properties\<close>

text \<open>C6. Nothing happens without a right to it: whatever is sent to the API, a message is published or a table changed
  only by a correctly signed order (which changes no table), by the poison endpoint in demo mode (likewise), or by
  replaying or discarding a dead letter with the admin key; and the dead letters are shown only with that key.\<close>

theorem api_effects_authorised:
  assumes "handle_request a started finished rq reg s = (resp, sent, reg', t)"
  shows "(sent \<noteq> [] \<or> t \<noteq> s \<longrightarrow>
            (\<exists>body raw rt. ap_parse a (ar_headers rq) (ar_raw rq) = Inr (body, raw)
               \<and> match_route (ar_method rq) (ar_path rq) = Some rt
               \<and> (rt = IngestOrder \<and> order_authorised a (rq\<lparr>ar_raw := nullish raw []\<rparr>) \<and> t = s
                  \<or> rt = InjectPoison \<and> ap_demo a \<and> t = s
                  \<or> (\<exists>i. rt = ReplayDeadLetter i \<or> rt = DiscardDeadLetter i) \<and> admin_authorised a rq)))
         \<and> (\<forall>page. as_body resp = DeadLetters page \<longrightarrow> admin_authorised a rq)"
  using assms
proof (cases rule: handle_request_cases)
  case (unparsed e)
  then show ?thesis using filtered_body by simp
next
  case (routed body raw r)
  let ?rq = "rq\<lparr>ar_raw := nullish raw []\<rparr>"
  have admin: "admin_authorised a ?rq = admin_authorised a rq" by (simp add: admin_authorised_def)
  show ?thesis
  proof (cases "match_route (ar_method rq) (ar_path rq)")
    case None
    with routed(2,4) show ?thesis by (auto simp: answer_of_def)
  next
    case (Some rt)
    with routed(2) have run: "serve_route a ?rq body reg s rt (Some (chosen_id a (ar_headers rq))) = (r, sent, t)" by simp
    have "admin_authorised a rq" if "as_body resp = DeadLetters page" for page
    proof (cases r)
      case (Inl e)
      with that routed(4) filtered_body show ?thesis by (simp add: answer_of_def)
    next
      case (Inr b)
      with that routed(4) have "r = Inr (fst b, DeadLetters page)" by (simp add: answer_of_def prod_eq_iff)
      from serve_route_effects(2) [OF run this] admin show ?thesis by simp
    qed
    with serve_route_effects(1) [OF run] Some routed(1) admin show ?thesis by fastforce
  qed
qed

definition sample_api :: api where
  "sample_api =
     \<lparr>ap_demo = True, ap_guard = \<lparr>sg_secret = ''s3cret'', sg_toleranceSeconds = Fin 300\<rparr>, ap_adminKey = ''k3y'',
      ap_accept = meets, ap_throttle = (\<lambda>_. Inr ()), ap_parse = (\<lambda>_ _. Inr (JObj [], None)), ap_isUuid = (\<lambda>_. True),
      ap_channel = (sample_channel [], Map.empty), ap_publish = (\<lambda>_. Inr ()), ap_confirm = (\<lambda>_. Inr (Resolves (), [])),
      ap_pg = calm_pg, ap_order = (\<lambda>rows. rows), ap_findError = None, ap_ping = Resolves (), ap_amqpUp = True,
      ap_contentType = ''text/plain'', ap_render = (\<lambda>_. Inr []), ap_now = 0, ap_uuid = ''u-1'', ap_handlerUuid = ''u-2''\<rparr>"

definition poison_request :: api_request where
  "poison_request =
     \<lparr>ar_method = ''POST'', ar_path = [''demo'', ''poison''], ar_query = [], ar_headers = Map.empty, ar_raw = []\<rparr>"

lemma poison_served:
  "\<exists>resp reg'. handle_request sample_api 0 1 poison_request new_registry empty_db
     = (resp, [poison_publication ''u-1''], reg', empty_db) \<and> as_status resp = 202"
  by (simp add: handle_request_def sample_api_def poison_request_def route_defs serve_defs correlation_use_def runWithCorrelationId_def
      poison_inject_def currentCorrelationId_def answer_of_def nullish_def Let_def)

theorem api_effects_authorised_witness:
  "\<exists>rt. match_route (ar_method poison_request) (ar_path poison_request) = Some rt
     \<and> (rt = IngestOrder \<or> rt = InjectPoison \<and> ap_demo sample_api)"
proof -
  obtain resp reg' where run: "handle_request sample_api 0 1 poison_request new_registry empty_db
     = (resp, [poison_publication ''u-1''], reg', empty_db)"
    using poison_served by blast
  from api_effects_authorised [OF this] show ?thesis
    by (auto simp: poison_request_def route_defs)
qed

text \<open>C26. Every answer can be traced and is counted: a request whose body the parser took is answered under the caller's
  correlation id when that is well-formed and a generated one otherwise, and adds exactly one to the request counter,
  under its method, the template of its route (never an id) and the status it was answered with.\<close>

theorem api_answers_traced:
  assumes "handle_request a started finished rq reg s = (resp, sent, reg', t)"
    and "ap_parse a (ar_headers rq) (ar_raw rq) = Inr parsed"
  shows "as_correlation resp = Some (chosen_id a (ar_headers rq))
         \<and> (\<forall>label. httpRequests reg' label = httpRequests reg label
              + (if label = (ar_method rq, nullish (map_option route_template (match_route (ar_method rq) (ar_path rq))) ''unmatched'',
                             digits (as_status resp)) then 1 else 0))"
  using assms(1)
proof (cases rule: handle_request_cases)
  case (unparsed e)
  with assms(2) show ?thesis by simp
next
  case (routed body raw r)
  then show ?thesis
    by (cases "match_route (ar_method rq) (ar_path rq)") (simp_all add: http_finish_def inc_def Let_def nullish_def)
qed

theorem api_answers_traced_witness:
  "\<exists>reg'. snd (snd (handle_request sample_api 0 1 poison_request new_registry empty_db)) = (reg', empty_db)
     \<and> httpRequests reg' (''POST'', ''/demo/poison'', ''202'') = 1"
proof -
  obtain resp reg' where run: "handle_request sample_api 0 1 poison_request new_registry empty_db
     = (resp, [poison_publication ''u-1''], reg', empty_db)" "as_status resp = 202"
    using poison_served by blast
  have d: "digits 202 = ''202''" by code_simp
  have "ap_parse sample_api (ar_headers poison_request) (ar_raw poison_request) = Inr (JObj [], None)"
    by (simp add: sample_api_def)
  from api_answers_traced [OF run(1) this] run show ?thesis
    by (simp add: poison_request_def route_defs new_registry_def d nullish_def)
qed

text \<open>A page far enough out is answered with 500, not 400: the query has no upper bound on \<open>page\<close>, so an
  administrator asking for a page whose offset is no \<open>bigint\<close> passes the validation and meets the database's
  refusal, whatever is stored.\<close>

theorem page_beyond_bigint_is_a_500:
  assumes "ap_parse a (ar_headers rq) (ar_raw rq) = Inr parsed" and "admin_authorised a rq"
    and "ar_method rq = ''GET''" and "ar_path rq = [''dlq'']" and "ar_query rq = [(''page'', digits n)]"
    and "of_nat n < double_limit" and "2 ^ 63 \<le> (n - 1) * 20"
  shows "as_status (fst (handle_request a started finished rq reg s)) = 500"
proof -
  have "js_number_str (digits n) = Fin (of_nat n)"
    using js_number_str_digits [of "digits n"] digits_all [of n] assms(6) by (simp add: to_jsnum_def double_limit_def)
  moreover have "1 \<le> n" using assms(7) by (cases n) auto
  moreover have "quotient_of (of_nat n) = (int n, 1)"
    using quotient_of_int [of "int n"] by simp
  ultimately have "query_number 1 None (Some (digits n)) = Inr n"
    by (simp add: query_number_def)
  then have query: "DlqQueryDto (ar_query rq) = Inr (n, 20)"
    by (simp add: DlqQueryDto_def assms(5) query_number_def)
  obtain resp sent reg' t where run: "handle_request a started finished rq reg s = (resp, sent, reg', t)"
    using prod_cases4 by blast
  then show ?thesis
  proof (cases rule: handle_request_cases)
    case (routed body raw r)
    with query assms(2-4,7) have "r = Inl (QueryFailed (Some ''22003'') ''bigint out of range'')"
      by (auto simp: route_defs serve_defs admin_authorised_def find_page_def)
    with routed(3) run show ?thesis by (simp add: answer_of_def)
  qed (use assms(1) in simp)
qed

definition far_page_request :: api_request where
  "far_page_request =
     \<lparr>ar_method = ''GET'', ar_path = [''dlq''], ar_query = [(''page'', digits (10 ^ 20))],
      ar_headers = [''x-admin-key'' \<mapsto> Single ''k3y''], ar_raw = []\<rparr>"

theorem page_beyond_bigint_is_a_500_witness:
  "as_status (fst (handle_request sample_api 0 1 far_page_request new_registry empty_db)) = 500"
proof (rule page_beyond_bigint_is_a_500)
  show "ap_parse sample_api (ar_headers far_page_request) (ar_raw far_page_request) = Inr (JObj [], None)"
    by (simp add: sample_api_def)
  show "admin_authorised sample_api far_page_request"
    by (simp add: admin_authorised_def AdminKeyGuard_canActivate_def sample_api_def far_page_request_def headerValue_def Let_def)
  show "of_nat (10 ^ 20) < double_limit" by (simp add: double_limit_def)
qed (simp_all add: far_page_request_def)

end
