(* ===== verification/Delivery.thy ===== *)
theory Delivery
  imports Replay Webhooks "HOL-Library.Sublist"
begin

text \<open>
  The components put together: the webhook endpoint, the broker with the declared topology, any number
  of workers and dead-letter consumers, and the operator, over one pair of tables. A step of the system
  is one run of a handler of the other theories, or the broker moving a message; steps interleave in
  any order. Workers are whatever the step names (any server answers, handler, clock and broker
  confirmations), and any of them may die half-way. What the broker contributes is its documented
  behaviour: a routed message stays queued until it is acknowledged or expires, a message that is
  not acknowledged comes back flagged as redelivered, and a confirmed publish is queued
  (one that is not confirmed may be queued all the same). A handler that throws has its message
  requeued, the default of the client library.
\<close>

subsection \<open>Queues\<close>

text \<open>A message in a queue, with its redelivery flag. Queues are multisets: any order of consumption.\<close>

type_synonym copy = "publication \<times> bool"

type_synonym queues = "string \<Rightarrow> copy multiset"

definition enqueue :: "string list \<Rightarrow> publication \<Rightarrow> queues \<Rightarrow> queues" where
  "enqueue names p qs = (\<lambda>q. if q \<in> set names then add_mset (p, False) (qs q) else qs q)"

definition route :: "rabbit_options \<Rightarrow> publication \<Rightarrow> queues \<Rightarrow> queues" where
  "route opts p = enqueue (routed_to opts (pub_exchange p) (pub_routingKey p)) p"

definition take_off :: "string \<Rightarrow> copy \<Rightarrow> queues \<Rightarrow> queues" where
  "take_off q c qs = qs(q := qs q - {#c#})"

definition put_back :: "string \<Rightarrow> publication \<Rightarrow> bool \<Rightarrow> queues \<Rightarrow> queues" where
  "put_back q p f qs = qs(q := add_mset (p, True) (qs q - {#(p, f)#}))"

record system =
  sy_db :: db
  sy_queues :: queues
  sy_accepted :: "string set"
  sy_discarded :: "string set"

definition initial_system :: system where
  "initial_system = \<lparr>sy_db = empty_db, sy_queues = (\<lambda>_. {#}), sy_accepted = {}, sy_discarded = {}\<rparr>"

text \<open>
  Bodies the wire law speaks about: bytes, or JSON values that JSON text can carry. Steps publish only
  such bodies.
\<close>

definition sendable :: "publication \<Rightarrow> bool" where
  "sendable p \<longleftrightarrow> (\<exists>b. pub_body p = RawBody b) \<or> (\<exists>j. pub_body p = JsonBody j \<and> representable j)"

subsection \<open>Steps\<close>

text \<open>
  \<open>sy_accepted\<close> and \<open>sy_discarded\<close> record the event ids answered with 202 and those of dead letters an
  operator discarded; no step reads them.
\<close>

inductive system_step ::
  "(publication \<Rightarrow> bool \<Rightarrow> amqp_message) \<Rightarrow> rabbit_options \<Rightarrow> system \<Rightarrow> system \<Rightarrow> bool"
  for deliver opts
where
  accepted:
    "post_orders throttle g accept (rabbit_publish env) uuid now hs rawBody body store = Inr answer \<Longrightarrow>
     validation_pipe accept \<Longrightarrow> order_dto body = Some event \<Longrightarrow>
     p = order_publication event (fst answer) (ch_token (fst env)) \<Longrightarrow> sendable p \<Longrightarrow>
     system_step deliver opts s
       (s\<lparr>sy_queues := route opts p (sy_queues s), sy_accepted := insert (ow_event_id event) (sy_accepted s)\<rparr>)"
| unconfirmed:
    "validation_pipe accept \<Longrightarrow> accept OrderWebhookDto body \<Longrightarrow> order_dto body = Some event \<Longrightarrow>
     p = order_publication event c token \<Longrightarrow> sendable p \<Longrightarrow>
     system_step deliver opts s (s\<lparr>sy_queues := route opts p (sy_queues s)\<rparr>)"
| poisoned:
    "poison_inject demo publish uuid store = (r, ps) \<Longrightarrow>
     system_step deliver opts s (s\<lparr>sy_queues := fold (route opts) ps (sy_queues s)\<rparr>)"
| expired:
    "d \<in> set (rmq_queues opts) \<Longrightarrow> expires_to opts d \<noteq> [] \<Longrightarrow> (p, f) \<in># sy_queues s (q_name d) \<Longrightarrow>
     system_step deliver opts s
       (s\<lparr>sy_queues := enqueue (expires_to opts d) p (take_off (q_name d) (p, f) (sy_queues s))\<rparr>)"
| handled:
    "(p, f) \<in># sy_queues s WORK_QUEUE \<Longrightarrow> order_handle w (deliver p f) (sy_db s) = (Ack, es, t) \<Longrightarrow>
     \<forall>q \<in> set (publications es). sendable q \<Longrightarrow>
     system_step deliver opts s
       (s\<lparr>sy_db := t,
          sy_queues := fold (route opts) (publications es) (take_off WORK_QUEUE (p, f) (sy_queues s))\<rparr>)"
| unacknowledged:
    "(p, f) \<in># sy_queues s WORK_QUEUE \<Longrightarrow> order_handle w (deliver p f) (sy_db s) = (oc, es, t) \<Longrightarrow>
     subseq ps (publications es) \<Longrightarrow> \<forall>q \<in> set ps. sendable q \<Longrightarrow> u = t \<or> u = sy_db s \<and> ps = [] \<Longrightarrow>
     system_step deliver opts s
       (s\<lparr>sy_db := u, sy_queues := fold (route opts) ps (put_back WORK_QUEUE p f (sy_queues s))\<rparr>)"
| buried:
    "(p, f) \<in># sy_queues s DEAD_LETTER_QUEUE \<Longrightarrow> dlq_handle pg (deliver p f) (sy_db s) = (Ack, n, t) \<Longrightarrow>
     system_step deliver opts s
       (s\<lparr>sy_db := t, sy_queues := take_off DEAD_LETTER_QUEUE (p, f) (sy_queues s)\<rparr>)"
| unburied:
    "(p, f) \<in># sy_queues s DEAD_LETTER_QUEUE \<Longrightarrow> dlq_handle pg (deliver p f) (sy_db s) = (oc, n, t) \<Longrightarrow>
     u = t \<or> u = sy_db s \<Longrightarrow>
     system_step deliver opts s
       (s\<lparr>sy_db := u, sy_queues := put_back DEAD_LETTER_QUEUE p f (sy_queues s)\<rparr>)"
| replayed:
    "replay pg now confirm i (sy_db s) = (r, ps, t) \<Longrightarrow> \<forall>q \<in> set ps. sendable q \<Longrightarrow>
     qs = ps \<or> (\<exists>e. r = Inl e) \<and> qs = [] \<Longrightarrow>
     system_step deliver opts s (s\<lparr>sy_db := t, sy_queues := fold (route opts) qs (sy_queues s)\<rparr>)"
| discarded:
    "discard pg i (sy_db s) = (r, t) \<Longrightarrow>
     system_step deliver opts s
       (s\<lparr>sy_db := t,
          sy_discarded := sy_discarded s \<union> {k. \<exists>row \<in> set (dlq (sy_db s)) - set (dlq t). dl_eventId row = Some k}\<rparr>)"

inductive reachable ::
  "(publication \<Rightarrow> bool \<Rightarrow> amqp_message) \<Rightarrow> rabbit_options \<Rightarrow> system \<Rightarrow> bool"
  for deliver opts
where
  start: "reachable deliver opts initial_system"
| step: "reachable deliver opts s \<Longrightarrow> system_step deliver opts s t \<Longrightarrow> reachable deliver opts t"

subsection \<open>Queues, lemmas\<close>

lemma in_enqueue [simp]:
  "c \<in># enqueue names p qs q \<longleftrightarrow> c \<in># qs q \<or> q \<in> set names \<and> c = (p, False)"
  by (auto simp: enqueue_def)

lemma in_route [simp]:
  "c \<in># route opts p qs q \<longleftrightarrow>
     c \<in># qs q \<or> q \<in> set (routed_to opts (pub_exchange p) (pub_routingKey p)) \<and> c = (p, False)"
  by (simp add: route_def)

lemma in_route_all [simp]:
  "c \<in># fold (route opts) ps qs q \<longleftrightarrow>
     c \<in># qs q \<or> (\<exists>p \<in> set ps. q \<in> set (routed_to opts (pub_exchange p) (pub_routingKey p)) \<and> c = (p, False))"
  by (induction ps arbitrary: qs) auto

lemma in_put_back [simp]:
  "c \<in># put_back q p f qs j \<longleftrightarrow> (if j = q then c = (p, True) \<or> c \<in># qs q - {#(p, f)#} else c \<in># qs j)"
  by (simp add: put_back_def)

lemma in_take_off [simp]:
  "c \<in># take_off q d qs j \<longleftrightarrow> (if j = q then c \<in># qs q - {#d#} else c \<in># qs j)"
  by (simp add: take_off_def)

lemma kept_copy: "c \<in># M \<Longrightarrow> c = d \<or> c \<in># M - {#d#}"
  by (cases "c = d") (auto simp: in_diff_count)


subsection \<open>What a message carries\<close>

definition carries :: "(publication \<Rightarrow> bool \<Rightarrow> amqp_message) \<Rightarrow> string \<Rightarrow> publication \<Rightarrow> bool" where
  "carries deliver k p \<longleftrightarrow>
     k \<noteq> [] \<and> (\<forall>f. parsed_field (msg_content (deliver p f)) ''event_id'' = Some (JStr k))"

lemma event_of_key:
  "event_of c raw = Some event \<Longrightarrow>
     he_eventId event \<noteq> [] \<and> parsed_field raw ''event_id'' = Some (JStr (he_eventId event))"
  by (auto simp: event_of_def Let_def split: if_splits elim!: truthy_strE)

context wire
begin

lemma parsed_field_flag:
  "sendable p \<Longrightarrow> parsed_field (msg_content (deliver p f)) k = parsed_field (msg_content (deliver p g)) k"
  by (auto simp: sendable_def parsed_field_def parse_def json_body raw_body)

lemma event_carries:
  assumes "event_of c (msg_content (deliver p f)) = Some event" and "sendable p"
  shows "carries deliver (he_eventId event) p"
  unfolding carries_def using event_of_key [OF assms(1)] parsed_field_flag [OF assms(2)] by metis

lemma body_carries:
  assumes "pub_body p = JsonBody (JObj kvs)" and "sendable p" and "map_of kvs ''event_id'' = Some (JStr k)" and "k \<noteq> []"
  shows "carries deliver k p"
  using assms parsed_field_delivered [OF assms(1)] by (simp add: carries_def sendable_def)

lemma continuation_flag: "is_continuation (deliver p True)"
  by (simp add: is_continuation_def redelivered)

lemma continuation_header: "map_of (pub_headers p) ATTEMPT_HEADER \<noteq> None \<Longrightarrow> is_continuation (deliver p f)"
  by (simp add: is_continuation_def)

lemma carried_event:
  assumes "carries deliver k p"
  shows "\<exists>event. event_of c (msg_content (deliver p f)) = Some event \<and> he_eventId event = k"
  using assms by (simp add: carries_def event_of_def)

lemma dead_letter_ids:
  assumes "sendable (toDeadLetter d)" and "dd_eventId d \<noteq> Some []"
  shows "\<exists>f. dead_fields_of (deliver (toDeadLetter d) r) = Inr f \<and> df_eventId f = dd_eventId d \<and> df_messageId f = dd_eventId d"
proof -
  let ?kvs = "[(''event_id'', json_opt (dd_eventId d)), (''correlation_id'', JStr (dd_correlationId d)),
               (''reason'', JStr (dd_reason d)), (''attempts'', json_int (dd_attempts d)),
               (''payload'', JStr (dd_payload d))]"
  have body: "pub_body (toDeadLetter d) = JsonBody (JObj ?kvs)"
    by (simp add: toDeadLetter_def)
  with assms(1) have "representable (JObj ?kvs)" by (simp add: sendable_def)
  then have parsed: "json_parse (msg_content (deliver (toDeadLetter d) r)) = Some (JObj ?kvs)"
    by (rule json_body [OF body])
  have mid: "as_string (msg_messageId (deliver (toDeadLetter d) r)) = dd_eventId d"
    by (cases "dd_eventId d") (simp_all add: message_id)
  show ?thesis
    using assms(2)
    by (cases "dd_eventId d") (auto simp: dead_fields_of_def dlq_parse_def parsed mid json_opt_def Let_def)
qed

end

subsection \<open>Where an accepted event is\<close>

text \<open>
  The places in which an event may safely be: recorded as processed; kept as a dead letter an operator
  can replay; on its way there; in the hands of the broker as a message that continues it; or waiting in
  the work queue while the tables allow any delivery of it to act.
\<close>

definition work_queues :: "string set" where
  "work_queues = insert WORK_QUEUE (tier_queue ` set RETRY_TIERS)"

definition is_processed :: "string \<Rightarrow> system \<Rightarrow> bool" where
  "is_processed k s \<longleftrightarrow> (\<exists>row. events (sy_db s) k = Some row \<and> ev_status row = Processed)"

definition is_buried :: "string \<Rightarrow> system \<Rightarrow> bool" where
  "is_buried k s \<longleftrightarrow> (\<exists>r \<in> set (dlq (sy_db s)). dl_eventId r = Some k)"

definition is_dying :: "string \<Rightarrow> system \<Rightarrow> bool" where
  "is_dying k s \<longleftrightarrow> (\<exists>d f. (toDeadLetter d, f) \<in># sy_queues s DEAD_LETTER_QUEUE \<and> dd_eventId d = Some k)"

definition is_continued :: "(publication \<Rightarrow> bool \<Rightarrow> amqp_message) \<Rightarrow> string \<Rightarrow> system \<Rightarrow> bool" where
  "is_continued deliver k s \<longleftrightarrow>
     (\<exists>q \<in> work_queues. \<exists>p f. (p, f) \<in># sy_queues s q \<and> carries deliver k p \<and> is_continuation (deliver p f))"

definition is_waiting :: "(publication \<Rightarrow> bool \<Rightarrow> amqp_message) \<Rightarrow> string \<Rightarrow> system \<Rightarrow> bool" where
  "is_waiting deliver k s \<longleftrightarrow>
     (is_new (sy_db s) k \<or> lg_status (ledger_at (sy_db s) k) = Failed)
     \<and> (\<exists>p f. (p, f) \<in># sy_queues s WORK_QUEUE \<and> carries deliver k p)"

definition secured :: "(publication \<Rightarrow> bool \<Rightarrow> amqp_message) \<Rightarrow> string \<Rightarrow> system \<Rightarrow> bool" where
  "secured deliver k s \<longleftrightarrow>
     is_processed k s \<or> is_buried k s \<or> is_dying k s \<or> is_continued deliver k s \<or> is_waiting deliver k s"

text \<open>What every step keeps.\<close>

definition queues_ok :: "(publication \<Rightarrow> bool \<Rightarrow> amqp_message) \<Rightarrow> queues \<Rightarrow> bool" where
  "queues_ok deliver qs \<longleftrightarrow>
     (\<forall>q p f. (p, f) \<in># qs q \<longrightarrow> sendable p)
     \<and> (\<forall>p f. (p, f) \<in># qs DEAD_LETTER_QUEUE \<longrightarrow> (\<exists>d. p = toDeadLetter d \<and> dd_eventId d \<noteq> Some []))
     \<and> (\<forall>tier \<in> set RETRY_TIERS. \<forall>p f. (p, f) \<in># qs (tier_queue tier) \<longrightarrow> is_continuation (deliver p False))"

definition rows_ok :: "dlq_row list \<Rightarrow> bool" where
  "rows_ok rows \<longleftrightarrow> (\<forall>r \<in> set rows. \<forall>m. dl_messageId r = Some m \<longrightarrow> dl_eventId r = Some m)"

definition system_ok :: "(publication \<Rightarrow> bool \<Rightarrow> amqp_message) \<Rightarrow> system \<Rightarrow> bool" where
  "system_ok deliver s \<longleftrightarrow>
     queues_ok deliver (sy_queues s) \<and> rows_ok (dlq (sy_db s))
     \<and> (\<forall>k. k \<notin> sy_discarded s \<longrightarrow>
          (lg_status (ledger_at (sy_db s) k) = Dead \<longrightarrow> is_buried k s)
          \<and> (k \<in> sy_accepted s \<or> \<not> is_new (sy_db s) k \<longrightarrow> secured deliver k s))"


subsection \<open>Frames\<close>

lemma carries_unique: "carries deliver j p \<Longrightarrow> carries deliver k p \<Longrightarrow> j = k"
  by (simp add: carries_def)

lemma carries_read:
  assumes "wire deliver" and "sendable p" and "carries deliver k p"
    and "event_of c (msg_content (deliver p f)) = Some event"
  shows "he_eventId event = k"
  using wire.event_carries [OF assms(1,4,2)] assms(3) by (rule carries_unique)

lemma claim_frame:
  assumes "claimAndHandle pg maxAttempts handle event isContinuation s = (r, s')" and "j \<noteq> he_eventId event"
  shows "events s' j = events s j"
  using assms(1)
proof (cases rule: claim_cases)
  case (committed d)
  from body_refines(2) [OF committed(2) assms(2)] show ?thesis .
qed simp

lemma order_frame:
  assumes "order_handle w m s = (oc, es, t)"
    and "\<And>c event. event_of c (msg_content m) = Some event \<Longrightarrow> he_eventId event \<noteq> j"
  shows "events t j = events s j"
  using consume_outcome [OF assms(1)]
proof (cases rule: consume_cases)
  case (error event e es2)
  from claim_frame [OF error(2)] assms(2) [OF error(1)] show ?thesis by simp
next
  case (decided event d es2)
  from claim_frame [OF decided(2)] assms(2) [OF decided(1)] show ?thesis by simp
qed simp

lemma order_rows:
  assumes "order_handle w m s = (oc, es, t)"
  shows "dlq t = dlq s"
  using consume_outcome [OF assms]
proof (cases rule: consume_cases)
  case (error event e es2)
  from claim_ledger(3) [OF error(2)] show ?thesis .
next
  case (decided event d es2)
  from claim_ledger(3) [OF decided(2)] show ?thesis .
qed simp

text \<open>Queues that keep every message, possibly flagged, keep an event secured that the step leaves alone.\<close>

definition kept :: "queues \<Rightarrow> queues \<Rightarrow> bool" where
  "kept qs qs' \<longleftrightarrow> (\<forall>q p f. (p, f) \<in># qs q \<longrightarrow> (p, f) \<in># qs' q \<or> (p, True) \<in># qs' q)"

lemma keptI: "(\<And>q c. c \<in># qs q \<Longrightarrow> c \<in># qs' q) \<Longrightarrow> kept qs qs'"
  by (simp add: kept_def)

lemma kept_route_all [intro]: "kept qs (fold (route opts) ps qs)" and kept_route [intro]: "kept qs (route opts p qs)"
  by (rule keptI; simp)+

lemma put_back_keeps:
  "(a, g) \<in># qs j \<Longrightarrow> (a, g) \<in># put_back q p f qs j \<or> (a, True) \<in># put_back q p f qs j"
  by (cases "(a, g) = (p, f)") (auto dest: kept_copy [where d = "(p, f)"])

lemma kept_put_back [intro]: "kept qs (fold (route opts) ps (put_back q p f qs))" "kept qs (put_back q p f qs)"
  unfolding kept_def in_route_all using put_back_keeps by blast+

definition same_event :: "string \<Rightarrow> system \<Rightarrow> system \<Rightarrow> bool" where
  "same_event k s t \<longleftrightarrow> events (sy_db t) k = events (sy_db s) k \<and> (is_buried k s \<longrightarrow> is_buried k t)"

lemma same_event_simps:
  assumes "same_event k s t"
  shows "is_processed k t = is_processed k s" and "is_new (sy_db t) k = is_new (sy_db s) k"
    and "ledger_at (sy_db t) k = ledger_at (sy_db s) k"
  using assms by (simp_all add: same_event_def is_processed_def is_new_def ledger_at_def)

lemma secured_kept:
  assumes "wire deliver" and "secured deliver k s" and "same_event k s t" and "kept (sy_queues s) (sy_queues t)"
  shows "secured deliver k t"
proof -
  have dying: "is_dying k t" if "is_dying k s"
    using that assms(4) unfolding is_dying_def kept_def by metis
  have continued: "is_continued deliver k t" if "is_continued deliver k s"
    using that assms(4) wire.continuation_flag [OF assms(1)] unfolding is_continued_def kept_def by metis
  have waiting: "is_waiting deliver k t" if "is_waiting deliver k s"
    using that assms(4) same_event_simps [OF assms(3)] unfolding is_waiting_def kept_def by metis
  from assms(2,3) dying continued waiting same_event_simps(1) [OF assms(3)] show ?thesis
    by (auto simp: secured_def same_event_def)
qed

text \<open>Removing a message of another event from the work queue leaves an event secured too.\<close>

lemma secured_taken:
  assumes "secured deliver k s" and "same_event k s t" and "\<not> carries deliver k p"
    and "\<And>q c. c \<in># take_off WORK_QUEUE (p, f) (sy_queues s) q \<Longrightarrow> c \<in># sy_queues t q"
  shows "secured deliver k t"
proof -
  have other: "c \<in># sy_queues t q" if "c \<in># sy_queues s q" "c \<noteq> (p, f)" for q c
    using that kept_copy [of c "sy_queues s q" "(p, f)"] by (intro assms(4)) auto
  have dead: "c \<in># sy_queues t DEAD_LETTER_QUEUE" if "c \<in># sy_queues s DEAD_LETTER_QUEUE" for c
    using that by (intro assms(4)) (simp add: messaging_constants)
  have "is_dying k t" if "is_dying k s"
    using that dead unfolding is_dying_def by blast
  moreover have "is_continued deliver k t" if "is_continued deliver k s"
    using that other assms(3) unfolding is_continued_def by (metis prod.inject)
  moreover have "is_waiting deliver k t" if "is_waiting deliver k s"
    using that other assms(3) same_event_simps [OF assms(2)] unfolding is_waiting_def by (metis prod.inject)
  ultimately show ?thesis
    using assms(1,2) same_event_simps(1) [OF assms(2)] by (auto simp: secured_def same_event_def)
qed

subsection \<open>What is published, and where it goes\<close>

lemma queue_names [simp]:
  "WORK_QUEUE \<noteq> DEAD_LETTER_QUEUE" "DEAD_LETTER_QUEUE \<noteq> WORK_QUEUE"
  "tier \<in> set RETRY_TIERS \<Longrightarrow> tier_queue tier \<noteq> WORK_QUEUE"
  "tier \<in> set RETRY_TIERS \<Longrightarrow> tier_queue tier \<noteq> DEAD_LETTER_QUEUE"
  "tier \<in> set RETRY_TIERS \<Longrightarrow> WORK_QUEUE \<noteq> tier_queue tier"
  "tier \<in> set RETRY_TIERS \<Longrightarrow> DEAD_LETTER_QUEUE \<noteq> tier_queue tier"
  by (auto simp: messaging_constants RETRY_TIERS_def)

definition for_work :: "publication \<Rightarrow> bool" where
  "for_work p \<longleftrightarrow> pub_exchange p = WEBHOOK_EXCHANGE \<and> pub_routingKey p = ORDER_RECEIVED_ROUTING_KEY"

lemma for_work_simps [simp]:
  "for_work (order_publication event c token)" "for_work (poison_publication c)" "for_work (replay_publication p')"
  by (simp_all add: for_work_def order_publication_def poison_publication_def replay_publication_def)

lemma sendable_poison [simp]: "sendable (poison_publication c)"
  by (simp add: sendable_def poison_publication_def)

definition well_routed :: "publication \<Rightarrow> bool" where
  "well_routed p \<longleftrightarrow> for_work p \<or> (\<exists>event a. p = retry_publication event a)
     \<or> (\<exists>d. p = toDeadLetter d \<and> dd_eventId d \<noteq> Some [])"

lemma routed_for_work: "for_work p \<Longrightarrow> routed_to (rabbit_config demo get) (pub_exchange p) (pub_routingKey p) = [WORK_QUEUE]"
  by (simp add: for_work_def)

lemma well_routed_cases:
  assumes "well_routed p"
  obtains (work) "routed_to (rabbit_config demo get) (pub_exchange p) (pub_routingKey p) = [WORK_QUEUE]"
  | (retry) event a where "p = retry_publication event a"
      "routed_to (rabbit_config demo get) (pub_exchange p) (pub_routingKey p) = [tier_queue (retryTierForAttempt a)]"
  | (dead) d where "p = toDeadLetter d" "dd_eventId d \<noteq> Some []"
      "routed_to (rabbit_config demo get) (pub_exchange p) (pub_routingKey p) = [DEAD_LETTER_QUEUE]"
  using assms by (auto simp: well_routed_def dest: routed_for_work)

lemma queues_okD:
  assumes "queues_ok deliver qs"
  shows "(p, f) \<in># qs q \<Longrightarrow> sendable p"
    and "(p, f) \<in># qs DEAD_LETTER_QUEUE \<Longrightarrow> \<exists>d. p = toDeadLetter d \<and> dd_eventId d \<noteq> Some []"
    and "tier \<in> set RETRY_TIERS \<Longrightarrow> (p, f) \<in># qs (tier_queue tier) \<Longrightarrow> is_continuation (deliver p False)"
  using assms unfolding queues_ok_def by blast+

lemma queues_ok_insert:
  assumes "wire deliver" and "queues_ok deliver qs" and "sendable p" and "well_routed p"
  shows "queues_ok deliver (route (rabbit_config demo get) p qs)"
  using assms(4)
proof (cases rule: well_routed_cases [where demo = demo and get = get])
  case work
  with assms(2,3) show ?thesis by (simp add: queues_ok_def)
next
  case (retry event a)
  have "is_continuation (deliver p False)"
    by (rule wire.continuation_header [OF assms(1)]) (simp add: retry(1) retry_publication_def)
  with retry assms(2,3) show ?thesis by (auto simp: queues_ok_def)
next
  case (dead d)
  with assms(2,3) show ?thesis by (auto simp: queues_ok_def)
qed

lemma queues_ok_route_all:
  assumes "wire deliver" and "queues_ok deliver qs" and "\<forall>p \<in> set ps. sendable p \<and> well_routed p"
  shows "queues_ok deliver (fold (route (rabbit_config demo get)) ps qs)"
  using assms(2,3) by (induction ps arbitrary: qs) (simp_all add: queues_ok_insert [OF assms(1)])

lemma queues_ok_from:
  assumes "queues_ok deliver qs"
    and "\<And>q a g. (a, g) \<in># qs' q \<Longrightarrow> (\<exists>h. (a, h) \<in># qs q) \<or> q = WORK_QUEUE \<and> sendable a"
  shows "queues_ok deliver qs'"
  using assms(1) assms(2) [where q = DEAD_LETTER_QUEUE] assms(2) [where q = "tier_queue tier" for tier] assms(2)
  unfolding queues_ok_def by (metis queue_names)

lemma queues_ok_take_off: "queues_ok deliver qs \<Longrightarrow> queues_ok deliver (take_off q c qs)"
  by (erule queues_ok_from) (auto split: if_splits dest: in_diffD)

lemma queues_ok_put_back:
  "queues_ok deliver qs \<Longrightarrow> (p, f) \<in># qs q \<Longrightarrow> queues_ok deliver (put_back q p f qs)"
  by (erule queues_ok_from) (auto split: if_splits dest: in_diffD)

lemma order_publications:
  assumes "order_handle w m s = (oc, es, t)" and "p \<in> set (publications es)"
  shows "(\<exists>event a c. event_of c (msg_content m) = Some event \<and> p = retry_publication event a)
         \<or> (\<exists>d. p = toDeadLetter d \<and> dd_eventId d \<noteq> Some [])"
  using consume_outcome [OF assms(1)]
proof (cases rule: consume_cases)
  case unparseable
  from consume_unparseable_trace(4) [OF unparseable(3)] assms(2) show ?thesis by auto
next
  case (error event e es2)
  from event_of_key [OF error(1)] error(3,4) assms(2) show ?thesis
    by (auto simp: consume_error_def await_publish_eq split: if_splits)
next
  case (decided event d es2)
  from event_of_key [OF decided(1)] settle_decision_trace(4) [OF decided(3)] decided(1,4) assms(2) show ?thesis
    by (cases d) auto
qed

lemma order_well_routed: "order_handle w m s = (oc, es, t) \<Longrightarrow> p \<in> set (publications es) \<Longrightarrow> well_routed p"
  by (drule (1) order_publications) (auto simp: well_routed_def)

subsection \<open>One lemma per step\<close>

lemma system_okD:
  assumes "system_ok deliver s"
  shows "queues_ok deliver (sy_queues s)" and "rows_ok (dlq (sy_db s))"
    and "k \<notin> sy_discarded s \<Longrightarrow> lg_status (ledger_at (sy_db s) k) = Dead \<Longrightarrow> is_buried k s"
    and "k \<notin> sy_discarded s \<Longrightarrow> k \<in> sy_accepted s \<or> \<not> is_new (sy_db s) k \<Longrightarrow> secured deliver k s"
  using assms unfolding system_ok_def by blast+

lemma in_work_queues [simp]: "WORK_QUEUE \<in> work_queues" "tier_queue (retryTierForAttempt a) \<in> work_queues"
  by (simp_all add: work_queues_def)

text \<open>Messages put into the work queue without touching the tables: accepted orders, poison.\<close>

lemma step_posted:
  assumes "wire deliver" and "system_ok deliver s" and "\<forall>p \<in> set ps. sendable p \<and> for_work p"
    and "t = s\<lparr>sy_queues := fold (route (rabbit_config demo get)) ps (sy_queues s), sy_accepted := A\<rparr>"
    and "\<And>k. k \<in> A \<Longrightarrow> k \<in> sy_accepted s \<or> (\<exists>p \<in> set ps. carries deliver k p)"
  shows "system_ok deliver t"
proof -
  have same: "same_event k s t" for k by (simp add: same_event_def assms(4) is_buried_def)
  have kept: "secured deliver k t" if "secured deliver k s" for k
    by (rule secured_kept [OF assms(1) that same]) (auto simp: assms(4))
  have "secured deliver k t" if k: "k \<notin> sy_discarded s" "k \<in> A \<or> \<not> is_new (sy_db s) k" for k
  proof (cases "k \<in> sy_accepted s \<or> \<not> is_new (sy_db s) k")
    case True
    with system_okD(4) [OF assms(2) k(1)] kept show ?thesis by blast
  next
    case False
    then obtain p where p: "p \<in> set ps" "carries deliver k p" using k(2) assms(5) by blast
    then have "(p, False) \<in># sy_queues t WORK_QUEUE"
      using assms(3) routed_for_work [of p demo get] by (auto simp: assms(4))
    with p False show ?thesis by (auto simp: secured_def is_waiting_def assms(4))
  qed
  moreover have "queues_ok deliver (sy_queues t)"
    using queues_ok_route_all [OF assms(1) system_okD(1) [OF assms(2)]] assms(3) by (simp add: assms(4) well_routed_def)
  ultimately show ?thesis
    using system_okD(2,3) [OF assms(2)] by (simp add: system_ok_def assms(4) is_buried_def)
qed

lemma expiring_queue:
  assumes "d \<in> set (rmq_queues (rabbit_config demo get))" and "expires_to (rabbit_config demo get) d \<noteq> []"
  obtains tier where "tier \<in> set RETRY_TIERS" "q_name d = tier_queue tier"
    "expires_to (rabbit_config demo get) d = [WORK_QUEUE]"
proof -
  have "d \<in> retry_queue ` set RETRY_TIERS"
    using assms by (auto simp: rabbit_config_def expires_to_def)
  then show thesis
    by (auto simp: retry_queue_def expires_to_def intro!: that)
qed

lemma step_expired:
  assumes "wire deliver" and "system_ok deliver s" and "d \<in> set (rmq_queues (rabbit_config demo get))"
    and "expires_to (rabbit_config demo get) d \<noteq> []" and "(p, f) \<in># sy_queues s (q_name d)"
    and "t = s\<lparr>sy_queues := enqueue (expires_to (rabbit_config demo get) d) p (take_off (q_name d) (p, f) (sy_queues s))\<rparr>"
  shows "system_ok deliver t"
proof -
  obtain tier where tier: "tier \<in> set RETRY_TIERS" "q_name d = tier_queue tier"
    "expires_to (rabbit_config demo get) d = [WORK_QUEUE]"
    by (rule expiring_queue [OF assms(3,4)])
  note ok = system_okD(1) [OF assms(2)]
  have cont: "is_continuation (deliver p False)" using queues_okD(3) [OF ok tier(1)] assms(5) tier(2) by simp
  have moved: "(p, False) \<in># sy_queues t WORK_QUEUE" by (simp add: assms(6) tier)
  have stay: "c \<in># sy_queues t q" if "c \<in># sy_queues s q" "c \<noteq> (p, f) \<or> q \<noteq> tier_queue tier" for c q
    using that kept_copy [of c "sy_queues s q" "(p, f)"] by (auto simp: assms(6) tier)
  have stay_work: "c \<in># sy_queues t WORK_QUEUE" if "c \<in># sy_queues s WORK_QUEUE" for c
    by (rule stay [OF that]) (simp add: tier(1))
  have stay_dead: "c \<in># sy_queues t DEAD_LETTER_QUEUE" if "c \<in># sy_queues s DEAD_LETTER_QUEUE" for c
    by (rule stay [OF that]) (simp add: tier(1))
  have db: "sy_db t = sy_db s" by (simp add: assms(6))
  have kept: "secured deliver k t" if "secured deliver k s" for k
  proof -
    have "is_dying k t" if "is_dying k s"
      using that stay_dead unfolding is_dying_def by blast
    moreover have "is_waiting deliver k t" if "is_waiting deliver k s"
      using that stay_work unfolding is_waiting_def db by blast
    moreover have "is_continued deliver k t" if cnt: "is_continued deliver k s"
    proof -
      obtain q a g where a: "q \<in> work_queues" "(a, g) \<in># sy_queues s q" "carries deliver k a"
        "is_continuation (deliver a g)"
        using cnt unfolding is_continued_def by blast
      show ?thesis
      proof (cases "(a, g) = (p, f)")
        case True
        with moved cont a(3) show ?thesis unfolding is_continued_def by (metis in_work_queues(1) prod.inject)
      next
        case False
        with stay a show ?thesis unfolding is_continued_def by blast
      qed
    qed
    ultimately show ?thesis
      using that by (auto simp: secured_def is_processed_def is_buried_def assms(6))
  qed
  have "queues_ok deliver (sy_queues t)"
    using queues_okD(1) [OF ok assms(5)]
    by (intro queues_ok_from [OF ok]) (auto simp: assms(6) tier split: if_splits dest: in_diffD)
  with kept system_okD(2-4) [OF assms(2)] show ?thesis
    by (simp add: system_ok_def assms(6) is_buried_def)
qed

subsection \<open>A delivery of the work queue\<close>

lemma ledger_step_dead:
  "lg_status (snd (ledger_step maxAttempts handle event isNew isContinuation l)) = Dead \<Longrightarrow> lg_status l = Dead"
  by (cases "lg_status l") (auto simp: ledger_attempt_def Let_def split: if_splits sum.splits)

lemma ledger_step_ignored:
  assumes "ledger_step maxAttempts handle event isNew isContinuation l = (DDuplicate a, l')"
  shows "lg_status l = Processed \<or> lg_status l = Dead \<or> lg_status l \<noteq> Failed \<and> \<not> isNew \<and> \<not> isContinuation"
  using assms by (cases "lg_status l") (auto simp: ledger_attempt_def Let_def split: if_splits sum.splits)

lemma order_dead:
  assumes "order_handle w m s = (oc, es, t)" and "lg_status (ledger_at t k) = Dead"
  shows "lg_status (ledger_at s k) = Dead"
  using consume_outcome [OF assms(1)]
proof (cases rule: consume_cases)
  case (error event e es2)
  from claim_ledger(1) [OF error(2), of k] assms(2) ledger_step_dead show ?thesis by metis
next
  case (decided event d es2)
  from claim_ledger(1) [OF decided(2), of k] assms(2) ledger_step_dead show ?thesis by metis
qed (use assms(2) in simp)

lemma is_processed_ledger: "is_processed k s \<longleftrightarrow> \<not> is_new (sy_db s) k \<and> lg_status (ledger_at (sy_db s) k) = Processed"
  by (auto simp: is_processed_def is_new_def ledger_at_def split: option.splits)

text \<open>A delivery settled as a duplicate changes nothing that keeps the event safe.\<close>

lemma duplicate_secured:
  assumes "system_ok deliver s" and "k \<notin> sy_discarded s"
    and "lg_status (ledger_at (sy_db s) k) = Processed \<or> lg_status (ledger_at (sy_db s) k) = Dead
         \<or> lg_status (ledger_at (sy_db s) k) \<noteq> Failed \<and> \<not> is_new (sy_db s) k \<and> \<not> is_continuation (deliver p f)"
    and "lg_status (ledger_at (sy_db u) k) = lg_status (ledger_at (sy_db s) k)" and "\<not> is_new (sy_db u) k"
    and rows: "is_buried k s \<Longrightarrow> is_buried k u"
    and kept: "\<And>q c. c \<in># take_off WORK_QUEUE (p, f) (sy_queues s) q \<Longrightarrow> c \<in># sy_queues u q"
  shows "secured deliver k u"
  using assms(3)
proof (elim disjE conjE)
  assume "lg_status (ledger_at (sy_db s) k) = Processed"
  with assms(4,5) show ?thesis by (simp add: secured_def is_processed_ledger)
next
  assume "lg_status (ledger_at (sy_db s) k) = Dead"
  with system_okD(3) [OF assms(1,2)] rows show ?thesis by (simp add: secured_def)
next
  assume active: "lg_status (ledger_at (sy_db s) k) \<noteq> Failed" "\<not> is_new (sy_db s) k"
    and plain: "\<not> is_continuation (deliver p f)"
  have "is_processed k u" if "is_processed k s"
    using that assms(4,5) by (simp add: is_processed_ledger)
  moreover have "c \<in># sy_queues u DEAD_LETTER_QUEUE" if "c \<in># sy_queues s DEAD_LETTER_QUEUE" for c
    using that by (intro kept) simp
  then have "is_dying k u" if "is_dying k s"
    using that unfolding is_dying_def by blast
  moreover have "is_continued deliver k u" if cnt: "is_continued deliver k s"
  proof -
    obtain q a g where a: "q \<in> work_queues" "(a, g) \<in># sy_queues s q" "carries deliver k a"
      "is_continuation (deliver a g)"
      using cnt unfolding is_continued_def by blast
    then have "(a, g) \<noteq> (p, f)" using plain by blast
    with a(2) kept_copy [of "(a, g)" "sy_queues s q" "(p, f)"] have "(a, g) \<in># sy_queues u q"
      by (intro kept) auto
    with a show ?thesis unfolding is_continued_def by blast
  qed
  moreover have "\<not> is_waiting deliver k s" using active by (simp add: is_waiting_def)
  ultimately show ?thesis using system_okD(4) [OF assms(1,2)] active(2) rows by (auto simp: secured_def)
qed

text \<open>Whatever an acknowledged delivery of an event did, the event is somewhere safe afterwards.\<close>

lemma handled_secured:
  assumes "wire deliver" and "system_ok deliver s" and "(p, f) \<in># sy_queues s WORK_QUEUE"
    and "order_handle w (deliver p f) (sy_db s) = (Ack, es, t)" and "\<forall>q \<in> set (publications es). sendable q"
    and "u = s\<lparr>sy_db := t,
                sy_queues := fold (route (rabbit_config demo get)) (publications es) (take_off WORK_QUEUE (p, f) (sy_queues s))\<rparr>"
    and "carries deliver k p" and "k \<notin> sy_discarded s"
  shows "secured deliver k u"
proof -
  have dead: "is_dying k u" if "toDeadLetter d \<in> set (publications es)" "dd_eventId d = Some k" for d
    using that routed_to_dead [of demo get] unfolding is_dying_def by (force simp: assms(6))
  have db: "sy_db u = t" by (simp add: assms(6))
  have rows: "is_buried k u" if "is_buried k s"
    using that order_rows [OF assms(4)] by (simp add: is_buried_def assms(6))
  have key: "he_eventId event = k" if "event_of c (msg_content (deliver p f)) = Some event" for event c
    using carries_read [OF assms(1) queues_okD(1) [OF system_okD(1) [OF assms(2)] assms(3)] assms(7) that] .
  show ?thesis
    using consume_outcome [OF assms(4)]
  proof (cases rule: consume_cases)
    case unparseable
    with wire.carried_event [OF assms(1,7)] show ?thesis by (metis option.distinct(1))
  next
    case (error event e es2)
    with consume_error_trace(3) [OF error(3)] key [OF error(1)] dead show ?thesis
      by (auto simp: Let_def secured_def)
  next
    case (decided event d es2)
    note step = claim_ledger(4) [OF decided(2) refl, unfolded key [OF decided(1)]]
    note trace = settle_decision_trace(4) [OF decided(3)]
    show ?thesis
    proof (cases d)
      case (DProcessed a)
      from ledger_step_processed(3) [OF step [THEN conjunct1, unfolded DProcessed]] step have "is_processed k u"
        by (simp add: is_processed_ledger db)
      then show ?thesis by (simp add: secured_def)
    next
      case (DRetry a)
      let ?q = "retry_publication event a"
      have pub: "?q \<in> set (publications es)" using trace DRetry decided(4) by simp
      have "carries deliver k ?q"
        using event_of_key [OF decided(1)] key [OF decided(1)] assms(5) pub
        by (intro wire.body_carries [OF assms(1)]) (auto simp: retry_publication_def)
      moreover have "is_continuation (deliver ?q False)"
        by (rule wire.continuation_header [OF assms(1)]) (simp add: retry_publication_def)
      moreover have "(?q, False) \<in># sy_queues u (tier_queue (retryTierForAttempt a))"
        using pub by (force simp: assms(6))
      ultimately show ?thesis
        unfolding secured_def is_continued_def by (metis in_work_queues(2))
    next
      case (DDead a r)
      with trace decided(4) key [OF decided(1)] dead show ?thesis by (simp add: secured_def)
    next
      case (DDuplicate a)
      note dup = step [THEN conjunct1, unfolded DDuplicate]
      have "lg_status (ledger_at t k) = lg_status (ledger_at (sy_db s) k)"
        using ledger_step_duplicate(1) [OF dup] .
      moreover have "sy_queues u q = fold (route (rabbit_config demo get)) (publications es) (take_off WORK_QUEUE (p, f) (sy_queues s)) q" for q
        by (simp add: assms(6))
      ultimately show ?thesis
        using ledger_step_ignored [OF dup] step rows
        by (intro duplicate_secured [OF assms(2,8)]) (auto simp: db split: if_splits)
    qed
  qed
qed

lemma order_other:
  assumes "wire deliver" and "sendable p" and "\<not> carries deliver k p"
    and "order_handle w (deliver p f) s = (oc, es, t)"
  shows "events t k = events s k"
proof (rule order_frame [OF assms(4)])
  fix c event assume "event_of c (msg_content (deliver p f)) = Some event"
  from wire.event_carries [OF assms(1) this assms(2)] assms(3) show "he_eventId event \<noteq> k" by blast
qed

lemma subseq_in: "subseq xs ys \<Longrightarrow> x \<in> set xs \<Longrightarrow> x \<in> set ys"
  by (auto elim!: list_emb_set)

lemma step_handled:
  assumes "wire deliver" and "system_ok deliver s" and "(p, f) \<in># sy_queues s WORK_QUEUE"
    and "order_handle w (deliver p f) (sy_db s) = (Ack, es, t)" and "\<forall>q \<in> set (publications es). sendable q"
    and "u = s\<lparr>sy_db := t,
                sy_queues := fold (route (rabbit_config demo get)) (publications es) (take_off WORK_QUEUE (p, f) (sy_queues s))\<rparr>"
  shows "system_ok deliver u"
proof -
  have sendable: "sendable p" using queues_okD(1) [OF system_okD(1) [OF assms(2)] assms(3)] .
  have buried: "is_buried k u \<longleftrightarrow> is_buried k s" for k
    using order_rows [OF assms(4)] by (simp add: is_buried_def assms(6))
  have "secured deliver k u" if k: "k \<notin> sy_discarded s" "k \<in> sy_accepted s \<or> \<not> is_new t k" for k
  proof (cases "carries deliver k p")
    case True
    from handled_secured [OF assms True k(1)] show ?thesis .
  next
    case False
    note same = order_other [OF assms(1) sendable False assms(4)]
    with k have "secured deliver k s"
      by (intro system_okD(4) [OF assms(2)]) (auto simp: is_new_def)
    then show ?thesis
      by (rule secured_taken [OF _ _ False, where f = f])
        (use same buried in \<open>auto simp: same_event_def assms(6) split: if_splits\<close>)
  qed
  moreover have "queues_ok deliver (sy_queues u)"
    using assms(5) order_well_routed [OF assms(4)] queues_ok_take_off [OF system_okD(1) [OF assms(2)]]
    by (simp add: assms(6) queues_ok_route_all [OF assms(1)])
  ultimately show ?thesis
    using system_okD(2,3) [OF assms(2)] order_rows [OF assms(4)] order_dead [OF assms(4)] buried
    by (simp add: system_ok_def assms(6))
qed

lemma step_unacknowledged:
  assumes "wire deliver" and "system_ok deliver s" and "(p, f) \<in># sy_queues s WORK_QUEUE"
    and "order_handle w (deliver p f) (sy_db s) = (oc, es, t)" and "subseq ps (publications es)"
    and "\<forall>q \<in> set ps. sendable q" and "v = t \<or> v = sy_db s \<and> ps = []"
    and "u = s\<lparr>sy_db := v, sy_queues := fold (route (rabbit_config demo get)) ps (put_back WORK_QUEUE p f (sy_queues s))\<rparr>"
  shows "system_ok deliver u"
proof -
  have sendable: "sendable p" using queues_okD(1) [OF system_okD(1) [OF assms(2)] assms(3)] .
  have rows: "dlq v = dlq (sy_db s)" using assms(7) order_rows [OF assms(4)] by auto
  then have buried: "is_buried k u \<longleftrightarrow> is_buried k s" for k by (simp add: is_buried_def assms(8))
  have "secured deliver k u" if k: "k \<notin> sy_discarded s" "k \<in> sy_accepted s \<or> \<not> is_new v k" for k
  proof (cases "carries deliver k p")
    case True
    then have "is_continued deliver k u"
      using wire.continuation_flag [OF assms(1)] unfolding is_continued_def
      by (intro bexI [of _ WORK_QUEUE] exI [of _ p] exI [of _ True]) (auto simp: assms(8))
    then show ?thesis by (simp add: secured_def)
  next
    case False
    from order_other [OF assms(1) sendable False assms(4)] have same: "events v k = events (sy_db s) k"
      using assms(7) by auto
    then have "secured deliver k s"
      using k by (intro system_okD(4) [OF assms(2)]) (auto simp: is_new_def)
    then show ?thesis
      by (rule secured_kept [OF assms(1)]) (use same buried in \<open>auto simp: same_event_def assms(8)\<close>)
  qed
  moreover have "queues_ok deliver (sy_queues u)"
    using assms(5,6) order_well_routed [OF assms(4)] queues_ok_put_back [OF system_okD(1) [OF assms(2)] assms(3)]
    by (auto simp: assms(8) dest: subseq_in intro!: queues_ok_route_all [OF assms(1)])
  ultimately show ?thesis
    using system_okD(2,3) [OF assms(2)] rows order_dead [OF assms(4)] buried assms(7)
    by (auto simp: system_ok_def assms(8))
qed

subsection \<open>The dead-letter queue and the operator\<close>

lemma put_dlq_grows: "r \<in> set (dlq s) \<Longrightarrow> r \<in> set (dlq (put_dlq pg v s))"
  by (simp add: put_dlq_rows)

lemma buried_mono:
  assumes "\<And>r. r \<in> set (dlq (sy_db s)) \<Longrightarrow> \<exists>r' \<in> set (dlq (sy_db t)). dl_eventId r' = dl_eventId r" and "is_buried k s"
  shows "is_buried k t"
  using assms(2,1) unfolding is_buried_def by metis

text \<open>What handling a dead letter may do to the tables.\<close>

lemma dlq_handle_state:
  assumes "dlq_handle pg m s = (oc, n, t)" and "dead_fields_of m = Inr f"
  shows "t = s \<or> t = bury pg f s" and "oc = Ack \<Longrightarrow> t = bury pg f s"
  using assms(1) by (cases rule: dlq_handle_cases; use assms(2) in auto)+

lemma bury_ok:
  assumes "rows_ok (dlq s)" and "dead_fields_of m = Inr f" and "df_messageId f = df_eventId f"
  shows "rows_ok (dlq (bury pg f s))"
    and "df_eventId f = Some k \<Longrightarrow> \<exists>r \<in> set (dlq (bury pg f s)). dl_eventId r = Some k"
proof -
  have v: "dv_messageId (df_values f) = df_eventId f" "dv_eventId (df_values f) = df_eventId f"
    using dead_fields_values(1,2) [OF assms(2)] assms(3) by simp_all
  show ok: "rows_ok (dlq (bury pg f s))"
    using assms(1) v by (auto simp: rows_ok_def put_dlq_rows new_dlq_row_def)
  assume "df_eventId f = Some k"
  with put_dlq_conflict [of "df_values f" k pg s] v ok show "\<exists>r \<in> set (dlq (bury pg f s)). dl_eventId r = Some k"
    by (auto simp: rows_ok_def dlq_conflict_def list_ex_iff)
qed

lemma secured_unless_dying:
  assumes "secured deliver k s" and "same_event k s t" and "p = toDeadLetter d" and "dd_eventId d \<noteq> Some k"
    and "sy_queues t = take_off DEAD_LETTER_QUEUE (p, f) (sy_queues s)"
  shows "secured deliver k t"
proof -
  have "is_dying k t" if dying: "is_dying k s"
  proof -
    obtain d' g where d': "(toDeadLetter d', g) \<in># sy_queues s DEAD_LETTER_QUEUE" "dd_eventId d' = Some k"
      using dying unfolding is_dying_def by blast
    have "pub_messageId (toDeadLetter d') \<noteq> pub_messageId p" using d' assms(3,4) by simp
    then have "(toDeadLetter d', g) \<noteq> (p, f)" by auto
    with d' show ?thesis
      unfolding is_dying_def assms(5) by (auto dest: kept_copy [where d = "(p, f)"])
  qed
  moreover have work: "c \<in># sy_queues t q" if "c \<in># sy_queues s q" "q \<in> work_queues" for c q
    using that by (auto simp: assms(5) work_queues_def)
  have "is_continued deliver k t" if "is_continued deliver k s"
    using that work unfolding is_continued_def by blast
  moreover have "is_waiting deliver k t" if "is_waiting deliver k s"
    using that work [OF _ in_work_queues(1)] same_event_simps [OF assms(2)] unfolding is_waiting_def by metis
  ultimately show ?thesis
    using assms(1,2) same_event_simps(1) [OF assms(2)] by (auto simp: secured_def same_event_def)
qed

text \<open>
  A run over a dead letter that leaves the queues with everything but, when acknowledged, the dead
  letter itself.
\<close>

lemma step_dead:
  assumes "wire deliver" and "system_ok deliver s" and "(p, f) \<in># sy_queues s DEAD_LETTER_QUEUE"
    and "dlq_handle pg (deliver p f) (sy_db s) = (oc, n, t)" and "v = t \<or> v = sy_db s"
    and "u = s\<lparr>sy_db := v, sy_queues := Q\<rparr>" and "queues_ok deliver Q"
    and "kept (sy_queues s) Q \<or> v = t \<and> oc = Ack \<and> Q = take_off DEAD_LETTER_QUEUE (p, f) (sy_queues s)"
  shows "system_ok deliver u"
proof -
  note ok = system_okD [OF assms(2)]
  obtain d where d: "p = toDeadLetter d" "dd_eventId d \<noteq> Some []"
    using queues_okD(2) [OF ok(1) assms(3)] by blast
  obtain fl where fl: "dead_fields_of (deliver p f) = Inr fl" "df_eventId fl = dd_eventId d" "df_messageId fl = df_eventId fl"
    using wire.dead_letter_ids [OF assms(1) _ d(2), of f] queues_okD(1) [OF ok(1) assms(3)] d(1) by auto
  have v: "v = sy_db s \<or> v = bury pg fl (sy_db s)"
    using assms(5) dlq_handle_state(1) [OF assms(4) fl(1)] by blast
  have grows: "is_buried k u" if "is_buried k s" for k
    using that v put_dlq_grows by (auto intro!: buried_mono [OF _ that] simp: assms(6))
  have own: "is_buried k u" if "v = bury pg fl (sy_db s)" "dd_eventId d = Some k" for k
    using that bury_ok(2) [OF ok(2) fl(1,3)] fl(2) by (simp add: is_buried_def assms(6))
  have other: "events v k = events (sy_db s) k" if "dd_eventId d \<noteq> Some k" for k
    using v that fl(2) by auto
  have dead: "is_buried k u" if "k \<notin> sy_discarded s" "lg_status (ledger_at v k) = Dead" for k
  proof (cases "v = bury pg fl (sy_db s) \<and> dd_eventId d = Some k")
    case False
    then have "events v k = events (sy_db s) k" using v other by metis
    with ok(3) [OF that(1)] that(2) grows show ?thesis by (simp add: ledger_at_def)
  qed (use own in blast)
  have "secured deliver k u" if k: "k \<notin> sy_discarded s" "k \<in> sy_accepted s \<or> \<not> is_new v k" for k
  proof (cases "v = bury pg fl (sy_db s) \<and> dd_eventId d = Some k")
    case True
    with own show ?thesis by (simp add: secured_def)
  next
    case False
    then have same: "events v k = events (sy_db s) k" using v other by metis
    with k have old: "secured deliver k s" by (intro ok(4)) (auto simp: is_new_def)
    have se: "same_event k s u" using same grows by (simp add: same_event_def assms(6))
    from assms(8) show ?thesis
    proof
      assume "kept (sy_queues s) Q"
      with secured_kept [OF assms(1) old se] show ?thesis by (simp add: assms(6))
    next
      assume taken: "v = t \<and> oc = Ack \<and> Q = take_off DEAD_LETTER_QUEUE (p, f) (sy_queues s)"
      with dlq_handle_state(2) [OF assms(4) fl(1)] False have not_mine: "dd_eventId d \<noteq> Some k" by blast
      show ?thesis
        by (rule secured_unless_dying [OF old se d(1) not_mine, where f = f]) (simp add: assms(6) taken)
    qed
  qed
  moreover have "rows_ok (dlq v)" using v ok(2) bury_ok(1) [OF ok(2) fl(1,3)] by auto
  ultimately show ?thesis using dead assms(7) by (simp add: system_ok_def assms(6))
qed

lemma redriven_rows:
  "r \<in> set (dlq s) \<Longrightarrow> \<exists>r' \<in> set (dlq (redriven pg now i k s)). dl_eventId r' = dl_eventId r"
  by (intro bexI [of _ "if dl_id r = i then r\<lparr>dl_replayedAt := Some now\<rparr> else r"]) (auto simp: stamp_replayed_def)

lemma replayable_row:
  assumes "replayable i s = Some p"
  shows "\<exists>r \<in> set (dlq s). dl_eventId r = Some (pr_eventId p)"
  using assms
  by (auto simp: replayable_def dead_row_def find_Some_iff split: option.splits if_splits sum.splits elim!: truthy_strE)

lemma step_replayed:
  assumes "wire deliver" and "system_ok deliver s" and "replay pg now confirm i (sy_db s) = (r, ps, t)"
    and "\<forall>q \<in> set ps. sendable q" and "qs = ps \<or> qs = []"
    and "u = s\<lparr>sy_db := t, sy_queues := fold (route (rabbit_config demo get)) qs (sy_queues s)\<rparr>"
  shows "system_ok deliver u"
proof -
  note ok = system_okD [OF assms(2)]
  have t: "t = sy_db s \<or> (\<exists>p. replayable i (sy_db s) = Some p \<and> t = redriven pg now i (pr_eventId p) (sy_db s))"
    using assms(3) by (cases rule: replay_cases) auto
  have ps: "q \<in> set ps \<Longrightarrow> for_work q" for q
    using assms(3) by (cases rule: replay_cases) auto
  have grows: "is_buried k u" if "is_buried k s" for k
    using t redriven_rows by (intro buried_mono [OF _ that]) (auto simp: assms(6))
  have reset: "is_buried k u \<or> events t k = events (sy_db s) k" for k
  proof (cases "events t k = events (sy_db s) k")
    case False
    with t obtain p where "replayable i (sy_db s) = Some p" "pr_eventId p = k" by (auto split: if_splits)
    with replayable_row have "is_buried k s" by (auto simp: is_buried_def)
    with grows show ?thesis by blast
  qed simp
  have "rows_ok (dlq t)"
    using t ok(2) by (auto simp: rows_ok_def stamp_replayed_def)
  moreover have "is_buried k u" if "k \<notin> sy_discarded s" "lg_status (ledger_at t k) = Dead" for k
    using reset [of k] ok(3) [OF that(1)] that(2) grows by (auto simp: ledger_at_def)
  moreover have "secured deliver k u" if k: "k \<notin> sy_discarded s" "k \<in> sy_accepted s \<or> \<not> is_new t k" for k
  proof (cases "is_buried k u")
    case True
    then show ?thesis by (simp add: secured_def)
  next
    case False
    with reset have same: "events t k = events (sy_db s) k" by blast
    with k have "secured deliver k s" by (intro ok(4)) (auto simp: is_new_def)
    then show ?thesis
      by (rule secured_kept [OF assms(1)]) (use same grows in \<open>auto simp: same_event_def assms(6)\<close>)
  qed
  moreover have "queues_ok deliver (sy_queues u)"
    using assms(4,5) ps ok(1) by (auto simp: assms(6) well_routed_def intro!: queues_ok_route_all [OF assms(1)])
  ultimately show ?thesis by (simp add: system_ok_def assms(6))
qed

lemma discard_state:
  assumes "discard pg i s = (r, t)"
  shows "events t = events s" and "set (dlq t) \<subseteq> set (dlq s)"
proof -
  have "events (snd (transaction pg (delete_dlq pg i) s)) = events s
        \<and> set (dlq (snd (transaction pg (delete_dlq pg i) s))) \<subseteq> set (dlq s)"
    by (rule transaction_preserves) (auto simp: delete_dlq_def run_stmt_def split: option.splits)
  moreover have "t = snd (transaction pg (delete_dlq pg i) s)"
    using assms by (auto simp: discard_def split: prod.splits sum.splits if_splits)
  ultimately show "events t = events s" and "set (dlq t) \<subseteq> set (dlq s)" by simp_all
qed

lemma step_discarded:
  assumes "wire deliver" and "system_ok deliver s" and "discard pg i (sy_db s) = (r, t)"
    and "u = s\<lparr>sy_db := t, sy_discarded := sy_discarded s
                 \<union> {k. \<exists>row \<in> set (dlq (sy_db s)) - set (dlq t). dl_eventId row = Some k}\<rparr>"
  shows "system_ok deliver u"
proof -
  note ok = system_okD [OF assms(2)] and t = discard_state [OF assms(3)]
  have buried: "is_buried k u" if "k \<notin> sy_discarded u" "is_buried k s" for k
    using that by (auto simp: is_buried_def assms(4))
  have old: "k \<notin> sy_discarded s" if "k \<notin> sy_discarded u" for k
    using that by (simp add: assms(4))
  have same: "is_new t k = is_new (sy_db s) k" "ledger_at t k = ledger_at (sy_db s) k" for k
    using t(1) by (simp_all add: is_new_def ledger_at_def)
  have dead: "is_buried k u" if "k \<notin> sy_discarded u" "lg_status (ledger_at t k) = Dead" for k
    using ok(3) [OF old] buried that by (simp add: same)
  have sec: "secured deliver k u" if "k \<notin> sy_discarded u" "k \<in> sy_accepted s \<or> \<not> is_new t k" for k
  proof (rule secured_kept [OF assms(1)])
    show "secured deliver k s" using ok(4) [OF old] that by (simp add: same)
    show "same_event k s u" using buried [OF that(1)] t(1) by (simp add: same_event_def assms(4))
    show "kept (sy_queues s) (sy_queues u)" by (simp add: kept_def assms(4))
  qed
  have rows: "rows_ok (dlq t)" using ok(2) t(2) unfolding rows_ok_def by blast
  show ?thesis
    unfolding system_ok_def using ok(1) rows dead sec by (simp add: assms(4))
qed

subsection \<open>Properties\<close>

lemma order_carries:
  assumes "wire deliver" and "validation_pipe accept" and "accept OrderWebhookDto body" and "order_dto body = Some event"
    and "sendable (order_publication event c token)"
  shows "carries deliver (ow_event_id event) (order_publication event c token)"
proof -
  have "ow_event_id event \<noteq> []"
    by (rule validation_pipe.accepted_order [OF assms(2,3)]) (use assms(4) in auto)
  with assms(5) show ?thesis
    by (intro wire.body_carries [OF assms(1)]) (auto simp: order_publication_def)
qed

lemma system_step_ok:
  assumes "wire deliver" and "system_step deliver (rabbit_config demo get) s t" and "system_ok deliver s"
  shows "system_ok deliver t"
  using assms(2)
proof cases
  case (accepted throttle g accept env uuid now hs rawBody body store answer event p)
  note sent = order_carries [OF assms(1) accepted(3) rabbit.post_accepted(2) [OF accepted(2)] accepted(4)]
  show ?thesis
    by (rule step_posted [OF assms(1,3), where ps = "[p]" and A = "insert (ow_event_id event) (sy_accepted s)"])
      (use accepted sent in auto)
next
  case (unconfirmed accept body event p c token)
  show ?thesis
    by (rule step_posted [OF assms(1,3), where ps = "[p]" and A = "sy_accepted s"]) (use unconfirmed in auto)
next
  case (poisoned demo' publish uuid store r ps)
  show ?thesis
    by (rule step_posted [OF assms(1,3), where ps = ps and A = "sy_accepted s"])
      (use poisoned in \<open>auto simp: poison_inject_def Let_def split: if_splits\<close>)
next
  case (expired d p f)
  show ?thesis by (rule step_expired [OF assms(1,3) expired(2,3,4,1)])
next
  case (handled p f w es t')
  show ?thesis by (rule step_handled [OF assms(1,3) handled(2,3,4,1)])
next
  case (unacknowledged p f w oc es t' ps u)
  show ?thesis by (rule step_unacknowledged [OF assms(1,3) unacknowledged(2-6,1)])
next
  case (buried p f pg n t')
  show ?thesis
    by (rule step_dead [OF assms(1,3) buried(2,3) _ buried(1)]) (use queues_ok_take_off system_okD(1) [OF assms(3)] in auto)
next
  case (unburied p f pg oc n t' u)
  show ?thesis
    by (rule step_dead [OF assms(1,3) unburied(2,3,4,1)])
      (use queues_ok_put_back [OF system_okD(1) [OF assms(3)] unburied(2)] in auto)
next
  case (replayed pg now confirm i r ps t' qs)
  show ?thesis by (rule step_replayed [OF assms(1,3) replayed(2,3) _ replayed(1)]) (use replayed(4) in auto)
next
  case (discarded pg i r t')
  show ?thesis by (rule step_discarded [OF assms(1,3) discarded(2,1)])
qed

lemma initial_ok: "system_ok deliver initial_system"
  by (simp add: system_ok_def initial_system_def queues_ok_def rows_ok_def fresh_ledger_def)

lemma reachable_ok:
  assumes "wire deliver" and "reachable deliver (rabbit_config demo get) s"
  shows "system_ok deliver s"
  using assms(2) by induction (use initial_ok system_step_ok [OF assms(1)] in blast)+


text \<open>The system after the sample order was posted.\<close>

definition posted_system :: system where
  "posted_system = initial_system\<lparr>
     sy_queues := route (rabbit_config True (\<lambda>_. None)) (order_publication sample_order ''corr-1'' ''t-1'') (sy_queues initial_system),
     sy_accepted := {''evt-1''}\<rparr>"

lemma sample_sendable: "sendable (order_publication sample_order ''corr-1'' ''t-1'')"
  using sample_carried
  by (simp add: sendable_def order_publication_def sample_order_def representable_obj event_carried_def sample_event_def)

lemma posted_reachable: "reachable amqp_deliver (rabbit_config True (\<lambda>_. None)) posted_system"
proof -
  obtain g hs where post: "post_orders (\<lambda>_. Inr ()) g meets (rabbit_publish (sample_channel [], Map.empty)) ''u'' 1700000123456
      hs ''{}'' sample_body (Some ''corr-1'') = Inr (''corr-1'', ''accepted'')"
    using sample_post by blast
  have "system_step amqp_deliver (rabbit_config True (\<lambda>_. None)) initial_system posted_system"
    using accepted [OF post class_validator.validation_pipe_axioms, of sample_order _ amqp_deliver
        "rabbit_config True (\<lambda>_. None)" initial_system] sample_body_dto sample_sendable
    by (simp add: sample_body_def posted_system_def sample_channel_def)
      (simp add: sample_order_def initial_system_def)
  with start show ?thesis by (rule step)
qed


subsection \<open>No dead ends\<close>

text \<open>The event that a message carries fits the columns of the table.\<close>

definition storable :: "(publication \<Rightarrow> bool \<Rightarrow> amqp_message) \<Rightarrow> string \<Rightarrow> publication \<Rightarrow> bool" where
  "storable deliver uuid p \<longleftrightarrow>
     (\<forall>f event. event_of (correlationOf uuid (deliver p f) (msg_content (deliver p f))) (msg_content (deliver p f)) = Some event
        \<longrightarrow> schema_error (InsertEvent (claim_values event)) = None)"

lemma noop_outcome:
  assumes "ledger_step maxAttempts NoopOrderHandler_handle event isNew isContinuation l = (d, l')"
    and "isNew \<or> isContinuation" and "lg_status l \<noteq> Failed"
  shows "(\<exists>a. d = DProcessed a) \<and> lg_status l' = Processed
         \<or> (\<exists>a. d = DDuplicate a) \<and> lg_status l' = lg_status l \<and> (lg_status l = Processed \<or> lg_status l = Dead)"
  using assms by (cases "lg_status l") (auto simp: ledger_attempt_def NoopOrderHandler_handle_def Let_def)

text \<open>A message that continues its event, or is the first of a new one, settles it when the handler succeeds.\<close>

lemma delivery_settles:
  assumes "wire deliver" and "system_ok deliver s" and "k \<notin> sy_discarded s"
    and "(p, f) \<in># sy_queues s WORK_QUEUE" and "carries deliver k p"
    and "is_continuation (deliver p f) \<or> is_new (sy_db s) k"
    and "lg_status (ledger_at (sy_db s) k) \<noteq> Failed"
    and "0 \<le> lg_attempts (ledger_at (sy_db s) k)" and "lg_attempts (ledger_at (sy_db s) k) < 2 ^ 31 - 1"
    and "storable deliver (wk_uuid (calm_worker NoopOrderHandler_handle)) p"
  shows "\<exists>u. system_step deliver (rabbit_config demo get) s u \<and> (is_processed k u \<or> is_buried k u)"
proof -
  let ?w = "calm_worker NoopOrderHandler_handle" and ?m = "deliver p f"
  let ?c = "correlationOf (wk_uuid ?w) ?m (msg_content ?m)"
  obtain event where event: "event_of ?c (msg_content ?m) = Some event" "he_eventId event = k"
    using wire.carried_event [OF assms(1,5)] by blast
  have "pg_ready calm_pg NoopOrderHandler_handle event"
    using assms(10) event(1) by (simp add: pg_ready_def storable_def NoopOrderHandler_handle_def)
  from claim_total [OF this, where s = "sy_db s" and maxAttempts = "Fin 4" and isContinuation = "is_continuation ?m"]
  obtain d t where t: "claimAndHandle calm_pg (Fin 4) NoopOrderHandler_handle event (is_continuation ?m) (sy_db s) = (Inr d, t)"
    using assms(8,9) event(2) by blast
  note ledger = claim_ledger(4) [OF t refl, unfolded event(2)]
  note outcome = noop_outcome [OF ledger [THEN conjunct1] _ assms(7)]
  have d: "(\<exists>a. d = DProcessed a) \<or> (\<exists>a. d = DDuplicate a)"
    using outcome assms(6) by blast
  obtain oc es where run: "order_handle ?w ?m (sy_db s) = (oc, es, t)" "oc = Ack" "publications es = []"
    using d event(1) t
    by (auto simp: order_handle_def consume_def processor_process_def calm_worker_def settle_decision_def Let_def)
  define u where "u = s\<lparr>sy_db := t, sy_queues := take_off WORK_QUEUE (p, f) (sy_queues s)\<rparr>"
  have "system_step deliver (rabbit_config demo get) s u"
    using handled [OF assms(4), where deliver = deliver and w = ?w and t = t and opts = "rabbit_config demo get"] run
    by (simp add: u_def)
  moreover have "is_processed k u \<or> is_buried k u"
  proof (cases "lg_status (ledger_at t k) = Processed")
    case True
    with ledger show ?thesis by (simp add: is_processed_ledger u_def)
  next
    case False
    with outcome assms(6) have "lg_status (ledger_at (sy_db s) k) = Dead" by auto
    from system_okD(3) [OF assms(2,3) this] order_rows [OF run(1)] show ?thesis
      by (simp add: is_buried_def u_def)
  qed
  ultimately show ?thesis by blast
qed


lemma sample_order_read:
  "event_of (correlationOf uuid (amqp_deliver (order_publication sample_order ''corr-1'' ''t-1'') f) raw)
     (msg_content (amqp_deliver (order_publication sample_order ''corr-1'' ''t-1'') f)) = Some (sample_event (JObj []))"
proof -
  let ?p = "order_publication sample_order ''corr-1'' ''t-1''"
  have body: "pub_body ?p = JsonBody (JObj [(''event_id'', JStr ''evt-1''), (''event_type'', JStr ''order.created''),
      (''payload'', JObj []), (''correlation_id'', JStr ''corr-1'')])"
    by (simp add: order_publication_def sample_order_def)
  with sample_sendable have "representable (JObj [(''event_id'', JStr ''evt-1''), (''event_type'', JStr ''order.created''),
      (''payload'', JObj []), (''correlation_id'', JStr ''corr-1'')])"
    by (simp add: sendable_def)
  note read = wire.parsed_field_delivered [OF wire_amqp_deliver body this]
  have "correlationOf uuid (amqp_deliver ?p f) raw = ''corr-1''"
    by (rule wire.correlationOf_delivered [OF wire_amqp_deliver]) (simp_all add: order_publication_def)
  then show ?thesis by (simp add: event_of_def read sample_event_def)
qed


subsection \<open>A late dead letter\<close>

text \<open>C13. A late dead letter wins: when a dead letter that is already in the table is delivered once more
  (its first delivery committed, the acknowledgement was lost) after its event was replayed and processed,
  handling it leaves the dead letters as they are and sets the event back to dead; the success is no
  longer recorded.\<close>

theorem late_dead_letter_overrides_success:
  assumes "wire deliver" and "sendable (toDeadLetter d)" and "dd_eventId d = Some k" and "k \<noteq> []"
    and "has_dead_letter s k" and "events s k \<noteq> None" and "lg_status (ledger_at s k) = Processed"
    and "dlq_handle pg (deliver (toDeadLetter d) True) s = (Ack, n, t)"
  shows "lg_status (ledger_at t k) = Dead \<and> dlq t = dlq s"
proof -
  obtain f where f: "dead_fields_of (deliver (toDeadLetter d) True) = Inr f" "df_eventId f = Some k" "df_messageId f = Some k"
    using wire.dead_letter_ids [OF assms(1,2), of True] assms(3,4) by auto
  have "dv_messageId (df_values f) = Some k" using dead_fields_values(1) [OF f(1)] f(3) by simp
  with assms(5) have "put_dlq pg (df_values f) s = s" by (simp add: put_dlq_def dlq_conflict_Some)
  moreover have "t = bury pg f s" using dlq_handle_state(2) [OF assms(8) f(1)] by simp
  ultimately show ?thesis
    using assms(6) f(2) by (auto simp: ledger_at_def dead_patch_def)
qed

definition processed_again_db :: db where
  "processed_again_db =
     \<lparr>events = [''evt-1'' \<mapsto> apply_patch calm_pg processed_patch (new_event calm_pg (claim_values (sample_event (JObj []))))],
      dlq = [new_dlq_row calm_pg (df_values (dead_fields_expected sample_dead))]\<rparr>"

theorem late_dead_letter_overrides_success_witness:
  "\<exists>t. dlq_handle calm_pg (amqp_deliver (toDeadLetter sample_dead) True) processed_again_db = (Ack, 1, t)
     \<and> lg_status (ledger_at processed_again_db ''evt-1'') = Processed \<and> lg_status (ledger_at t ''evt-1'') = Dead"
proof -
  let ?m = "amqp_deliver (toDeadLetter sample_dead) True" and ?s = processed_again_db
  have read: "dead_fields_of ?m = Inr (dead_fields_expected sample_dead)"
    by (rule dead_letter_read_back [OF wire_amqp_deliver sample_dead_carried])
  have sendable: "sendable (toDeadLetter sample_dead)"
    using sample_dead_carried representable_int [of 4]
    by (simp add: sendable_def toDeadLetter_def representable_obj dead_carried_def json_int_def sample_dead_def)
  have run: "\<exists>t. dlq_handle calm_pg ?m ?s = (Ack, 1, t)"
    using sample_dead_fits
    by (simp add: dlq_handle_def read transaction_def dlq_body_run) (simp add: dead_fields_expected_def sample_dead_def)
  have stored: "has_dead_letter ?s ''evt-1''" "events ?s ''evt-1'' \<noteq> None" "lg_status (ledger_at ?s ''evt-1'') = Processed"
    by (simp_all add: has_dead_letter_def processed_again_db_def new_dlq_row_def dead_fields_expected_def sample_dead_def
        ledger_at_def processed_patch_def)
  from run obtain t where t: "dlq_handle calm_pg ?m ?s = (Ack, 1, t)" by blast
  from late_dead_letter_overrides_success [OF wire_amqp_deliver sendable _ _ stored t] t stored show ?thesis
    by (simp add: sample_dead_def)
qed

text \<open>
  The worker's \<open>dead\<close> stage is announced before the dead letter is recorded: whatever the order handler does,
  emitting that stage included, every page of \<open>GET /dlq\<close> answers as before it ran, and goes on to until the
  dead-letter consumer has stored the row.
\<close>

theorem dead_announced_before_recorded:
  "dlq_list order page limit (snd (snd (order_handle w m s))) = dlq_list order page limit s"
proof -
  obtain oc es s' where run: "consume w (correlationOf (wk_uuid w) m (msg_content m)) (msg_content m) m s = (oc, es, s')"
    using prod_cases3 by blast
  hence "dlq s' = dlq s"
    by (cases rule: consume_cases) (auto dest: claim_ledger(3))
  thus ?thesis using run by (simp add: order_handle_def Let_def dlq_list_def)
qed

end
