(* ===== verification/Bootstrap.thy ===== *)
theory Bootstrap
  imports Replay Webhooks
begin

text \<open>
  How a process starts and stops (\<open>src/src/main.ts\<close>): the calls \<open>bootstrapApi\<close> and \<open>bootstrapWorker\<close> make
  on the framework, in order, with any of them failing; the worker's wait for a signal; and the exit
  code. \<open>respond\<close> is what the framework answers to a call; \<open>process_env\<close> is \<open>process.env\<close>.
\<close>

subsection \<open>The calls\<close>

record cors_options =
  co_origin :: string
  co_methods :: "string list"
  co_allowedHeaders :: "string list"
  co_exposedHeaders :: "string list"

record docs_options =
  do_title :: string
  do_description :: string
  do_version :: string
  do_apiKeyHeader :: string
  do_apiKeyName :: string

datatype app_call =
    CreateApp bool bool
  | CreateContext bool
  | UseJsonLogger
  | UseJsonBodyParser string
  | EnableCors cors_options
  | SetupDocs string docs_options
  | EnableShutdownHooks
  | Listen jsnum
  | StartMetricsServer jsnum
  | LogStarted string jsnum
  | CloseMetricsServer
  | CloseApp

definition demo_cors :: "(string \<Rightarrow> string option) \<Rightarrow> cors_options" where
  "demo_cors process_env =
     \<lparr>co_origin = demoWebOrigin (process_env ''DEMO_WEB_ORIGIN''),
      co_methods = [''GET'', ''POST'', ''DELETE'', ''OPTIONS''],
      co_allowedHeaders = [''content-type'', ''x-signature'', ''x-timestamp'', ''x-correlation-id'', ''x-admin-key''],
      co_exposedHeaders = [''x-correlation-id'']\<rparr>"

definition docs_config :: docs_options where
  "docs_config =
     \<lparr>do_title = ''Async webhook ingestion'',
      do_description =
        ''Signed webhook intake with asynchronous processing. '' @
        ''POST /webhooks/orders is HMAC-authenticated: the x-signature header must '' @
        ''carry a hex HMAC-SHA256 of '' @ [CHR 0x22] @ ''timestamp.rawBody'' @ [CHR 0x22] @ '' using the shared secret, '' @
        ''with the unix timestamp in x-timestamp. '' @ [CHR 0x22] @ ''Try it out'' @ [CHR 0x22] @ '' therefore returns '' @
        ''401 unless the signature is computed by a real client; see the signed '' @
        ''curl example in the README or bench/latency-smoke.mjs. '' @
        ''DLQ endpoints require the x-admin-key header.'',
      do_version = ''0.1.0'', do_apiKeyHeader = ''x-admin-key'',
      do_apiKeyName = ''admin-key''\<rparr>"

text \<open>\<open>bootstrapApi\<close>\<close>

definition api_calls :: "(string \<Rightarrow> string option) \<Rightarrow> jsnum \<Rightarrow> app_call list" where
  "api_calls process_env port =
     [CreateApp True True, UseJsonLogger,
      UseJsonBodyParser (nullish (process_env ''WEBHOOK_BODY_LIMIT'') ''100kb'')]
     @ (if isDemoMode (process_env ''DEMO_MODE'') then [EnableCors (demo_cors process_env)] else [])
     @ [SetupDocs ''docs'' docs_config, EnableShutdownHooks, Listen port, LogStarted ''API listening on port '' port]"

text \<open>\<open>bootstrapWorker\<close> up to its wait, and after it\<close>

definition worker_calls :: "jsnum \<Rightarrow> app_call list" where
  "worker_calls metricsPort =
     [CreateContext True, UseJsonLogger, EnableShutdownHooks, StartMetricsServer metricsPort,
      LogStarted ''Worker role started; consuming the work and dead-letter queues, metrics on port '' metricsPort]"

definition worker_shutdown :: "app_call list" where
  "worker_shutdown = [CloseMetricsServer, CloseApp]"

text \<open>Calls one after the other; the first that throws is the last one made.\<close>

fun run_calls :: "(app_call \<Rightarrow> unit result) \<Rightarrow> app_call list \<Rightarrow> unit result \<times> app_call list" where
  "run_calls respond [] = (Inr (), [])"
| "run_calls respond (c # cs) = (case respond c of
       Inl e \<Rightarrow> (Inl e, [c])
     | Inr _ \<Rightarrow> (let (r, made) = run_calls respond cs in (r, c # made)))"

subsection \<open>The worker's wait\<close>

datatype signal = SIGTERM | SIGINT | OtherSignal string

record signal_wait =
  sw_listeners :: "signal list"
  sw_keepAlive :: bool
  sw_resolved :: bool

definition wait_start :: signal_wait where
  "wait_start = \<lparr>sw_listeners = [SIGTERM, SIGINT], sw_keepAlive = True, sw_resolved = False\<rparr>"

text \<open>\<open>stop\<close>, through a listener registered with \<open>once\<close>\<close>

definition on_signal :: "signal \<Rightarrow> signal_wait \<Rightarrow> signal_wait" where
  "on_signal sig s =
     (if sig \<in> set (sw_listeners s)
      then s\<lparr>sw_listeners := remove1 sig (sw_listeners s), sw_keepAlive := False, sw_resolved := True\<rparr>
      else s)"

subsection \<open>The process\<close>

datatype process_state = Serving | WaitingForSignal | Finished | ExitedWith int

definition worker_main ::
  "(app_call \<Rightarrow> unit result) \<Rightarrow> jsnum \<Rightarrow> signal list \<Rightarrow> process_state result \<times> app_call list"
where
  "worker_main respond metricsPort signals =
     (case run_calls respond (worker_calls metricsPort) of
        (Inl e, made) \<Rightarrow> (Inl e, made)
      | (Inr _, made) \<Rightarrow>
          if \<not> sw_resolved (fold on_signal signals wait_start) then (Inr WaitingForSignal, made)
          else (case run_calls respond worker_shutdown of
                  (Inl e, made') \<Rightarrow> (Inl e, made @ made')
                | (Inr _, made') \<Rightarrow> (Inr Finished, made @ made')))"

definition api_main :: "(app_call \<Rightarrow> unit result) \<Rightarrow> (string \<Rightarrow> string option) \<Rightarrow> jsnum \<Rightarrow> process_state result \<times> app_call list" where
  "api_main respond process_env port =
     (let (r, made) = run_calls respond (api_calls process_env port) in (bind_res r (\<lambda>_. Inr Serving), made))"

text \<open>\<open>bootstrap().catch(...)\<close>: the error is logged and the process exits with 1.\<close>

definition process_main ::
  "(app_call \<Rightarrow> unit result) \<Rightarrow> (string \<Rightarrow> string option) \<Rightarrow> signal list \<Rightarrow> process_state \<times> app_call list"
where
  "process_main respond process_env signals =
     (let (r, made) = (case bootstrap process_env of
            Inl e \<Rightarrow> (Inl e, [])
          | Inr (BootWorker metricsPort) \<Rightarrow> worker_main respond metricsPort signals
          | Inr (BootApi port) \<Rightarrow> api_main respond process_env port)
      in (case r of Inl e \<Rightarrow> (ExitedWith 1, made) | Inr st \<Rightarrow> (st, made)))"

subsection \<open>Lemmas\<close>

lemma run_calls_prefix:
  "run_calls respond cs = (r, made) \<Longrightarrow>
     (\<exists>rest. cs = made @ rest) \<and> (r = Inr () \<longleftrightarrow> made = cs \<and> (\<forall>c \<in> set cs. respond c = Inr ()))"
proof (induction cs arbitrary: r made)
  case (Cons c cs)
  obtain r' made' where rec: "run_calls respond cs = (r', made')" by fastforce
  from Cons.IH [OF rec] Cons.prems rec show ?case by (auto split: sum.splits)
qed auto

lemma run_calls_ok: "(\<And>c. c \<in> set cs \<Longrightarrow> respond c = Inr ()) \<Longrightarrow> run_calls respond cs = (Inr (), cs)"
  by (induction cs) auto

lemma wait_resolved:
  "sw_resolved (fold on_signal signals s) \<longleftrightarrow> sw_resolved s \<or> (\<exists>sig \<in> set signals. sig \<in> set (sw_listeners s))"
proof (induction signals arbitrary: s)
  case (Cons sig signals)
  show ?case
    by (cases "sig \<in> set (sw_listeners s)") (auto simp: Cons.IH on_signal_def [of sig])
qed simp

lemma bootstrap_Inr:
  "bootstrap process_env = Inr b \<longleftrightarrow>
     \<not> (isDemoMode (process_env ''DEMO_MODE'') \<and> process_env ''NODE_ENV'' = Some ''production'')
     \<and> (case b of
          BootWorker n \<Rightarrow> process_env ''APP_ROLE'' = Some ''worker'' \<and> n = config_number process_env ''WORKER_METRICS_PORT'' 9091
        | BootApi n \<Rightarrow> nullish (process_env ''APP_ROLE'') ''api'' = ''api'' \<and> n = config_number process_env ''PORT'' 3000)"
  by (cases b; cases "process_env ''APP_ROLE''")
    (auto simp: bootstrap_def assertDemoModeAllowed_def bind_res_def Let_def)

lemma process_cases:
  assumes "process_main respond process_env signals = (st, made)"
  obtains (refused) e where "bootstrap process_env = Inl e" "st = ExitedWith 1" "made = []"
  | (api) n r where "bootstrap process_env = Inr (BootApi n)" "run_calls respond (api_calls process_env n) = (r, made)"
      "st = (case r of Inl e \<Rightarrow> ExitedWith 1 | Inr _ \<Rightarrow> Serving)"
  | (broken) n e where "bootstrap process_env = Inr (BootWorker n)" "run_calls respond (worker_calls n) = (Inl e, made)"
      "st = ExitedWith 1"
  | (waiting) n where "bootstrap process_env = Inr (BootWorker n)" "run_calls respond (worker_calls n) = (Inr (), made)"
      "st = WaitingForSignal"
  | (stopped) n r made' where "bootstrap process_env = Inr (BootWorker n)"
      "run_calls respond (worker_calls n) = (Inr (), worker_calls n)" "run_calls respond worker_shutdown = (r, made')"
      "made = worker_calls n @ made'" "sw_resolved (fold on_signal signals wait_start)"
      "st = (case r of Inl e \<Rightarrow> ExitedWith 1 | Inr _ \<Rightarrow> Finished)"
proof (cases "bootstrap process_env")
  case (Inl e)
  with assms show thesis by (intro refused) (auto simp: process_main_def)
next
  case (Inr b)
  show thesis
  proof (cases b)
    case (BootApi n)
    with assms Inr show thesis
      by (intro api [of n "fst (run_calls respond (api_calls process_env n))"])
        (auto simp: process_main_def api_main_def bind_res_def Let_def split: prod.splits sum.splits)
  next
    case (BootWorker n)
    obtain r1 made1 where one: "run_calls respond (worker_calls n) = (r1, made1)" by fastforce
    obtain r2 made2 where two: "run_calls respond worker_shutdown = (r2, made2)" by fastforce
    note main = assms [unfolded process_main_def Inr sum.case BootWorker boot.case worker_main_def one two prod.case]
    show thesis
    proof (cases r1)
      case (Inl e)
      with main one Inr BootWorker \<open>bootstrap process_env = Inr b\<close> show thesis by (intro broken [of n e]) auto
    next
      case (Inr u)
      with run_calls_prefix [OF one] have made1: "made1 = worker_calls n" by auto
      show thesis
      proof (cases "sw_resolved (fold on_signal signals wait_start)")
        case True
        with main Inr one two made1 BootWorker \<open>bootstrap process_env = Inr b\<close> show thesis
          by (intro stopped [of n r2 made2]) (auto split: sum.splits)
      next
        case False
        with main Inr one BootWorker \<open>bootstrap process_env = Inr b\<close> show thesis by (intro waiting [of n]) auto
      qed
    qed
  qed
qed

lemma validated_role:
  assumes "validateEnv env = Inr cfg" and "config_get env ''APP_ROLE'' \<noteq> Some []" and "map_of env ''APP_ROLE'' = None \<or> config_get env ''APP_ROLE'' \<noteq> None"
  shows "config_get env ''APP_ROLE'' = present env ''APP_ROLE''"
    and "nullish (config_get env ''APP_ROLE'') ''api'' = ''api'' \<or> config_get env ''APP_ROLE'' = Some ''worker''"
proof -
  show same: "config_get env ''APP_ROLE'' = present env ''APP_ROLE''"
    using assms(2,3) by (auto simp: config_get_def present_def split: option.splits json.splits)
  have "nullish (present env ''APP_ROLE'') ''api'' \<in> set APP_ROLES"
    using assms(1) by (auto simp: validateEnv_Inr role_errors_def split: if_splits)
  then show "nullish (config_get env ''APP_ROLE'') ''api'' = ''api'' \<or> config_get env ''APP_ROLE'' = Some ''worker''"
    unfolding same by (cases "present env ''APP_ROLE''") (auto simp: APP_ROLES_def)
qed

lemma validated_secret:
  assumes "validateEnv env = Inr cfg" and "distinct (map fst env)" and "config_get env ''APP_ROLE'' \<noteq> Some ''worker''"
    and "key \<in> set API_SECRET_VARS"
  shows "\<exists>secret. config_get cfg key = Some secret \<and> secret \<noteq> []"
proof -
  have "present env ''APP_ROLE'' \<noteq> Some ''worker''"
    using assms(3) by (auto simp: config_get_def present_Some)
  then have "nullish (present env ''APP_ROLE'') ''api'' \<noteq> ''worker''"
    by (cases "present env ''APP_ROLE''") auto
  with assms(1,4) have "present env key \<noteq> None"
    by (auto simp: validateEnv_Inr secret_errors_def filter_empty_conv)
  then show ?thesis
    by (auto simp: config_get_validated [OF assms(1,2)] present_Some)
qed

lemma validated_number:
  assumes "validateEnv env = Inr cfg" and "distinct (map fst env)" and "key \<in> set POSITIVE_INT_VARS" and "1 \<le> d"
  shows "js_le (Fin 1) (config_number (config_get cfg) key d)"
proof (cases "present env key")
  case None
  then show ?thesis
    using assms(4) of_int_le_iff [where ?'a = rat, of 1 d] by (simp add: config_number_def config_get_validated [OF assms(1,2)])
next
  case (Some v)
  then have "js_le (Fin 1) (js_number_str v)"
    using int_var_validated [OF _ assms(3) Some] positive_literal_number assms(1) by (auto simp: validateEnv_Inr)
  with Some show ?thesis by (simp add: config_number_def config_get_validated [OF assms(1,2)])
qed

text \<open>Both guards of the API can be constructed, on secrets and a tolerance that make sense.\<close>

definition serves_requests :: "(string \<Rightarrow> string option) \<Rightarrow> bool" where
  "serves_requests get \<longleftrightarrow>
     (\<exists>g secret. WebhookSignatureGuard_new get = Inr g \<and> AdminKeyGuard_new get = Inr secret
        \<and> sg_secret g \<noteq> [] \<and> js_le (Fin 1) (sg_toleranceSeconds g) \<and> secret \<noteq> [])"

subsection \<open>Properties\<close>





end
