(* ===== verification/Schema.thy ===== *)
theory Schema
  imports EventStore
begin

text \<open>
  The schema migrations of \<open>src/src/database/migrations/\<close> and the entities of \<open>src/src/events/entities/\<close>.
  A \<open>catalog\<close> is the part of a PostgreSQL database the migrations touch: enum types, tables with their
  columns and rows, indexes. \<open>exec_ddl\<close> runs one statement and answers PostgreSQL's SQLSTATE where it is
  refused; \<open>run_up\<close> and \<open>run_down\<close> run a migration. The lemmas show that the statements keep a catalog
  well formed, that the migrations reach the columns and indexes the entities declare, that a rollback
  restores what was there before, when the third migration refuses the stored data, and that the migrated
  tables hold exactly the rows theory \<open>EventStore\<close> accepts. TypeORM's own \<open>migrations\<close> table is left out.
\<close>

subsection \<open>Catalogs\<close>

datatype sqlval = SNull | SText string | SInt int | SJson json | STime int | SUuid string

datatype col_type =
    Uuid | Varchar nat | EnumType string | IntegerType | Jsonb | TextType | Timestamptz

datatype col_default = Literal sqlval | Expression string

record column =
  cl_type :: col_type
  cl_notNull :: bool
  cl_default :: "col_default option"

record table =
  tb_columns :: "(string \<times> column) list"
  tb_primary :: "(string \<times> string) option"
  tb_rows :: "(string \<times> sqlval) list list"

record index =
  ix_table :: string
  ix_column :: string
  ix_unique :: bool

record catalog =
  ct_types :: "(string \<times> string list) list"
  ct_tables :: "(string \<times> table) list"
  ct_indexes :: "(string \<times> index) set"

definition empty_catalog :: catalog where
  "empty_catalog = \<lparr>ct_types = [], ct_tables = [], ct_indexes = {}\<rparr>"

subsection \<open>What a column holds\<close>

fun type_fits :: "(string \<times> string list) list \<Rightarrow> col_type \<Rightarrow> sqlval \<Rightarrow> bool" where
  "type_fits types Uuid (SUuid _) = True"
| "type_fits types (Varchar n) (SText s) = (CHR 0x00 \<notin> set s \<and> code_points s \<le> n)"
| "type_fits types (EnumType e) (SText s) = (case map_of types e of Some ls \<Rightarrow> s \<in> set ls | None \<Rightarrow> False)"
| "type_fits types IntegerType (SInt i) = (- (2 ^ 31) \<le> i \<and> i < 2 ^ 31)"
| "type_fits types Jsonb (SJson j) = (\<not> json_has_nul j)"
| "type_fits types TextType (SText s) = (CHR 0x00 \<notin> set s)"
| "type_fits types Timestamptz (STime _) = True"
| "type_fits types _ _ = False"

definition value_fits :: "(string \<times> string list) list \<Rightarrow> column \<Rightarrow> sqlval \<Rightarrow> bool" where
  "value_fits types col v = (if v = SNull then \<not> cl_notNull col else type_fits types (cl_type col) v)"

definition row_fits :: "(string \<times> string list) list \<Rightarrow> (string \<times> column) list \<Rightarrow> (string \<times> sqlval) list \<Rightarrow> bool" where
  "row_fits types cols row = list_all2 (\<lambda>(c, col) (k, v). k = c \<and> value_fits types col v) cols row"

text \<open>The values of a column; NULLs are distinct from one another in a unique index.\<close>

definition column_values :: "string \<Rightarrow> (string \<times> sqlval) list list \<Rightarrow> sqlval list" where
  "column_values c rows = filter (\<lambda>v. v \<noteq> SNull) (map (\<lambda>r. case map_of r c of Some v \<Rightarrow> v | None \<Rightarrow> SNull) rows)"

subsection \<open>Statements\<close>

datatype ddl =
    CreateType string "string list"
  | CreateTable string "(string \<times> column) list" "string \<times> string"
  | CreateIndex bool string string string
  | AddColumn string string column
  | DropColumn string string
  | DropIndex string
  | DropTable string
  | DropType string

definition uses_type :: "string \<Rightarrow> table \<Rightarrow> bool" where
  "uses_type e tb = list_ex (\<lambda>(c, col). cl_type col = EnumType e) (tb_columns tb)"

fun type_known :: "(string \<times> string list) list \<Rightarrow> col_type \<Rightarrow> bool" where
  "type_known types (EnumType e) = (map_of types e \<noteq> None)"
| "type_known types _ = True"

definition on_table :: "string \<Rightarrow> (table \<Rightarrow> table) \<Rightarrow> catalog \<Rightarrow> catalog" where
  "on_table t f s = s\<lparr>ct_tables := map (\<lambda>(n, tb). (n, if n = t then f tb else tb)) (ct_tables s)\<rparr>"

definition keep :: "('a \<Rightarrow> bool) \<Rightarrow> 'a set \<Rightarrow> 'a set" where
  "keep P A = {a \<in> A. P a}"

lemma keep_simps [simp]:
  "keep P {} = {}" "keep P (insert a A) = (if P a then insert a (keep P A) else keep P A)"
  by (auto simp: keep_def)

definition drop_indexes :: "(index \<Rightarrow> bool) \<Rightarrow> catalog \<Rightarrow> catalog" where
  "drop_indexes P s = s\<lparr>ct_indexes := keep (\<lambda>p. \<not> P (snd p)) (ct_indexes s)\<rparr>"

text \<open>
  The value a new column takes in a row that exists: \<open>ev\<close> evaluates a default expression for the row
  of that position.
\<close>

definition default_value :: "(string \<Rightarrow> nat \<Rightarrow> sqlval) \<Rightarrow> column \<Rightarrow> nat \<Rightarrow> sqlval" where
  "default_value ev col k = (case cl_default col of
       None \<Rightarrow> SNull | Some (Literal v) \<Rightarrow> v | Some (Expression e) \<Rightarrow> ev e k)"

definition extended_rows ::
  "(string \<Rightarrow> nat \<Rightarrow> sqlval) \<Rightarrow> string \<Rightarrow> column \<Rightarrow> (string \<times> sqlval) list list \<Rightarrow> (string \<times> sqlval) list list"
where
  "extended_rows ev c col rows = map (\<lambda>(k, r). r @ [(c, default_value ev col k)]) (enumerate 0 rows)"

definition add_column :: "(string \<Rightarrow> nat \<Rightarrow> sqlval) \<Rightarrow> string \<Rightarrow> column \<Rightarrow> table \<Rightarrow> table" where
  "add_column ev c col tb =
     tb\<lparr>tb_columns := tb_columns tb @ [(c, col)], tb_rows := extended_rows ev c col (tb_rows tb)\<rparr>"

definition drop_column :: "string \<Rightarrow> table \<Rightarrow> table" where
  "drop_column c tb =
     tb\<lparr>tb_columns := filter (\<lambda>p. fst p \<noteq> c) (tb_columns tb),
        tb_primary := (case tb_primary tb of Some (k, c') \<Rightarrow> if c' = c then None else Some (k, c') | None \<Rightarrow> None),
        tb_rows := map (filter (\<lambda>p. fst p \<noteq> c)) (tb_rows tb)\<rparr>"

fun exec_ddl :: "(string \<Rightarrow> nat \<Rightarrow> sqlval) \<Rightarrow> ddl \<Rightarrow> catalog \<Rightarrow> string + catalog" where
  "exec_ddl ev (CreateType e labels) s =
     (if map_of (ct_types s) e \<noteq> None then Inl ''42710''
      else Inr (s\<lparr>ct_types := ct_types s @ [(e, labels)]\<rparr>))"
| "exec_ddl ev (CreateTable t cols pk) s =
     (if map_of (ct_tables s) t \<noteq> None then Inl ''42P07''
      else if \<not> distinct (map fst cols) then Inl ''42701''
      else if snd pk \<notin> fst ` set cols then Inl ''42703''
      else if \<not> list_all (\<lambda>(c, col). type_known (ct_types s) (cl_type col)) cols then Inl ''42704''
      else Inr (s\<lparr>ct_tables := ct_tables s @ [(t, \<lparr>tb_columns = cols, tb_primary = Some pk, tb_rows = []\<rparr>)]\<rparr>))"
| "exec_ddl ev (CreateIndex unique n t c) s =
     (case map_of (ct_tables s) t of
        None \<Rightarrow> Inl ''42P01''
      | Some tb \<Rightarrow>
          if n \<in> fst ` ct_indexes s then Inl ''42P07''
          else if c \<notin> fst ` set (tb_columns tb) then Inl ''42703''
          else if unique \<and> \<not> distinct (column_values c (tb_rows tb)) then Inl ''23505''
          else Inr (s\<lparr>ct_indexes := insert (n, \<lparr>ix_table = t, ix_column = c, ix_unique = unique\<rparr>) (ct_indexes s)\<rparr>))"
| "exec_ddl ev (AddColumn t c col) s =
     (case map_of (ct_tables s) t of
        None \<Rightarrow> Inl ''42P01''
      | Some tb \<Rightarrow>
          if c \<in> fst ` set (tb_columns tb) then Inl ''42701''
          else if \<not> type_known (ct_types s) (cl_type col) then Inl ''42704''
          else if \<not> list_all (\<lambda>k. default_value ev col k = SNull \<or> type_fits (ct_types s) (cl_type col) (default_value ev col k))
                     [0..<length (tb_rows tb)] then Inl ''42804''
          else if cl_notNull col \<and> list_ex (\<lambda>k. default_value ev col k = SNull) [0..<length (tb_rows tb)]
               then Inl ''23502''
          else Inr (on_table t (add_column ev c col) s))"
| "exec_ddl ev (DropColumn t c) s =
     (case map_of (ct_tables s) t of
        None \<Rightarrow> Inl ''42P01''
      | Some tb \<Rightarrow>
          if c \<notin> fst ` set (tb_columns tb) then Inl ''42703''
          else Inr (drop_indexes (\<lambda>ix. ix_table ix = t \<and> ix_column ix = c) (on_table t (drop_column c) s)))"
| "exec_ddl ev (DropIndex n) s =
     (if n \<notin> fst ` ct_indexes s then Inl ''42704''
      else Inr (s\<lparr>ct_indexes := keep (\<lambda>p. fst p \<noteq> n) (ct_indexes s)\<rparr>))"
| "exec_ddl ev (DropTable t) s =
     (if map_of (ct_tables s) t = None then Inl ''42P01''
      else Inr (drop_indexes (\<lambda>ix. ix_table ix = t) (s\<lparr>ct_tables := filter (\<lambda>p. fst p \<noteq> t) (ct_tables s)\<rparr>)))"
| "exec_ddl ev (DropType e) s =
     (if map_of (ct_types s) e = None then Inl ''42704''
      else if list_ex (\<lambda>(t, tb). uses_type e tb) (ct_tables s) then Inl ''2BP01''
      else Inr (s\<lparr>ct_types := filter (\<lambda>p. fst p \<noteq> e) (ct_types s)\<rparr>))"

fun run_ddl :: "(string \<Rightarrow> nat \<Rightarrow> sqlval) \<Rightarrow> ddl list \<Rightarrow> catalog \<Rightarrow> string + catalog" where
  "run_ddl ev [] s = Inr s"
| "run_ddl ev (d # ds) s = (case exec_ddl ev d s of Inl e \<Rightarrow> Inl e | Inr s' \<Rightarrow> run_ddl ev ds s')"

subsection \<open>The migrations\<close>

abbreviation required :: "col_type \<Rightarrow> column" where
  "required ty \<equiv> \<lparr>cl_type = ty, cl_notNull = True, cl_default = None\<rparr>"

abbreviation nullable :: "col_type \<Rightarrow> column" where
  "nullable ty \<equiv> \<lparr>cl_type = ty, cl_notNull = False, cl_default = None\<rparr>"

abbreviation defaulting :: "col_type \<Rightarrow> col_default \<Rightarrow> column" where
  "defaulting ty d \<equiv> \<lparr>cl_type = ty, cl_notNull = True, cl_default = Some d\<rparr>"

record migration =
  mg_name :: string
  mg_up :: "ddl list"
  mg_down :: "ddl list"

text \<open>The columns of the two \<open>CREATE TABLE\<close> statements.\<close>

definition events_columns :: "(string \<times> column) list" where
  "events_columns =
     [(''id'', defaulting Uuid (Expression ''gen_random_uuid()'')),
      (''event_id'', required (Varchar 255)),
      (''event_type'', required (Varchar 255)),
      (''status'', defaulting (EnumType ''events_status_enum'') (Literal (SText ''received''))),
      (''attempts'', defaulting IntegerType (Literal (SInt 0))),
      (''correlation_id'', required (Varchar 255)),
      (''payload'', required Jsonb),
      (''failure_reason'', nullable TextType),
      (''created_at'', defaulting Timestamptz (Expression ''now()'')),
      (''updated_at'', defaulting Timestamptz (Expression ''now()''))]"

definition dlq_columns :: "(string \<times> column) list" where
  "dlq_columns =
     [(''id'', defaulting Uuid (Expression ''gen_random_uuid()'')),
      (''message_id'', nullable (Varchar 255)),
      (''correlation_id'', required (Varchar 255)),
      (''event_id'', nullable (Varchar 255)),
      (''reason'', required TextType),
      (''attempts'', defaulting IntegerType (Literal (SInt 0))),
      (''payload'', nullable TextType),
      (''created_at'', defaulting Timestamptz (Expression ''now()''))]"

definition InitSchema_up :: "ddl list" where
  "InitSchema_up =
     [CreateType ''events_status_enum''
        [''received'', ''processing'', ''processed'', ''failed'', ''dead''],
      CreateTable ''events'' events_columns (''PK_events_id'', ''id''),
      CreateIndex True ''UQ_events_event_id'' ''events'' ''event_id'',
      CreateIndex False ''IDX_events_correlation_id'' ''events'' ''correlation_id'',
      CreateTable ''dlq_messages'' dlq_columns (''PK_dlq_messages_id'', ''id''),
      CreateIndex False ''IDX_dlq_messages_message_id'' ''dlq_messages'' ''message_id'',
      CreateIndex False ''IDX_dlq_messages_correlation_id'' ''dlq_messages'' ''correlation_id'']"

definition InitSchema_down :: "ddl list" where
  "InitSchema_down =
     [DropIndex ''IDX_dlq_messages_correlation_id'',
      DropIndex ''IDX_dlq_messages_message_id'',
      DropTable ''dlq_messages'',
      DropIndex ''IDX_events_correlation_id'',
      DropIndex ''UQ_events_event_id'',
      DropTable ''events'',
      DropType ''events_status_enum'']"

definition InitSchema :: migration where
  "InitSchema = \<lparr>mg_name = ''InitSchema1783547200000'', mg_up = InitSchema_up, mg_down = InitSchema_down\<rparr>"

definition AddEventDuplicateCount :: migration where
  "AddEventDuplicateCount =
     \<lparr>mg_name = ''AddEventDuplicateCount1783547300000'',
      mg_up = [AddColumn ''events'' ''duplicate_count'' (defaulting IntegerType (Literal (SInt 0)))],
      mg_down = [DropColumn ''events'' ''duplicate_count'']\<rparr>"

definition UniqueDlqMessageId :: migration where
  "UniqueDlqMessageId =
     \<lparr>mg_name = ''UniqueDlqMessageId1783547400000'',
      mg_up = [DropIndex ''IDX_dlq_messages_message_id'',
               CreateIndex True ''UQ_dlq_messages_message_id'' ''dlq_messages'' ''message_id''],
      mg_down = [DropIndex ''UQ_dlq_messages_message_id'',
                 CreateIndex False ''IDX_dlq_messages_message_id'' ''dlq_messages'' ''message_id'']\<rparr>"

definition AddDlqReplayedAt :: migration where
  "AddDlqReplayedAt =
     \<lparr>mg_name = ''AddDlqReplayedAt1783547500000'',
      mg_up = [AddColumn ''dlq_messages'' ''replayed_at'' (nullable Timestamptz)],
      mg_down = [DropColumn ''dlq_messages'' ''replayed_at'']\<rparr>"

text \<open>In the order of their timestamps, the one TypeORM runs them in.\<close>

definition migrations :: "migration list" where
  "migrations = [InitSchema, AddEventDuplicateCount, UniqueDlqMessageId, AddDlqReplayedAt]"

abbreviation run_up :: "(string \<Rightarrow> nat \<Rightarrow> sqlval) \<Rightarrow> migration \<Rightarrow> catalog \<Rightarrow> string + catalog" where
  "run_up ev m \<equiv> run_ddl ev (mg_up m)"

abbreviation run_down :: "(string \<Rightarrow> nat \<Rightarrow> sqlval) \<Rightarrow> migration \<Rightarrow> catalog \<Rightarrow> string + catalog" where
  "run_down ev m \<equiv> run_ddl ev (mg_down m)"

definition upgrade :: "(string \<Rightarrow> nat \<Rightarrow> sqlval) \<Rightarrow> migration list \<Rightarrow> catalog \<Rightarrow> string + catalog" where
  "upgrade ev ms = run_ddl ev (concat (map mg_up ms))"

definition rollback :: "(string \<Rightarrow> nat \<Rightarrow> sqlval) \<Rightarrow> migration list \<Rightarrow> catalog \<Rightarrow> string + catalog" where
  "rollback ev ms = run_ddl ev (concat (map mg_down (rev ms)))"

subsection \<open>Well-formed catalogs\<close>

definition table_ok :: "(string \<times> string list) list \<Rightarrow> table \<Rightarrow> bool" where
  "table_ok types tb \<longleftrightarrow>
     distinct (map fst (tb_columns tb)) \<and>
     list_all (\<lambda>(c, col). type_known types (cl_type col)) (tb_columns tb) \<and>
     list_all (row_fits types (tb_columns tb)) (tb_rows tb) \<and>
     (case tb_primary tb of None \<Rightarrow> True | Some (k, c) \<Rightarrow> c \<in> fst ` set (tb_columns tb))"

definition index_ok :: "catalog \<Rightarrow> index \<Rightarrow> bool" where
  "index_ok s ix \<longleftrightarrow>
     (case map_of (ct_tables s) (ix_table ix) of
        None \<Rightarrow> False
      | Some tb \<Rightarrow> ix_column ix \<in> fst ` set (tb_columns tb) \<and>
          (ix_unique ix \<longrightarrow> distinct (column_values (ix_column ix) (tb_rows tb))))"

definition catalog_ok :: "catalog \<Rightarrow> bool" where
  "catalog_ok s \<longleftrightarrow>
     distinct (map fst (ct_types s)) \<and> distinct (map fst (ct_tables s)) \<and>
     list_all (\<lambda>(t, tb). table_ok (ct_types s) tb) (ct_tables s) \<and>
     (\<forall>p \<in> ct_indexes s. index_ok s (snd p)) \<and> inj_on fst (ct_indexes s)"

lemma catalog_okI:
  assumes "distinct (map fst (ct_types s))" and "distinct (map fst (ct_tables s))"
    and "\<And>t tb. (t, tb) \<in> set (ct_tables s) \<Longrightarrow> table_ok (ct_types s) tb"
    and "\<And>n ix. (n, ix) \<in> ct_indexes s \<Longrightarrow> index_ok s ix"
    and "inj_on fst (ct_indexes s)"
  shows "catalog_ok s"
  using assms by (auto simp: catalog_ok_def list_all_iff)

lemma catalog_okD:
  assumes "catalog_ok s"
  shows "distinct (map fst (ct_types s))" and "distinct (map fst (ct_tables s))"
    and "(t, tb) \<in> set (ct_tables s) \<Longrightarrow> table_ok (ct_types s) tb"
    and "(n, ix) \<in> ct_indexes s \<Longrightarrow> index_ok s ix"
    and "inj_on fst (ct_indexes s)"
  using assms by (auto simp: catalog_ok_def list_all_iff)

lemma empty_catalog_ok: "catalog_ok empty_catalog"
  by (simp add: catalog_ok_def empty_catalog_def)

subsection \<open>Types\<close>

lemma type_known_more: "type_known types ty \<Longrightarrow> type_known (types @ extra) ty"
  by (cases ty) (auto simp: map_add_def split: option.splits)

lemma type_fits_more: "type_fits types ty v \<Longrightarrow> type_fits (types @ extra) ty v"
  by (cases "(types, ty, v)" rule: type_fits.cases) (auto simp: map_add_Some_iff split: option.splits)

lemma map_of_filter_other: "k \<noteq> e \<Longrightarrow> map_of (filter (\<lambda>p. fst p \<noteq> e) xs) k = map_of xs k"
  by (induction xs) auto

lemma map_of_filter_same: "map_of (filter (\<lambda>p. fst p \<noteq> e) xs) e = None"
  by (induction xs) auto

lemma type_known_less:
  "type_known types ty \<Longrightarrow> ty \<noteq> EnumType e \<Longrightarrow> type_known (filter (\<lambda>p. fst p \<noteq> e) types) ty"
  by (cases ty) (auto simp: map_of_filter_other)

lemma type_fits_less:
  "type_fits types ty v \<Longrightarrow> ty \<noteq> EnumType e \<Longrightarrow> type_fits (filter (\<lambda>p. fst p \<noteq> e) types) ty v"
  by (cases "(types, ty, v)" rule: type_fits.cases) (auto simp: map_of_filter_other)

lemma table_ok_mono:
  assumes ok: "table_ok types tb"
    and known: "\<And>c col. (c, col) \<in> set (tb_columns tb) \<Longrightarrow> type_known types (cl_type col) \<Longrightarrow> type_known types' (cl_type col)"
    and fits: "\<And>c col v. (c, col) \<in> set (tb_columns tb) \<Longrightarrow> type_fits types (cl_type col) v \<Longrightarrow> type_fits types' (cl_type col) v"
  shows "table_ok types' tb"
proof -
  have "row_fits types' (tb_columns tb) r" if "row_fits types (tb_columns tb) r" for r
    using that unfolding row_fits_def
    by (rule list.rel_mono_strong)
       (auto simp: value_fits_def split: if_splits dest: fits intro: fits)
  thus ?thesis
    using ok known by (auto simp: table_ok_def list_all_iff split: option.splits)
qed

subsection \<open>Rows\<close>

lemma row_fits_keys: "row_fits types cols r \<Longrightarrow> map fst r = map fst cols"
  unfolding row_fits_def by (induction cols r rule: list_all2_induct) auto

lemma row_fits_snoc:
  "row_fits types cols r \<Longrightarrow> value_fits types col v \<Longrightarrow> row_fits types (cols @ [(c, col)]) (r @ [(c, v)])"
  by (simp add: row_fits_def list_all2_appendI)

lemma row_fits_filter:
  "row_fits types cols r \<Longrightarrow>
     row_fits types (filter (\<lambda>p. fst p \<noteq> c) cols) (filter (\<lambda>p. fst p \<noteq> c) r)"
  unfolding row_fits_def by (induction cols r rule: list_all2_induct) auto

lemma fresh_filter: "c \<notin> fst ` set xs \<Longrightarrow> filter (\<lambda>p. fst p \<noteq> c) xs = xs"
  by (auto simp: filter_id_conv)

lemma fresh_in_row: "row_fits types cols r \<Longrightarrow> c \<notin> fst ` set cols \<Longrightarrow> c \<notin> fst ` set r"
  by (metis list.set_map row_fits_keys)

lemma extended_rows_back:
  assumes "list_all (row_fits types cols) rows" and "c \<notin> fst ` set cols"
  shows "map (filter (\<lambda>p. fst p \<noteq> c)) (extended_rows ev c col rows) = rows"
proof -
  have "filter (\<lambda>p. fst p \<noteq> c) r = r" if "r \<in> set rows" for r
    using that assms by (intro fresh_filter fresh_in_row[where types=types and cols=cols]) (auto simp: list_all_iff)
  hence "map (filter (\<lambda>p. fst p \<noteq> c)) (extended_rows ev c col rows) = map snd (enumerate 0 rows)"
    unfolding extended_rows_def map_map
    by (intro map_cong[OF refl]) (auto simp: in_set_enumerate_eq)
  thus ?thesis by simp
qed

lemma map_of_append_other: "k \<noteq> c \<Longrightarrow> map_of (xs @ [(c, v)]) k = map_of xs k"
  by (simp add: map_add_def split: option.splits)

lemma column_values_extended:
  assumes "k \<noteq> c"
  shows "column_values k (extended_rows ev c col rows) = column_values k rows"
proof -
  have "map (\<lambda>r. case map_of r k of Some v \<Rightarrow> v | None \<Rightarrow> SNull) (extended_rows ev c col rows)
      = map (\<lambda>r. case map_of r k of Some v \<Rightarrow> v | None \<Rightarrow> SNull) (map snd (enumerate 0 rows))"
    unfolding extended_rows_def map_map using assms
    by (intro map_cong[OF refl]) (auto simp: map_add_def split: option.splits)
  thus ?thesis by (simp add: column_values_def)
qed

lemma column_values_filtered:
  "k \<noteq> c \<Longrightarrow> column_values k (map (filter (\<lambda>p. fst p \<noteq> c)) rows) = column_values k rows"
  by (simp add: column_values_def map_of_filter_other comp_def)

lemma enumerate_rows_fit:
  assumes rows: "list_all (row_fits types cols) rows"
    and v: "list_all (\<lambda>k. default_value ev col k = SNull \<or> type_fits types (cl_type col) (default_value ev col k))
              [0..<length rows]"
    and nn: "\<not> (cl_notNull col \<and> list_ex (\<lambda>k. default_value ev col k = SNull) [0..<length rows])"
  shows "list_all (row_fits types (cols @ [(c, col)])) (extended_rows ev c col rows)"
proof -
  have "row_fits types (cols @ [(c, col)]) (r @ [(c, default_value ev col k)])"
    if k: "(k, r) \<in> set (enumerate 0 rows)" for k r
  proof (rule row_fits_snoc)
    show "row_fits types cols r"
      using rows k by (auto simp: list_all_iff in_set_enumerate_eq)
    have "k < length rows" using k by (auto simp: in_set_enumerate_eq)
    thus "value_fits types col (default_value ev col k)"
      using v nn by (auto simp: value_fits_def list_all_iff list_ex_iff)
  qed
  thus ?thesis by (auto simp: extended_rows_def list_all_iff)
qed

lemma add_column_ok:
  assumes ok: "table_ok types tb" and c: "c \<notin> fst ` set (tb_columns tb)"
    and known: "type_known types (cl_type col)"
    and v: "list_all (\<lambda>k. default_value ev col k = SNull \<or> type_fits types (cl_type col) (default_value ev col k))
              [0..<length (tb_rows tb)]"
    and nn: "\<not> (cl_notNull col \<and> list_ex (\<lambda>k. default_value ev col k = SNull) [0..<length (tb_rows tb)])"
  shows "table_ok types (add_column ev c col tb)"
  using ok c known enumerate_rows_fit[OF _ v nn]
  by (auto simp: table_ok_def add_column_def split: option.splits)

lemma drop_column_ok:
  assumes "table_ok types tb"
  shows "table_ok types (drop_column c tb)"
  using assms
  by (auto simp: table_ok_def drop_column_def list_all_iff row_fits_filter distinct_map_filter
           split: option.splits)

subsection \<open>Tables by name\<close>

lemma map_of_on_table:
  "map_of (ct_tables (on_table t f s)) k =
     (if k = t then map_option f (map_of (ct_tables s) k) else map_of (ct_tables s) k)"
proof -
  have "map_of (map (\<lambda>(n, tb). (n, if n = t then f tb else tb)) xs) k =
          (if k = t then map_option f (map_of xs k) else map_of xs k)" for xs
    by (induction xs) auto
  thus ?thesis by (simp add: on_table_def)
qed

lemma on_table_simps [simp]:
  "ct_types (on_table t f s) = ct_types s" "ct_indexes (on_table t f s) = ct_indexes s"
  "map fst (ct_tables (on_table t f s)) = map fst (ct_tables s)"
  by (auto simp: on_table_def comp_def split_def)

lemma drop_indexes_simps [simp]:
  "ct_types (drop_indexes P s) = ct_types s" "ct_tables (drop_indexes P s) = ct_tables s"
  "ct_indexes (drop_indexes P s) = {p \<in> ct_indexes s. \<not> P (snd p)}"
  by (simp_all add: drop_indexes_def keep_def)

lemma in_on_table:
  assumes "(k, tb) \<in> set (ct_tables (on_table t f s))"
  obtains (other) "k \<noteq> t" "(k, tb) \<in> set (ct_tables s)"
    | (same) tb' where "k = t" "(t, tb') \<in> set (ct_tables s)" "tb = f tb'"
  using assms by (auto simp: on_table_def split: if_splits)

subsection \<open>Statements keep a catalog well formed\<close>

lemma index_ok_tables:
  "ct_tables s' = ct_tables s \<Longrightarrow> index_ok s' ix = index_ok s ix"
  by (simp add: index_ok_def)

lemma create_type_ok:
  assumes ok: "catalog_ok s" and fresh: "map_of (ct_types s) e = None"
  shows "catalog_ok (s\<lparr>ct_types := ct_types s @ [(e, labels)]\<rparr>)" (is "catalog_ok ?s")
proof (rule catalog_okI)
  show "distinct (map fst (ct_types ?s))"
    using catalog_okD(1)[OF ok] fresh by (auto simp: map_of_eq_None_iff)
  show "table_ok (ct_types ?s) tb" if "(t, tb) \<in> set (ct_tables ?s)" for t tb
    using catalog_okD(3)[OF ok, of t tb] that
    by (auto intro: table_ok_mono type_known_more type_fits_more)
  show "index_ok ?s ix" if "(n, ix) \<in> ct_indexes ?s" for n ix
    using catalog_okD(4)[OF ok, of n ix] that by (simp add: index_ok_tables[of ?s s])
qed (use catalog_okD(2,5)[OF ok] in simp_all)

lemma create_table_ok:
  assumes ok: "catalog_ok s" and fresh: "map_of (ct_tables s) t = None" and tb: "table_ok (ct_types s) tb"
  shows "catalog_ok (s\<lparr>ct_tables := ct_tables s @ [(t, tb)]\<rparr>)" (is "catalog_ok ?s")
proof (rule catalog_okI)
  show "distinct (map fst (ct_tables ?s))"
    using catalog_okD(2)[OF ok] fresh by (auto simp: map_of_eq_None_iff)
  show "table_ok (ct_types ?s) tb'" if "(t', tb') \<in> set (ct_tables ?s)" for t' tb'
    using catalog_okD(3)[OF ok, of t' tb'] that tb by auto
  show "index_ok ?s ix" if "(n, ix) \<in> ct_indexes ?s" for n ix
    using catalog_okD(4)[OF ok, of n ix] that fresh
    by (auto simp: index_ok_def map_add_def split: option.splits)
qed (use catalog_okD(1,5)[OF ok] in simp_all)

lemma create_index_ok:
  assumes ok: "catalog_ok s" and fresh: "n \<notin> fst ` ct_indexes s" and ix: "index_ok s ix"
  shows "catalog_ok (s\<lparr>ct_indexes := insert (n, ix) (ct_indexes s)\<rparr>)" (is "catalog_ok ?s")
proof (rule catalog_okI)
  show "table_ok (ct_types ?s) tb" if "(t, tb) \<in> set (ct_tables ?s)" for t tb
    using catalog_okD(3)[OF ok, of t tb] that by simp
  show "index_ok ?s i" if "(k, i) \<in> ct_indexes ?s" for k i
    using catalog_okD(4)[OF ok, of k i] that ix by (auto simp: index_ok_tables[of ?s s])
  show "inj_on fst (ct_indexes ?s)"
    using catalog_okD(5)[OF ok] fresh by (auto simp: inj_on_insert)
qed (use catalog_okD(1,2)[OF ok] in simp_all)

lemma fewer_indexes_ok:
  assumes ok: "catalog_ok s" and sub: "I \<subseteq> ct_indexes s"
  shows "catalog_ok (s\<lparr>ct_indexes := I\<rparr>)" (is "catalog_ok ?s")
proof (rule catalog_okI)
  show "table_ok (ct_types ?s) tb" if "(t, tb) \<in> set (ct_tables ?s)" for t tb
    using catalog_okD(3)[OF ok, of t tb] that by simp
  show "index_ok ?s i" if "(k, i) \<in> ct_indexes ?s" for k i
    using catalog_okD(4)[OF ok, of k i] that sub by (auto simp: index_ok_tables[of ?s s])
  show "inj_on fst (ct_indexes ?s)"
    using catalog_okD(5)[OF ok] sub by (auto intro: inj_on_subset)
qed (use catalog_okD(1,2)[OF ok] in simp_all)

lemma on_table_ok:
  assumes ok: "catalog_ok s"
    and tb: "\<And>tb. map_of (ct_tables s) t = Some tb \<Longrightarrow> table_ok (ct_types s) tb \<Longrightarrow> table_ok (ct_types s) (f tb)"
    and ix: "\<And>n ix. (n, ix) \<in> I \<Longrightarrow> index_ok s ix \<Longrightarrow> index_ok (on_table t f s) ix"
    and sub: "I \<subseteq> ct_indexes s"
  shows "catalog_ok ((on_table t f s)\<lparr>ct_indexes := I\<rparr>)" (is "catalog_ok ?s")
proof (rule catalog_okI)
  show "distinct (map fst (ct_types ?s))" "distinct (map fst (ct_tables ?s))"
    using catalog_okD(1,2)[OF ok] by simp_all
  show "table_ok (ct_types ?s) b" if b: "(k, b) \<in> set (ct_tables ?s)" for k b
  proof -
    from b have "(k, b) \<in> set (ct_tables (on_table t f s))" by simp
    thus ?thesis
    proof (cases rule: in_on_table)
      case other
      thus ?thesis using catalog_okD(3)[OF ok] by simp
    next
      case (same tb')
      thus ?thesis
        using catalog_okD(2,3)[OF ok] tb[of tb'] by simp
    qed
  qed
  show "index_ok ?s i" if i: "(n, i) \<in> ct_indexes ?s" for n i
  proof -
    have "(n, i) \<in> I" using i by simp
    moreover have "index_ok s i" using catalog_okD(4)[OF ok] \<open>(n, i) \<in> I\<close> sub by blast
    ultimately show ?thesis
      using ix[of n i] by (simp add: index_ok_tables[of ?s "on_table t f s"])
  qed
  show "inj_on fst (ct_indexes ?s)"
    using catalog_okD(5)[OF ok] sub by (auto intro: inj_on_subset)
qed

lemma index_ok_add_column:
  assumes "index_ok s ix" and "map_of (ct_tables s) t = Some tb" and "c \<notin> fst ` set (tb_columns tb)"
  shows "index_ok (on_table t (add_column ev c col) s) ix"
proof (cases "ix_table ix = t")
  case True
  with assms have "ix_column ix \<noteq> c" by (auto simp: index_ok_def)
  with True assms show ?thesis
    by (auto simp: index_ok_def map_of_on_table add_column_def column_values_extended)
next
  case False
  with assms show ?thesis by (simp add: index_ok_def map_of_on_table)
qed

lemma index_ok_drop_column:
  assumes "index_ok s ix" and "\<not> (ix_table ix = t \<and> ix_column ix = c)"
  shows "index_ok (on_table t (drop_column c) s) ix"
  using assms
  by (auto simp: index_ok_def map_of_on_table drop_column_def column_values_filtered
           split: option.splits if_splits)

lemma drop_type_ok:
  assumes ok: "catalog_ok s" and unused: "\<not> list_ex (\<lambda>(t, tb). uses_type e tb) (ct_tables s)"
  shows "catalog_ok (s\<lparr>ct_types := filter (\<lambda>p. fst p \<noteq> e) (ct_types s)\<rparr>)" (is "catalog_ok ?s")
proof (rule catalog_okI)
  show "distinct (map fst (ct_types ?s))"
    using catalog_okD(1)[OF ok] by (simp add: distinct_map_filter)
  show "table_ok (ct_types ?s) tb" if t: "(t, tb) \<in> set (ct_tables ?s)" for t tb
  proof -
    have "cl_type col \<noteq> EnumType e" if "(c, col) \<in> set (tb_columns tb)" for c col
      using unused t that by (auto simp: list_ex_iff uses_type_def)
    thus ?thesis
      using catalog_okD(3)[OF ok, of t tb] t
      by (auto intro!: table_ok_mono[of "ct_types s"] type_known_less type_fits_less)
  qed
  show "index_ok ?s ix" if "(n, ix) \<in> ct_indexes ?s" for n ix
    using catalog_okD(4)[OF ok, of n ix] that by (simp add: index_ok_tables[of ?s s])
qed (use catalog_okD(2,5)[OF ok] in simp_all)

lemma drop_table_ok:
  assumes ok: "catalog_ok s"
  shows "catalog_ok (drop_indexes (\<lambda>ix. ix_table ix = t) (s\<lparr>ct_tables := filter (\<lambda>p. fst p \<noteq> t) (ct_tables s)\<rparr>))"
    (is "catalog_ok ?s")
proof (rule catalog_okI)
  show "distinct (map fst (ct_types ?s))" "distinct (map fst (ct_tables ?s))"
    using catalog_okD(1,2)[OF ok] by (simp_all add: distinct_map_filter)
  show "table_ok (ct_types ?s) tb" if "(k, tb) \<in> set (ct_tables ?s)" for k tb
    using catalog_okD(3)[OF ok, of k tb] that by simp
  show "index_ok ?s ix" if "(n, ix) \<in> ct_indexes ?s" for n ix
    using catalog_okD(4)[OF ok, of n ix] that by (auto simp: index_ok_def map_of_filter_other)
  show "inj_on fst (ct_indexes ?s)"
    using catalog_okD(5)[OF ok] by (auto intro: inj_on_subset)
qed

lemma exec_ddl_ok:
  assumes ok: "catalog_ok s" and run: "exec_ddl ev d s = Inr s'"
  shows "catalog_ok s'"
proof (cases d)
  case (CreateType e labels)
  thus ?thesis using run create_type_ok[OF ok] by (auto split: if_splits)
next
  case (CreateTable t cols pk)
  let ?tb = "\<lparr>tb_columns = cols, tb_primary = Some pk, tb_rows = []\<rparr>"
  from CreateTable run have fresh: "map_of (ct_tables s) t = None" and tb: "table_ok (ct_types s) ?tb"
    and s': "s' = s\<lparr>ct_tables := ct_tables s @ [(t, ?tb)]\<rparr>"
    by (simp_all add: table_ok_def case_prod_beta split: if_splits)
  show ?thesis unfolding s' by (rule create_table_ok[OF ok fresh tb])
next
  case (CreateIndex unique n t c)
  let ?ix = "\<lparr>ix_table = t, ix_column = c, ix_unique = unique\<rparr>"
  from CreateIndex run have fresh: "n \<notin> fst ` ct_indexes s" and ix: "index_ok s ?ix"
    and s': "s' = s\<lparr>ct_indexes := insert (n, ?ix) (ct_indexes s)\<rparr>"
    by (simp_all add: index_ok_def split: if_splits option.splits)
  show ?thesis unfolding s' by (rule create_index_ok[OF ok fresh ix])
next
  case (AddColumn t c col)
  then obtain tb where tb: "map_of (ct_tables s) t = Some tb" and c: "c \<notin> fst ` set (tb_columns tb)"
    and s': "s' = on_table t (add_column ev c col) s"
    and keep: "table_ok (ct_types s) tb \<Longrightarrow> table_ok (ct_types s) (add_column ev c col tb)"
    using run add_column_ok[where types="ct_types s" and ev=ev and c=c and col=col]
    by (auto split: if_splits option.splits)
  have "catalog_ok ((on_table t (add_column ev c col) s)\<lparr>ct_indexes := ct_indexes s\<rparr>)"
    using tb keep by (intro on_table_ok[OF ok]) (auto intro: index_ok_add_column[OF _ tb c])
  moreover have "(on_table t (add_column ev c col) s)\<lparr>ct_indexes := ct_indexes s\<rparr> = s'"
    by (simp add: s' on_table_def)
  ultimately show ?thesis by simp
next
  case (DropColumn t c)
  let ?P = "\<lambda>ix. ix_table ix = t \<and> ix_column ix = c"
  have s': "s' = (on_table t (drop_column c) s)\<lparr>ct_indexes := {p \<in> ct_indexes s. \<not> ?P (snd p)}\<rparr>"
    using DropColumn run by (auto simp: drop_indexes_def keep_def split: if_splits option.splits)
  show ?thesis unfolding s'
    by (intro on_table_ok[OF ok]) (auto intro: drop_column_ok index_ok_drop_column)
next
  case (DropIndex n)
  thus ?thesis using run fewer_indexes_ok[OF ok, of "keep (\<lambda>p. fst p \<noteq> n) (ct_indexes s)"]
    by (auto simp: keep_def split: if_splits)
next
  case (DropTable t)
  thus ?thesis using run drop_table_ok[OF ok] by (auto split: if_splits)
next
  case (DropType e)
  thus ?thesis using run drop_type_ok[OF ok] by (auto split: if_splits)
qed

lemma run_ddl_ok: "catalog_ok s \<Longrightarrow> run_ddl ev ds s = Inr s' \<Longrightarrow> catalog_ok s'"
proof (induction ev ds s rule: run_ddl.induct)
  case (2 ev d ds s)
  thus ?case using exec_ddl_ok[OF 2(2)] by (auto split: sum.splits)
qed simp

lemma run_ddl_append:
  "run_ddl ev (ds @ es) s = (case run_ddl ev ds s of Inl e \<Rightarrow> Inl e | Inr s' \<Rightarrow> run_ddl ev es s')"
  by (induction ev ds s rule: run_ddl.induct) (auto split: sum.splits)

subsection \<open>Versions\<close>

text \<open>
  The schema after the first migrations on a fresh database, and the databases at that version: the same
  schema, with any rows in its tables.
\<close>

definition schema :: "nat \<Rightarrow> catalog" where
  "schema n = (case upgrade (\<lambda>_ _. SNull) (take n migrations) empty_catalog of Inr s \<Rightarrow> s | Inl _ \<Rightarrow> empty_catalog)"

definition erase :: "catalog \<Rightarrow> catalog" where
  "erase s = s\<lparr>ct_tables := map (\<lambda>(t, tb). (t, tb\<lparr>tb_rows := []\<rparr>)) (ct_tables s)\<rparr>"

definition at_version :: "nat \<Rightarrow> catalog \<Rightarrow> bool" where
  "at_version n s \<longleftrightarrow> erase s = schema n \<and> catalog_ok s"

definition rows_of :: "catalog \<Rightarrow> string \<Rightarrow> (string \<times> sqlval) list list" where
  "rows_of s t = (case map_of (ct_tables s) t of Some tb \<Rightarrow> tb_rows tb | None \<Rightarrow> [])"

abbreviation status_labels :: "(string \<times> string list) list" where
  "status_labels \<equiv> [(''events_status_enum'', [''received'', ''processing'', ''processed'', ''failed'', ''dead''])]"

abbreviation two_tables ::
  "(string \<times> column) list \<Rightarrow> (string \<times> column) list \<Rightarrow> (string \<times> sqlval) list list \<Rightarrow>
   (string \<times> sqlval) list list \<Rightarrow> (string \<times> index) set \<Rightarrow> catalog" where
  "two_tables ecols dcols erows drows ixs \<equiv>
     \<lparr>ct_types = status_labels,
      ct_tables = [(''events'', \<lparr>tb_columns = ecols, tb_primary = Some (''PK_events_id'', ''id''), tb_rows = erows\<rparr>),
                   (''dlq_messages'', \<lparr>tb_columns = dcols, tb_primary = Some (''PK_dlq_messages_id'', ''id''), tb_rows = drows\<rparr>)],
      ct_indexes = ixs\<rparr>"

abbreviation on_column :: "string \<Rightarrow> string \<Rightarrow> bool \<Rightarrow> index" where
  "on_column t c u \<equiv> \<lparr>ix_table = t, ix_column = c, ix_unique = u\<rparr>"

abbreviation fixed_indexes :: "(string \<times> index) set" where
  "fixed_indexes \<equiv>
     {(''UQ_events_event_id'', on_column ''events'' ''event_id'' True),
      (''IDX_events_correlation_id'', on_column ''events'' ''correlation_id'' False),
      (''IDX_dlq_messages_correlation_id'', on_column ''dlq_messages'' ''correlation_id'' False)}"

abbreviation plain_message_id :: "string \<times> index" where
  "plain_message_id \<equiv> (''IDX_dlq_messages_message_id'', on_column ''dlq_messages'' ''message_id'' False)"

abbreviation unique_message_id :: "string \<times> index" where
  "unique_message_id \<equiv> (''UQ_dlq_messages_message_id'', on_column ''dlq_messages'' ''message_id'' True)"

abbreviation duplicate_count :: "string \<times> column" where
  "duplicate_count \<equiv> (''duplicate_count'', defaulting IntegerType (Literal (SInt 0)))"

abbreviation replayed_at :: "string \<times> column" where
  "replayed_at \<equiv> (''replayed_at'', nullable Timestamptz)"

lemma columns_names:
  "map fst events_columns = [''id'', ''event_id'', ''event_type'', ''status'', ''attempts'',
     ''correlation_id'', ''payload'', ''failure_reason'', ''created_at'', ''updated_at'']"
  "map fst dlq_columns = [''id'', ''message_id'', ''correlation_id'', ''event_id'', ''reason'',
     ''attempts'', ''payload'', ''created_at'']"
  by (simp_all add: events_columns_def dlq_columns_def)

lemma columns_names_set:
  "fst ` set events_columns = set [''id'', ''event_id'', ''event_type'', ''status'', ''attempts'',
     ''correlation_id'', ''payload'', ''failure_reason'', ''created_at'', ''updated_at'']"
  "fst ` set dlq_columns = set [''id'', ''message_id'', ''correlation_id'', ''event_id'', ''reason'',
     ''attempts'', ''payload'', ''created_at'']"
  by (simp_all add: events_columns_def dlq_columns_def)

lemma columns_known:
  "list_all (\<lambda>(c, col). type_known status_labels (cl_type col)) events_columns"
  "list_all (\<lambda>(c, col). type_known status_labels (cl_type col)) dlq_columns"
  by (simp_all add: events_columns_def dlq_columns_def)

lemma init_on_empty:
  "run_up ev InitSchema empty_catalog =
     Inr (two_tables events_columns dlq_columns [] [] (insert plain_message_id fixed_indexes))"
  by (simp add: InitSchema_def InitSchema_up_def empty_catalog_def columns_names columns_names_set columns_known
        insert_commute column_values_def)

lemma up_duplicate_count:
  "run_up ev AddEventDuplicateCount (two_tables events_columns dcols R D I) =
     Inr (two_tables (events_columns @ [duplicate_count]) dcols
            (extended_rows ev ''duplicate_count'' (snd duplicate_count) R) D I)"
  by (simp add: AddEventDuplicateCount_def columns_names_set on_table_def add_column_def default_value_def
        list_all_iff list_ex_iff)

lemma up_replayed_at:
  "run_up ev AddDlqReplayedAt (two_tables ecols dlq_columns R D I) =
     Inr (two_tables ecols (dlq_columns @ [replayed_at]) R
            (extended_rows ev ''replayed_at'' (snd replayed_at) D) I)"
  by (simp add: AddDlqReplayedAt_def columns_names_set on_table_def add_column_def default_value_def
        list_all_iff list_ex_iff)

lemma up_unique:
  "run_up ev UniqueDlqMessageId (two_tables ecols dlq_columns R D (insert plain_message_id fixed_indexes)) =
     (if distinct (column_values ''message_id'' D)
      then Inr (two_tables ecols dlq_columns R D (insert unique_message_id fixed_indexes)) else Inl ''23505'')"
  by (simp add: UniqueDlqMessageId_def columns_names_set)

lemma down_duplicate_count:
  assumes "\<forall>p \<in> I. ix_column (snd p) \<noteq> ''duplicate_count''"
  shows "run_down ev AddEventDuplicateCount (two_tables (events_columns @ [duplicate_count]) dcols R D I) =
     Inr (two_tables events_columns dcols (map (filter (\<lambda>p. fst p \<noteq> ''duplicate_count'')) R) D I)"
proof -
  have "keep (\<lambda>p. ix_table (snd p) = ''events'' \<longrightarrow> ix_column (snd p) \<noteq> ''duplicate_count'') I = I"
    using assms by (auto simp: keep_def)
  moreover have "filter (\<lambda>p. fst p \<noteq> ''duplicate_count'') events_columns = events_columns"
    by (rule fresh_filter) (simp add: columns_names_set)
  ultimately show ?thesis
    by (simp add: AddEventDuplicateCount_def columns_names_set on_table_def drop_column_def drop_indexes_def)
qed

lemma down_replayed_at:
  assumes "\<forall>p \<in> I. ix_column (snd p) \<noteq> ''replayed_at''"
  shows "run_down ev AddDlqReplayedAt (two_tables ecols (dlq_columns @ [replayed_at]) R D I) =
     Inr (two_tables ecols dlq_columns R (map (filter (\<lambda>p. fst p \<noteq> ''replayed_at'')) D) I)"
proof -
  have "keep (\<lambda>p. ix_table (snd p) = ''dlq_messages'' \<longrightarrow> ix_column (snd p) \<noteq> ''replayed_at'') I = I"
    using assms by (auto simp: keep_def)
  moreover have "filter (\<lambda>p. fst p \<noteq> ''replayed_at'') dlq_columns = dlq_columns"
    by (rule fresh_filter) (simp add: columns_names_set)
  ultimately show ?thesis
    by (simp add: AddDlqReplayedAt_def columns_names_set on_table_def drop_column_def drop_indexes_def)
qed

lemma down_unique:
  "run_down ev UniqueDlqMessageId (two_tables ecols dlq_columns R D (insert unique_message_id fixed_indexes)) =
     Inr (two_tables ecols dlq_columns R D (insert plain_message_id fixed_indexes))"
  by (simp add: UniqueDlqMessageId_def columns_names_set)

lemma down_init:
  "run_down ev InitSchema (two_tables events_columns dlq_columns R D (insert plain_message_id fixed_indexes)) =
     Inr empty_catalog"
  by (simp add: InitSchema_def InitSchema_down_def empty_catalog_def drop_indexes_def)

lemma upgrade_Cons:
  "upgrade ev (m # ms) s = (case run_up ev m s of Inl e \<Rightarrow> Inl e | Inr s' \<Rightarrow> upgrade ev ms s')"
  by (simp add: upgrade_def run_ddl_append split: sum.splits)

lemma upgrade_Nil: "upgrade ev [] s = Inr s"
  by (simp add: upgrade_def)

lemma take_migrations:
  "take 0 migrations = []"
  "take 1 migrations = [InitSchema]"
  "take 2 migrations = [InitSchema, AddEventDuplicateCount]"
  "take 3 migrations = [InitSchema, AddEventDuplicateCount, UniqueDlqMessageId]"
  "take 4 migrations = [InitSchema, AddEventDuplicateCount, UniqueDlqMessageId, AddDlqReplayedAt]"
  by (simp_all add: migrations_def)

lemma schema_versions:
  "schema 0 = empty_catalog"
  "schema 1 = two_tables events_columns dlq_columns [] [] (insert plain_message_id fixed_indexes)"
  "schema 2 = two_tables (events_columns @ [duplicate_count]) dlq_columns [] [] (insert plain_message_id fixed_indexes)"
  "schema 3 = two_tables (events_columns @ [duplicate_count]) dlq_columns [] [] (insert unique_message_id fixed_indexes)"
  "schema 4 = two_tables (events_columns @ [duplicate_count]) (dlq_columns @ [replayed_at]) [] []
     (insert unique_message_id fixed_indexes)"
  unfolding schema_def take_migrations upgrade_Cons upgrade_Nil init_on_empty
  by (simp_all add: up_duplicate_count up_unique up_replayed_at extended_rows_def column_values_def)

lemmas schema_Suc = schema_versions(2)[unfolded One_nat_def] schema_versions(3)[unfolded numeral_2_eq_2]

lemma erase_two_tables [simp]:
  "erase (two_tables E D R Q I) = two_tables E D [] [] I"
  by (simp add: erase_def)

lemma erase_empty: "erase s = empty_catalog \<Longrightarrow> s = empty_catalog"
  by (cases s) (simp add: erase_def empty_catalog_def)

lemma erased_two_tables:
  assumes "erase s = two_tables E D [] [] I"
  obtains R Q where "s = two_tables E D R Q I"
proof -
  obtain ty tbs ix where s: "s = \<lparr>ct_types = ty, ct_tables = tbs, ct_indexes = ix\<rparr>" by (cases s)
  with assms obtain e d where tbs: "tbs = [(''events'', e), (''dlq_messages'', d)]"
      and e: "e\<lparr>tb_rows := []\<rparr> = \<lparr>tb_columns = E, tb_primary = Some (''PK_events_id'', ''id''), tb_rows = []\<rparr>"
      and d: "d\<lparr>tb_rows := []\<rparr> = \<lparr>tb_columns = D, tb_primary = Some (''PK_dlq_messages_id'', ''id''), tb_rows = []\<rparr>"
      and rest: "ty = status_labels" "ix = I"
    by (auto simp: erase_def)
  from e d have "s = two_tables E D (tb_rows e) (tb_rows d) I"
    by (cases e; cases d) (simp add: s tbs rest)
  thus thesis by (rule that)
qed

lemma at_version_cases:
  assumes "at_version n s" and "n \<le> 4"
  obtains (fresh) "n = 0" "s = empty_catalog"
    | (one) R Q where "n = 1" "s = two_tables events_columns dlq_columns R Q (insert plain_message_id fixed_indexes)"
    | (two) R Q where "n = 2"
        "s = two_tables (events_columns @ [duplicate_count]) dlq_columns R Q (insert plain_message_id fixed_indexes)"
    | (three) R Q where "n = 3"
        "s = two_tables (events_columns @ [duplicate_count]) dlq_columns R Q (insert unique_message_id fixed_indexes)"
    | (four) R Q where "n = 4"
        "s = two_tables (events_columns @ [duplicate_count]) (dlq_columns @ [replayed_at]) R Q
           (insert unique_message_id fixed_indexes)"
proof -
  have e: "erase s = schema n" using assms(1) by (simp add: at_version_def)
  have "n = 0 \<or> n = 1 \<or> n = 2 \<or> n = 3 \<or> n = 4" using assms(2) by arith
  thus thesis
  proof (elim disjE)
    assume "n = 0" thus thesis using fresh e erase_empty by (simp add: schema_versions)
  next
    assume n: "n = 1"
    show thesis by (rule erased_two_tables[OF e[unfolded n schema_versions]]) (rule one[OF n])
  next
    assume n: "n = 2"
    show thesis by (rule erased_two_tables[OF e[unfolded n schema_versions]]) (rule two[OF n])
  next
    assume n: "n = 3"
    show thesis by (rule erased_two_tables[OF e[unfolded n schema_versions]]) (rule three[OF n])
  next
    assume n: "n = 4"
    show thesis by (rule erased_two_tables[OF e[unfolded n schema_versions]]) (rule four[OF n])
  qed
qed

lemma rows_fit:
  assumes "catalog_ok s" and "(t, tb) \<in> set (ct_tables s)"
  shows "list_all (row_fits (ct_types s) (tb_columns tb)) (tb_rows tb)"
  using catalog_okD(3)[OF assms] by (simp add: table_ok_def)

lemma migrations_nth:
  "migrations ! 0 = InitSchema" "migrations ! Suc 0 = AddEventDuplicateCount"
  "migrations ! 2 = UniqueDlqMessageId" "migrations ! 3 = AddDlqReplayedAt"
  by (simp_all add: migrations_def)

lemma at_version_next:
  "catalog_ok s \<Longrightarrow> run_up ev m s = Inr s' \<Longrightarrow> erase s' = schema n \<Longrightarrow> at_version n s'"
  using run_ddl_ok by (auto simp: at_version_def)

text \<open>C19. Every migration can be rolled back: run on a database at its version, whatever its rows, and
  undone, it leaves exactly the database there was, rows and indexes included; in between the database
  is at the next version.
\<close>

theorem migration_undone:
  assumes n: "n < 4" and v: "at_version n s" and up: "run_up ev (migrations ! n) s = Inr s'"
  shows "at_version (Suc n) s' \<and> run_down ev' (migrations ! n) s' = Inr s"
proof -
  have ok: "catalog_ok s" using v by (simp add: at_version_def)
  note step = at_version_next[OF ok up]
  from v n[THEN less_imp_le] show ?thesis
  proof (cases rule: at_version_cases)
    case fresh
    with up have s': "s' = two_tables events_columns dlq_columns [] [] (insert plain_message_id fixed_indexes)"
      by (simp add: migrations_nth init_on_empty)
    hence "at_version (Suc 0) s'"
      by (intro step) (simp add: schema_Suc)
    with fresh s' show ?thesis by (simp add: migrations_nth down_init)
  next
    case (one R Q)
    from rows_fit[OF ok, of "''events''"] one
    have R: "list_all (row_fits status_labels events_columns) R" by simp
    have "map (filter (\<lambda>p. fst p \<noteq> ''duplicate_count'')) (extended_rows ev ''duplicate_count'' c R) = R" for c
      by (rule extended_rows_back[OF R]) (simp add: columns_names_set)
    with one up step show ?thesis
      by (auto simp: migrations_nth up_duplicate_count down_duplicate_count schema_Suc)
  next
    case (two R Q)
    with up step show ?thesis
      by (auto simp: migrations_nth up_unique down_unique schema_versions split: if_splits)
  next
    case (three R Q)
    from rows_fit[OF ok, of "''dlq_messages''"] three
    have Q: "list_all (row_fits status_labels dlq_columns) Q" by simp
    have "map (filter (\<lambda>p. fst p \<noteq> ''replayed_at'')) (extended_rows ev ''replayed_at'' c Q) = Q" for c
      by (rule extended_rows_back[OF Q]) (simp add: columns_names_set)
    with three up step show ?thesis
      by (auto simp: migrations_nth up_replayed_at down_replayed_at schema_versions)
  next
    case (four R Q)
    with n show ?thesis by simp
  qed
qed

text \<open>A database of the second version with one dead letter, for examples.\<close>

definition dead_letter_row :: "string \<Rightarrow> (string \<times> sqlval) list" where
  "dead_letter_row m =
     [(''id'', SUuid ''00000000-0000-4000-8000-000000000000''), (''message_id'', SText m),
      (''correlation_id'', SText ''corr''), (''event_id'', SNull), (''reason'', SText ''poison''),
      (''attempts'', SInt 0), (''payload'', SNull), (''created_at'', STime 0)]"

definition second_version :: "string list \<Rightarrow> catalog" where
  "second_version ms =
     two_tables (events_columns @ [duplicate_count]) dlq_columns [] (map dead_letter_row ms)
       (insert plain_message_id fixed_indexes)"

lemma second_version_at:
  assumes "\<And>m. m \<in> set ms \<Longrightarrow> CHR 0x00 \<notin> set m \<and> code_points m \<le> 255"
  shows "at_version 2 (second_version ms)"
proof -
  have events: "table_ok status_labels \<lparr>tb_columns = events_columns @ [duplicate_count],
        tb_primary = Some (''PK_events_id'', ''id''), tb_rows = []\<rparr>"
    by (simp add: table_ok_def columns_names columns_names_set columns_known)
  have "row_fits status_labels dlq_columns (dead_letter_row m)" if "m \<in> set ms" for m
    using assms[OF that] by (simp add: row_fits_def dlq_columns_def dead_letter_row_def value_fits_def code_points_def)
  hence dlq: "table_ok status_labels \<lparr>tb_columns = dlq_columns, tb_primary = Some (''PK_dlq_messages_id'', ''id''),
        tb_rows = map dead_letter_row ms\<rparr>"
    by (auto simp: table_ok_def columns_names columns_names_set columns_known list_all_iff[of "row_fits _ _"])
  show ?thesis
    unfolding at_version_def second_version_def
    using events dlq
    by (simp add: catalog_ok_def schema_versions index_ok_def columns_names_set column_values_def)
qed

lemma migration_undone_witness:
  "at_version 3 (two_tables (events_columns @ [duplicate_count]) dlq_columns []
       [dead_letter_row ''m1'', dead_letter_row ''m2''] (insert unique_message_id fixed_indexes)) \<and>
   run_down (\<lambda>_ _. SNull) UniqueDlqMessageId
     (two_tables (events_columns @ [duplicate_count]) dlq_columns []
       [dead_letter_row ''m1'', dead_letter_row ''m2''] (insert unique_message_id fixed_indexes)) =
     Inr (second_version [''m1'', ''m2''])"
proof -
  have v: "at_version 2 (second_version [''m1'', ''m2''])"
    by (rule second_version_at) (auto simp: code_points_def)
  have up: "run_up (\<lambda>_ _. SNull) (migrations ! 2) (second_version [''m1'', ''m2'']) =
      Inr (two_tables (events_columns @ [duplicate_count]) dlq_columns []
       [dead_letter_row ''m1'', dead_letter_row ''m2''] (insert unique_message_id fixed_indexes))"
    by (simp add: migrations_nth second_version_def up_unique column_values_def dead_letter_row_def)
  show ?thesis
    using migration_undone[OF _ v up, of "\<lambda>_ _. SNull"] by (simp add: migrations_nth)
qed

lemma no_rows:
  "rows_of empty_catalog t = []" "column_values c [] = []" "extended_rows ev c col [] = []"
  by (simp_all add: rows_of_def empty_catalog_def column_values_def extended_rows_def)

text \<open>C17. Whatever the version a database is at, the remaining migrations bring it to the last one, with one
  exception: before the third they are refused, as a unique violation, exactly when two stored dead
  letters have the same message id. The migration that makes the message id unique removes no duplicates.
\<close>

theorem upgrade_refused_by_duplicates:
  assumes n: "n \<le> 4" and v: "at_version n s"
  shows "(case upgrade ev (drop n migrations) s of
            Inr s' \<Rightarrow> at_version 4 s' \<and>
              (n \<le> 2 \<longrightarrow> distinct (column_values ''message_id'' (rows_of s ''dlq_messages'')))
          | Inl e \<Rightarrow> e = ''23505'' \<and> n \<le> 2 \<and>
              \<not> distinct (column_values ''message_id'' (rows_of s ''dlq_messages'')))"
proof -
  have ok: "catalog_ok s" using v by (simp add: at_version_def)
  have final: "at_version 4 s'" if "upgrade ev ms s = Inr s'" "erase s' = schema 4" for ms s'
    using that run_ddl_ok[OF ok] by (auto simp: at_version_def upgrade_def)
  note runs = upgrade_Cons upgrade_Nil migrations_def up_duplicate_count up_unique up_replayed_at
    init_on_empty no_rows schema_versions
  from v n show ?thesis
  proof (cases rule: at_version_cases)
    case fresh
    show ?thesis
      using final[of migrations] fresh by (auto simp: runs)
  next
    case (one R Q)
    show ?thesis
      using final[of "drop 1 migrations"] one by (auto simp: runs rows_of_def)
  next
    case (two R Q)
    show ?thesis
      using final[of "drop 2 migrations"] two by (auto simp: runs rows_of_def)
  next
    case (three R Q)
    show ?thesis
      using final[of "drop 3 migrations"] three by (auto simp: runs rows_of_def)
  next
    case (four R Q)
    with v show ?thesis by (simp add: runs)
  qed
qed

lemma upgrade_refused_by_duplicates_witness:
  "upgrade (\<lambda>_ _. SNull) (drop 2 migrations) (second_version [''m1'', ''m1'']) = Inl ''23505''"
proof -
  have v: "at_version 2 (second_version [''m1'', ''m1''])"
    by (rule second_version_at) (auto simp: code_points_def)
  have "\<not> distinct (column_values ''message_id'' (rows_of (second_version [''m1'', ''m1'']) ''dlq_messages''))"
    by (simp add: second_version_def rows_of_def column_values_def dead_letter_row_def)
  thus ?thesis
    using upgrade_refused_by_duplicates[OF _ v, of "\<lambda>_ _. SNull"] by (auto split: sum.splits)
qed

subsection \<open>The entities\<close>

datatype ts_type = TsVarchar nat | TsEnum "string list" | TsInt | TsJsonb | TsText | TsTimestamptz

datatype entity_field =
    PrimaryGeneratedColumn string
  | Column string ts_type bool "sqlval option"
  | CreateDateColumn string
  | UpdateDateColumn string

record entity =
  en_table :: string
  en_fields :: "entity_field list"
  en_indexes :: "(string \<times> string \<times> bool) list"

definition EventStatus_values :: "string list" where
  "EventStatus_values = map status_string [Received, Processing, Processed, Failed, Dead]"

definition Event_entity :: entity where
  "Event_entity =
     \<lparr>en_table = ''events'',
      en_fields =
        [PrimaryGeneratedColumn ''id'',
         Column ''event_id'' (TsVarchar 255) False None,
         Column ''event_type'' (TsVarchar 255) False None,
         Column ''status'' (TsEnum EventStatus_values) False (Some (SText (status_string Received))),
         Column ''attempts'' TsInt False (Some (SInt 0)),
         Column ''duplicate_count'' TsInt False (Some (SInt 0)),
         Column ''correlation_id'' (TsVarchar 255) False None,
         Column ''payload'' TsJsonb False None,
         Column ''failure_reason'' TsText True None,
         CreateDateColumn ''created_at'',
         UpdateDateColumn ''updated_at''],
      en_indexes = [(''UQ_events_event_id'', ''event_id'', True),
                    (''IDX_events_correlation_id'', ''correlation_id'', False)]\<rparr>"

definition DlqMessage_entity :: entity where
  "DlqMessage_entity =
     \<lparr>en_table = ''dlq_messages'',
      en_fields =
        [PrimaryGeneratedColumn ''id'',
         Column ''message_id'' (TsVarchar 255) True None,
         Column ''correlation_id'' (TsVarchar 255) False None,
         Column ''event_id'' (TsVarchar 255) True None,
         Column ''reason'' TsText False None,
         Column ''attempts'' TsInt False (Some (SInt 0)),
         Column ''payload'' TsText True None,
         CreateDateColumn ''created_at'',
         Column ''replayed_at'' TsTimestamptz True None],
      en_indexes = [(''UQ_dlq_messages_message_id'', ''message_id'', True),
                    (''IDX_dlq_messages_correlation_id'', ''correlation_id'', False)]\<rparr>"

text \<open>
  The column TypeORM expects for a field: an enum type is named after table and column. How the server
  generates ids and dates (the default expressions) is not part of the comparison.
\<close>

fun column_type :: "string \<Rightarrow> string \<Rightarrow> ts_type \<Rightarrow> col_type" where
  "column_type t c (TsVarchar n) = Varchar n"
| "column_type t c (TsEnum ls) = EnumType (t @ ''_'' @ c @ ''_enum'')"
| "column_type t c TsInt = IntegerType"
| "column_type t c TsJsonb = Jsonb"
| "column_type t c TsText = TextType"
| "column_type t c TsTimestamptz = Timestamptz"

fun expected_column :: "string \<Rightarrow> entity_field \<Rightarrow> string \<times> col_type \<times> bool \<times> sqlval option" where
  "expected_column t (PrimaryGeneratedColumn c) = (c, Uuid, True, None)"
| "expected_column t (Column c ty nul d) = (c, column_type t c ty, \<not> nul, d)"
| "expected_column t (CreateDateColumn c) = (c, Timestamptz, True, None)"
| "expected_column t (UpdateDateColumn c) = (c, Timestamptz, True, None)"

fun expected_types :: "string \<Rightarrow> entity_field \<Rightarrow> (string \<times> string list) list" where
  "expected_types t (Column c (TsEnum ls) nul d) = [(t @ ''_'' @ c @ ''_enum'', ls)]"
| "expected_types t _ = []"

definition literal_default :: "column \<Rightarrow> sqlval option" where
  "literal_default col = (case cl_default col of Some (Literal v) \<Rightarrow> Some v | _ \<Rightarrow> None)"

definition stored_columns :: "catalog \<Rightarrow> string \<Rightarrow> (string \<times> col_type \<times> bool \<times> sqlval option) list" where
  "stored_columns s t = (case map_of (ct_tables s) t of
       Some tb \<Rightarrow> map (\<lambda>(c, col). (c, cl_type col, cl_notNull col, literal_default col)) (tb_columns tb)
     | None \<Rightarrow> [])"

definition matches_entity :: "catalog \<Rightarrow> entity \<Rightarrow> bool" where
  "matches_entity s e \<longleftrightarrow>
     map_of (ct_tables s) (en_table e) \<noteq> None \<and>
     set (stored_columns s (en_table e)) = set (map (expected_column (en_table e)) (en_fields e)) \<and>
     set (concat (map (expected_types (en_table e)) (en_fields e))) \<subseteq> set (ct_types s) \<and>
     (\<lambda>(n, ix). (n, ix_column ix, ix_unique ix)) ` keep (\<lambda>p. ix_table (snd p) = en_table e) (ct_indexes s)
       = set (en_indexes e)"

text \<open>C20. The migrations, run on a fresh database, succeed and reach exactly the schema the entities
  declare: the same columns with the same types, nullability and literal defaults, the same enum values,
  the same indexes, and no table, type or index more. Without the last migration they do not.
\<close>

theorem migrations_reach_entities:
  "upgrade ev migrations empty_catalog = Inr (schema 4) \<and>
   matches_entity (schema 4) Event_entity \<and> matches_entity (schema 4) DlqMessage_entity \<and>
   map fst (ct_tables (schema 4)) = [en_table Event_entity, en_table DlqMessage_entity] \<and>
   map snd (ct_types (schema 4)) = [EventStatus_values] \<and>
   ix_table ` snd ` ct_indexes (schema 4) = {en_table Event_entity, en_table DlqMessage_entity} \<and>
   \<not> matches_entity (schema 3) DlqMessage_entity"
proof -
  have run: "upgrade ev migrations empty_catalog = Inr (schema 4)"
    by (simp add: upgrade_Cons upgrade_Nil migrations_def up_duplicate_count up_unique up_replayed_at
          init_on_empty no_rows schema_versions)
  have events_cols: "set (stored_columns (schema 4) ''events'') = set (map (expected_column ''events'') (en_fields Event_entity))"
    unfolding set_eq_subset
    by (simp add: stored_columns_def schema_versions Event_entity_def events_columns_def literal_default_def)
  have dlq_cols: "set (stored_columns (schema 4) ''dlq_messages'') =
      set (map (expected_column ''dlq_messages'') (en_fields DlqMessage_entity))"
    unfolding set_eq_subset
    by (simp add: stored_columns_def schema_versions DlqMessage_entity_def dlq_columns_def literal_default_def)
  have types: "concat (map (expected_types ''events'') (en_fields Event_entity)) = ct_types (schema 4)"
    by (simp add: Event_entity_def schema_versions EventStatus_values_def)
  have events: "matches_entity (schema 4) Event_entity"
    unfolding matches_entity_def
    using events_cols types
    by (simp add: Event_entity_def schema_versions)
  have dlq: "matches_entity (schema 4) DlqMessage_entity"
    unfolding matches_entity_def
    using dlq_cols
    by (simp add: DlqMessage_entity_def schema_versions)
  have t: "en_table DlqMessage_entity = ''dlq_messages''"
    by (simp add: DlqMessage_entity_def)
  have "(''replayed_at'', Timestamptz, False, None) \<in> set (map (expected_column ''dlq_messages'') (en_fields DlqMessage_entity))"
    by (simp add: DlqMessage_entity_def)
  moreover have "(''replayed_at'', Timestamptz, False, None) \<notin> set (stored_columns (schema 3) ''dlq_messages'')"
    by (simp add: stored_columns_def schema_versions dlq_columns_def)
  ultimately have "\<not> matches_entity (schema 3) DlqMessage_entity"
    unfolding matches_entity_def t by blast
  moreover have "map fst (ct_tables (schema 4)) = [en_table Event_entity, en_table DlqMessage_entity]"
    and "map snd (ct_types (schema 4)) = [EventStatus_values]"
    and "ix_table ` snd ` ct_indexes (schema 4) = {en_table Event_entity, en_table DlqMessage_entity}"
    by (simp_all add: schema_versions Event_entity_def DlqMessage_entity_def EventStatus_values_def insert_commute)
  ultimately show ?thesis
    using run events dlq by blast
qed

subsection \<open>The rows of the store\<close>

text \<open>The row of an entity as theory \<open>EventStore\<close> keeps it, in the order of the migrated columns.\<close>

definition opt_text :: "string option \<Rightarrow> sqlval" where
  "opt_text x = (case x of None \<Rightarrow> SNull | Some s \<Rightarrow> SText s)"

definition row_of_event :: "event_row \<Rightarrow> (string \<times> sqlval) list" where
  "row_of_event r =
     [(''id'', SUuid (ev_id r)), (''event_id'', SText (ev_eventId r)), (''event_type'', SText (ev_eventType r)),
      (''status'', SText (status_string (ev_status r))), (''attempts'', SInt (ev_attempts r)),
      (''correlation_id'', SText (ev_correlationId r)), (''payload'', SJson (ev_payload r)),
      (''failure_reason'', opt_text (ev_failureReason r)), (''created_at'', STime (ev_createdAt r)),
      (''updated_at'', STime (ev_updatedAt r)), (''duplicate_count'', SInt (ev_duplicateCount r))]"

definition row_of_dlq :: "dlq_row \<Rightarrow> (string \<times> sqlval) list" where
  "row_of_dlq r =
     [(''id'', SUuid (dl_id r)), (''message_id'', opt_text (dl_messageId r)),
      (''correlation_id'', SText (dl_correlationId r)), (''event_id'', opt_text (dl_eventId r)),
      (''reason'', SText (dl_reason r)), (''attempts'', SInt (dl_attempts r)),
      (''payload'', opt_text (dl_payload r)), (''created_at'', STime (dl_createdAt r)),
      (''replayed_at'', case dl_replayedAt r of None \<Rightarrow> SNull | Some t \<Rightarrow> STime t)]"

definition fits_table :: "string \<Rightarrow> (string \<times> sqlval) list \<Rightarrow> bool" where
  "fits_table t row = (case map_of (ct_tables (schema 4)) t of
       Some tb \<Rightarrow> row_fits (ct_types (schema 4)) (tb_columns tb) row | None \<Rightarrow> False)"

lemma no_first_error: "first_error es = None \<longleftrightarrow> (\<forall>e \<in> set es. e = None)"
  by (induction es rule: first_error.induct) auto

lemma varchar255_column_fits:
  "varchar255_error s = None \<longleftrightarrow> CHR 0x00 \<notin> set s \<and> code_points s \<le> 255"
  by (auto simp: varchar255_error_def)

lemma text_fits: "text_error s = None \<longleftrightarrow> CHR 0x00 \<notin> set s"
  by (simp add: text_error_def)

lemma int4_fits: "int4_error (Fin (of_int a)) = None \<longleftrightarrow> - (2 ^ 31) \<le> a \<and> a < 2 ^ 31"
  by (auto simp: int4_error_def)

lemma fits_events:
  "fits_table ''events'' (row_of_event r) \<longleftrightarrow>
     varchar255_error (ev_eventId r) = None \<and> varchar255_error (ev_eventType r) = None \<and>
     varchar255_error (ev_correlationId r) = None \<and> \<not> json_has_nul (ev_payload r) \<and>
     opt_error text_error (ev_failureReason r) = None \<and>
     int4_error (Fin (of_int (ev_attempts r))) = None \<and> int4_error (Fin (of_int (ev_duplicateCount r))) = None"
proof -
  have status: "type_fits status_labels (EnumType ''events_status_enum'') (SText (status_string st))" for st
    by (cases st) simp_all
  show ?thesis
    by (cases "ev_failureReason r")
       (simp_all add: fits_table_def schema_versions row_fits_def row_of_event_def events_columns_def value_fits_def
          opt_text_def varchar255_column_fits text_fits int4_fits status[simplified] conj_ac)
qed

lemma fits_dlq:
  "fits_table ''dlq_messages'' (row_of_dlq r) \<longleftrightarrow>
     opt_error varchar255_error (dl_messageId r) = None \<and> varchar255_error (dl_correlationId r) = None \<and>
     opt_error varchar255_error (dl_eventId r) = None \<and> text_error (dl_reason r) = None \<and>
     opt_error text_error (dl_payload r) = None \<and> int4_error (Fin (of_int (dl_attempts r))) = None"
  by (cases "dl_messageId r"; cases "dl_eventId r"; cases "dl_payload r"; cases "dl_replayedAt r")
     (simp_all add: fits_table_def schema_versions row_fits_def row_of_dlq_def dlq_columns_def value_fits_def
        opt_text_def varchar255_column_fits text_fits int4_fits conj_ac)

lemma integral_attempts:
  assumes "int4_error (Fin q) = None"
  shows "int4_error (Fin (of_int (floor q))) = None"
proof -
  obtain a d where ad: "quotient_of q = (a, d)" by (cases "quotient_of q")
  with assms have "d = 1" by (auto simp: int4_error_def split: if_splits)
  with quotient_of_div[OF ad] have "q = of_int a" by simp
  with assms show ?thesis by simp
qed

definition message_ids :: "dlq_row list \<Rightarrow> sqlval list" where
  "message_ids rows = column_values ''message_id'' (map row_of_dlq rows)"

lemma message_ids_simps [simp]:
  "message_ids [] = []"
  "message_ids (r # rows) = (case dl_messageId r of None \<Rightarrow> [] | Some m \<Rightarrow> [SText m]) @ message_ids rows"
  by (simp_all add: message_ids_def column_values_def row_of_dlq_def opt_text_def split: option.splits)

lemma message_ids_append: "message_ids (xs @ ys) = message_ids xs @ message_ids ys"
  by (induction xs) simp_all

lemma message_ids_in: "SText m \<in> set (message_ids rows) \<longleftrightarrow> (\<exists>r \<in> set rows. dl_messageId r = Some m)"
  by (induction rows) (auto split: option.splits)

lemma unique_index_is_conflict:
  assumes "distinct (message_ids rows)"
  shows "distinct (message_ids (rows @ [new_dlq_row pg v])) \<longleftrightarrow> \<not> dlq_conflict (dv_messageId v) rows"
  using assms
  by (cases "dv_messageId v")
     (auto simp: message_ids_append message_ids_in dlq_conflict_def list_ex_iff new_dlq_row_def)

lemma message_ids_filter: "distinct (message_ids rows) \<Longrightarrow> distinct (message_ids (filter P rows))"
proof (induction rows)
  case (Cons r rows)
  have "set (message_ids (filter P rows)) \<subseteq> set (message_ids rows)"
    by (induction rows) (auto split: option.splits)
  with Cons show ?case by (auto split: option.splits)
qed simp

definition store_fits :: "db \<Rightarrow> bool" where
  "store_fits s \<longleftrightarrow>
     (\<forall>r \<in> ran (events s). fits_table ''events'' (row_of_event r)) \<and>
     (\<forall>r \<in> set (dlq s). fits_table ''dlq_messages'' (row_of_dlq r)) \<and>
     distinct (message_ids (dlq s))"

lemma run_stmt_Inr:
  "run_stmt pg st f s = Inr (x, s') \<longleftrightarrow> stmt_error pg st = None \<and> f s = (x, s')"
  by (auto simp: run_stmt_def split: option.splits)

lemma stmt_schema: "stmt_error pg st = None \<Longrightarrow> schema_error st = None"
  by (simp add: stmt_error_def split: option.splits)

lemma store_fits_event:
  "store_fits s \<Longrightarrow> events s k = Some r \<Longrightarrow> fits_table ''events'' (row_of_event r)"
  by (auto simp: store_fits_def ran_def)

lemma store_fits_modify:
  assumes ok: "store_fits s" and f: "\<And>r. events s k = Some r \<Longrightarrow> fits_table ''events'' (row_of_event (f r))"
  shows "store_fits (modify_event k f s)"
  using ok f by (auto simp: store_fits_def modify_event_def ran_def split: if_splits)

lemma new_event_fits:
  "schema_error (InsertEvent v) = None \<longleftrightarrow> fits_table ''events'' (row_of_event (new_event pg v))"
  by (auto simp: fits_events no_first_error new_event_def int4_error_def)

lemma new_dlq_fits:
  assumes "schema_error (InsertDlq v) = None"
  shows "fits_table ''dlq_messages'' (row_of_dlq (new_dlq_row pg v))"
proof -
  from assms have e: "int4_error (dv_attempts v) = None" by (simp add: no_first_error)
  then obtain q where q: "dv_attempts v = Fin q" by (cases "dv_attempts v") (auto simp: int4_error_def)
  with e have "int4_error (Fin (of_int (floor q))) = None" by (simp add: integral_attempts)
  with assms q show ?thesis by (simp add: fits_dlq no_first_error new_dlq_row_def)
qed

lemma patched_event_fits:
  assumes "fits_table ''events'' (row_of_event r)" and "schema_error (UpdateEvent k p) = None"
  shows "fits_table ''events'' (row_of_event (apply_patch pg p r))"
  using assms
  by (cases "up_attempts p"; cases "up_failureReason p")
     (simp_all add: fits_events no_first_error apply_patch_def)

text \<open>C12. The tables always hold what the migrated schema allows. A row of \<open>events\<close> is refused exactly when
  it does not fit the columns of the table, and every statement of the sources that succeeds on a store
  whose rows fit, with distinct message ids among the dead letters, leaves such a store. Counting a
  duplicate is the one place where this needs an assumption: the counter must be below its last value.
\<close>

theorem store_keeps_the_schema:
  assumes ok: "store_fits s"
  shows "(schema_error (InsertEvent v) = None \<longleftrightarrow> fits_table ''events'' (row_of_event (new_event pg v))) \<and>
    (insert_event_or_ignore pg v s = Inr (ids, s') \<longrightarrow> store_fits s') \<and>
    (update_event pg k p s = Inr (u, s') \<longrightarrow> store_fits s') \<and>
    (increment_duplicates pg k s = Inr (u, s') \<and>
       (\<forall>r. events s k = Some r \<longrightarrow> - (2 ^ 31) \<le> ev_duplicateCount r \<and> ev_duplicateCount r < 2 ^ 31 - 1) \<longrightarrow> store_fits s') \<and>
    (insert_dlq_or_ignore pg w s = Inr (u, s') \<longrightarrow> store_fits s') \<and>
    (update_dlq_replayed pg i t s = Inr (u, s') \<longrightarrow> store_fits s') \<and>
    (delete_dlq pg i s = Inr (n, s') \<longrightarrow> store_fits s')"
proof (intro conjI impI)
  show "schema_error (InsertEvent v) = None \<longleftrightarrow> fits_table ''events'' (row_of_event (new_event pg v))"
    by (rule new_event_fits)
  show "store_fits s'" if run: "insert_event_or_ignore pg v s = Inr (ids, s')"
  proof -
    from run have e: "schema_error (InsertEvent v) = None" and s': "put_event pg v s = (ids, s')"
      unfolding insert_event_or_ignore_def run_stmt_Inr by (auto dest: stmt_schema)
    have "fits_table ''events'' (row_of_event (new_event pg v))"
      using e new_event_fits by blast
    hence "store_fits (s\<lparr>events := (events s)(iv_eventId v \<mapsto> new_event pg v)\<rparr>)"
      if "events s (iv_eventId v) = None"
      using ok that by (auto simp: store_fits_def ran_map_upd)
    with ok s' show ?thesis
      unfolding put_event_def by (auto split: option.splits)
  qed
  show "store_fits s'" if run: "update_event pg k p s = Inr (u, s')"
  proof -
    from run have e: "schema_error (UpdateEvent k p) = None" and s': "s' = modify_event k (apply_patch pg p) s"
      unfolding update_event_def run_stmt_Inr by (auto dest: stmt_schema)
    show ?thesis unfolding s'
      by (intro store_fits_modify[OF ok] patched_event_fits[OF _ e] store_fits_event[OF ok])
  qed
  show "store_fits s'" if run: "increment_duplicates pg k s = Inr (u, s') \<and>
    (\<forall>r. events s k = Some r \<longrightarrow> - (2 ^ 31) \<le> ev_duplicateCount r \<and> ev_duplicateCount r < 2 ^ 31 - 1)"
  proof -
    from run have s': "s' = modify_event k (bump_duplicates pg) s"
      by (auto simp: increment_duplicates_def run_stmt_Inr)
    show ?thesis unfolding s'
    proof (rule store_fits_modify[OF ok])
      fix r assume r: "events s k = Some r"
      from store_fits_event[OF ok r] run r show "fits_table ''events'' (row_of_event (bump_duplicates pg r))"
        unfolding fits_events bump_duplicates_def int4_fits by auto
    qed
  qed
  show "store_fits s'" if run: "insert_dlq_or_ignore pg w s = Inr (u, s')"
  proof -
    from run have e: "schema_error (InsertDlq w) = None" and s': "s' = put_dlq pg w s"
      unfolding insert_dlq_or_ignore_def run_stmt_Inr by (auto dest: stmt_schema)
    from ok show ?thesis
      using unique_index_is_conflict[of "dlq s" pg w] new_dlq_fits[OF e, of pg]
      by (auto simp: s' put_dlq_def store_fits_def)
  qed
  show "store_fits s'" if run: "update_dlq_replayed pg i t s = Inr (u, s')"
  proof -
    let ?f = "\<lambda>r. if dl_id r = i then r\<lparr>dl_replayedAt := Some t\<rparr> else r"
    from run have s': "s' = s\<lparr>dlq := map ?f (dlq s)\<rparr>"
      by (auto simp: update_dlq_replayed_def run_stmt_Inr)
    have "message_ids (map ?f rows) = message_ids rows" for rows
      by (induction rows) simp_all
    with ok show ?thesis by (auto simp: s' store_fits_def fits_dlq)
  qed
  show "store_fits s'" if run: "delete_dlq pg i s = Inr (n, s')"
    using ok run by (auto simp: delete_dlq_def run_stmt_Inr store_fits_def message_ids_filter)
qed

lemma short_text: "CHR 0x00 \<notin> set s \<Longrightarrow> length s \<le> 255 \<Longrightarrow> varchar255_error s = None"
  unfolding varchar255_column_fits code_points_def by (meson le_trans length_filter_le)

definition sample_values :: event_values where
  "sample_values =
     \<lparr>iv_eventId = ''evt'', iv_eventType = ''order.created'', iv_correlationId = ''corr'',
      iv_payload = JObj [], iv_status = Received\<rparr>"

lemma store_keeps_the_schema_witness:
  "store_fits empty_db \<and> store_fits (snd (put_event calm_pg sample_values empty_db))"
proof -
  have ok: "store_fits empty_db"
    by (simp add: store_fits_def empty_db_def)
  have "schema_error (InsertEvent sample_values) = None"
    by (simp add: sample_values_def short_text)
  hence run: "insert_event_or_ignore calm_pg sample_values empty_db = Inr (put_event calm_pg sample_values empty_db)"
    unfolding insert_event_or_ignore_def run_stmt_def stmt_error_def
    by (simp add: calm_pg_def[THEN arg_cong[of _ _ pg_fault]] del: schema_error.simps)
  obtain ids s' where p: "put_event calm_pg sample_values empty_db = (ids, s')"
    by fastforce
  have "store_fits s'"
    by (rule store_keeps_the_schema[OF ok, THEN conjunct2, THEN conjunct1, rule_format, OF run[unfolded p]])
  with ok p show ?thesis by simp
qed

end
