(* ===== verification/ModuleGraph.thy ===== *)
theory ModuleGraph
  imports Config Messaging
begin

text \<open>
  The module graph (\<open>app.module.ts\<close> and the \<open>*.module.ts\<close> files): which modules a process of each role
  loads, what they provide, export and run, what their classes ask for in their constructors, and the
  queues their \<open>@RabbitSubscribe\<close> methods consume. Nest looks a dependency up among the providers of the
  module itself, what the imported modules export and what the global ones export; the libraries' own
  modules are the parameter \<open>libraries\<close>, whose documented exports are \<open>libraries_documented\<close>. The lemmas
  show that every dependency resolves in either role and that the two roles split the work.
\<close>

subsection \<open>Declarations\<close>

datatype library_module = ConfigRoot | TypeOrmRoot | TypeOrmFeature | RabbitMQModule | ThrottlerModule

datatype nest_module =
    AppModule | ObservabilityModule | MetricsModule | MessagingModule | TelemetryEmitterModule
  | Feature app_module | Library library_module

datatype injectable =
    OrderConsumer | DlqConsumer | IdempotentEventProcessor | OrderHandler | DemoOrderHandler | NoopOrderHandler
  | WebhooksController | DemoPoisonController | WebhookSignatureGuard | EventPublisher | RabbitEventPublisher
  | DlqController | AdminKeyGuard | DlqReplayService | HealthController
  | MetricsController | MetricsService | HttpMetricsMiddleware | CorrelationMiddleware | JsonLogger
  | TelemetryEmitter | TelemetryGateway | APP_PIPE
  | AmqpConnection | DataSource | ConfigService | EventRepository | DlqMessageRepository | ThrottlerGuard
  | ThrottlerStorage | Reflector

text \<open>How a provider is made: by a class, by a factory with its \<open>inject\<close> list, or as a value.\<close>

datatype made = UseClass injectable | UseFactory "injectable list" | UseValue

datatype exported = Token injectable | Reexport library_module

record module_decl =
  md_imports :: "nest_module list"
  md_controllers :: "injectable list"
  md_providers :: "(injectable \<times> made) list"
  md_exports :: "exported list"
  md_global :: bool
  md_middleware :: "injectable list"

definition plain_module :: module_decl where
  "plain_module =
     \<lparr>md_imports = [], md_controllers = [], md_providers = [], md_exports = [], md_global = False, md_middleware = []\<rparr>"

abbreviation own :: "injectable \<Rightarrow> injectable \<times> made" where
  "own c \<equiv> (c, UseClass c)"

subsection \<open>The modules of the sources\<close>

definition AppModule_decl :: "(string \<Rightarrow> string option) \<Rightarrow> module_decl" where
  "AppModule_decl process_env = plain_module
     \<lparr>md_imports :=
        [Library ConfigRoot, ObservabilityModule, MetricsModule, Library TypeOrmRoot]
        @ map Feature (resolveRoleModules process_env),
      md_providers := [(APP_PIPE, UseValue)]\<rparr>"

definition ObservabilityModule_decl :: module_decl where
  "ObservabilityModule_decl = plain_module
     \<lparr>md_providers := [own JsonLogger], md_exports := [Token JsonLogger], md_global := True,
      md_middleware := [CorrelationMiddleware]\<rparr>"

definition MetricsModule_decl :: module_decl where
  "MetricsModule_decl = plain_module
     \<lparr>md_controllers := [MetricsController],
      md_providers := [own MetricsService, own HttpMetricsMiddleware],
      md_exports := [Token MetricsService], md_global := True,
      md_middleware := [HttpMetricsMiddleware]\<rparr>"

definition MessagingModule_decl :: module_decl where
  "MessagingModule_decl = plain_module
     \<lparr>md_imports := [Library RabbitMQModule], md_exports := [Reexport RabbitMQModule]\<rparr>"

definition TelemetryEmitterModule_decl :: module_decl where
  "TelemetryEmitterModule_decl = plain_module
     \<lparr>md_imports := [MessagingModule],
      md_providers := [(TelemetryEmitter, UseFactory [AmqpConnection])],
      md_exports := [Token TelemetryEmitter]\<rparr>"

definition ConsumerModule_decl :: "bool \<Rightarrow> module_decl" where
  "ConsumerModule_decl demo = plain_module
     \<lparr>md_imports := [MessagingModule, TelemetryEmitterModule],
      md_providers :=
        [own OrderConsumer, own DlqConsumer, own IdempotentEventProcessor,
         (OrderHandler, UseClass (if demo then DemoOrderHandler else NoopOrderHandler))]\<rparr>"

definition EventsModule_decl :: module_decl where
  "EventsModule_decl = plain_module
     \<lparr>md_imports := [Library TypeOrmFeature], md_exports := [Reexport TypeOrmFeature]\<rparr>"

definition HealthModule_decl :: module_decl where
  "HealthModule_decl = plain_module
     \<lparr>md_imports := [MessagingModule], md_controllers := [HealthController]\<rparr>"

definition WebhooksModule_decl :: module_decl where
  "WebhooksModule_decl = plain_module
     \<lparr>md_imports := [MessagingModule, Library ThrottlerModule],
      md_controllers := [WebhooksController, DemoPoisonController],
      md_providers := [own WebhookSignatureGuard, (EventPublisher, UseClass RabbitEventPublisher)]\<rparr>"

definition DlqModule_decl :: module_decl where
  "DlqModule_decl = plain_module
     \<lparr>md_imports := [Feature EventsModule, MessagingModule],
      md_controllers := [DlqController],
      md_providers := [own AdminKeyGuard, own DlqReplayService]\<rparr>"

definition TelemetryGatewayModule_decl :: module_decl where
  "TelemetryGatewayModule_decl = plain_module
     \<lparr>md_imports := [MessagingModule], md_providers := [own TelemetryGateway]\<rparr>"

text \<open>
  What the libraries contribute: the tokens a module exports and whether it is global, the constructor
  parameters of a library class, and what Nest offers everywhere. Of a library module the sources only
  state the \<open>inject\<close> list of its asynchronous options.
\<close>

record libraries =
  lb_exports :: "library_module \<Rightarrow> injectable list"
  lb_global :: "library_module \<Rightarrow> bool"
  lb_params :: "injectable \<Rightarrow> injectable list"
  lb_core :: "injectable list"

fun library_inject :: "library_module \<Rightarrow> injectable list" where
  "library_inject RabbitMQModule = [ConfigService]"
| "library_inject ThrottlerModule = [ConfigService]"
| "library_inject _ = []"

fun decl_of :: "libraries \<Rightarrow> (string \<Rightarrow> string option) \<Rightarrow> nest_module \<Rightarrow> module_decl" where
  "decl_of lb env AppModule = AppModule_decl env"
| "decl_of lb env ObservabilityModule = ObservabilityModule_decl"
| "decl_of lb env MetricsModule = MetricsModule_decl"
| "decl_of lb env MessagingModule = MessagingModule_decl"
| "decl_of lb env TelemetryEmitterModule = TelemetryEmitterModule_decl"
| "decl_of lb env (Feature ConsumerModule) = ConsumerModule_decl (isDemoMode (env ''DEMO_MODE''))"
| "decl_of lb env (Feature EventsModule) = EventsModule_decl"
| "decl_of lb env (Feature HealthModule) = HealthModule_decl"
| "decl_of lb env (Feature WebhooksModule) = WebhooksModule_decl"
| "decl_of lb env (Feature DlqModule) = DlqModule_decl"
| "decl_of lb env (Feature TelemetryGatewayModule) = TelemetryGatewayModule_decl"
| "decl_of lb env (Library l) = plain_module
     \<lparr>md_exports := map Token (lb_exports lb l), md_global := lb_global lb l\<rparr>"

subsection \<open>What the classes ask for\<close>

text \<open>The constructor parameters of the sources' classes.\<close>

fun params :: "libraries \<Rightarrow> injectable \<Rightarrow> injectable list" where
  "params lb OrderConsumer = [IdempotentEventProcessor, AmqpConnection, TelemetryEmitter, MetricsService]"
| "params lb DlqConsumer = [DataSource, MetricsService]"
| "params lb IdempotentEventProcessor = [DataSource, OrderHandler, TelemetryEmitter, ConfigService]"
| "params lb DemoOrderHandler = []"
| "params lb NoopOrderHandler = []"
| "params lb WebhooksController = [EventPublisher]"
| "params lb DemoPoisonController = [AmqpConnection]"
| "params lb WebhookSignatureGuard = [ConfigService]"
| "params lb RabbitEventPublisher = [AmqpConnection, ConfigService]"
| "params lb DlqController = [DlqMessageRepository, DlqReplayService]"
| "params lb AdminKeyGuard = [ConfigService]"
| "params lb DlqReplayService = [DataSource, AmqpConnection, ConfigService]"
| "params lb HealthController = [DataSource, AmqpConnection]"
| "params lb MetricsController = [MetricsService]"
| "params lb MetricsService = []"
| "params lb HttpMetricsMiddleware = [MetricsService]"
| "params lb CorrelationMiddleware = []"
| "params lb JsonLogger = []"
| "params lb TelemetryGateway = []"
| "params lb c = lb_params lb c"

text \<open>\<open>@UseGuards\<close> on a controller or its routes.\<close>

fun guards :: "injectable \<Rightarrow> injectable list" where
  "guards WebhooksController = [ThrottlerGuard, WebhookSignatureGuard]"
| "guards DlqController = [AdminKeyGuard]"
| "guards _ = []"

fun provider_needs :: "libraries \<Rightarrow> made \<Rightarrow> injectable list" where
  "provider_needs lb (UseClass c) = params lb c"
| "provider_needs lb (UseFactory inject) = inject"
| "provider_needs lb UseValue = []"

definition classes :: "module_decl \<Rightarrow> injectable list" where
  "classes d = md_controllers d @ concat (map guards (md_controllers d)) @ md_middleware d"

definition needs :: "libraries \<Rightarrow> (string \<Rightarrow> string option) \<Rightarrow> nest_module \<Rightarrow> injectable list" where
  "needs lb env m =
     (let d = decl_of lb env m
      in concat (map (provider_needs lb \<circ> snd) (md_providers d)) @ concat (map (params lb) (classes d))
         @ (case m of Library l \<Rightarrow> library_inject l | _ \<Rightarrow> []))"

text \<open>The numbers the modules and constructors read: the throttler's options and the two confirm timeouts.\<close>

record throttler_options =
  th_ttlSeconds :: jsnum
  th_limit :: jsnum

definition throttler_options :: "(string \<Rightarrow> string option) \<Rightarrow> throttler_options" where
  "throttler_options get =
     \<lparr>th_ttlSeconds = config_number get ''RATE_LIMIT_TTL_SECONDS'' 60, th_limit = config_number get ''RATE_LIMIT_MAX'' 600\<rparr>"

definition publisher_confirmTimeoutMs :: "(string \<Rightarrow> string option) \<Rightarrow> jsnum" where
  "publisher_confirmTimeoutMs get = config_number get ''PUBLISH_CONFIRM_TIMEOUT_MS'' 5000"

definition replay_confirmTimeoutMs :: "(string \<Rightarrow> string option) \<Rightarrow> jsnum" where
  "replay_confirmTimeoutMs get = config_number get ''PUBLISH_CONFIRM_TIMEOUT_MS'' 5000"

subsection \<open>Loading and looking up\<close>

definition imports_of :: "libraries \<Rightarrow> (string \<Rightarrow> string option) \<Rightarrow> nest_module \<Rightarrow> nest_module list" where
  "imports_of lb env m = md_imports (decl_of lb env m)"

fun load :: "nat \<Rightarrow> libraries \<Rightarrow> (string \<Rightarrow> string option) \<Rightarrow> nest_module list \<Rightarrow> nest_module list" where
  "load 0 lb env ms = ms"
| "load (Suc n) lb env ms = load n lb env (remdups (ms @ concat (map (imports_of lb env) ms)))"

text \<open>The longest chain of imports has four steps; \<open>every_injection_resolves\<close> shows that nothing is left.\<close>

definition loaded :: "libraries \<Rightarrow> (string \<Rightarrow> string option) \<Rightarrow> nest_module list" where
  "loaded lb env = load 4 lb env [AppModule]"

fun exported_tokens :: "libraries \<Rightarrow> exported \<Rightarrow> injectable list" where
  "exported_tokens lb (Token t) = [t]"
| "exported_tokens lb (Reexport l) = lb_exports lb l"

definition exports_of :: "libraries \<Rightarrow> (string \<Rightarrow> string option) \<Rightarrow> nest_module \<Rightarrow> injectable list" where
  "exports_of lb env m = concat (map (exported_tokens lb) (md_exports (decl_of lb env m)))"

definition globals :: "libraries \<Rightarrow> (string \<Rightarrow> string option) \<Rightarrow> nest_module list" where
  "globals lb env = filter (\<lambda>m. md_global (decl_of lb env m)) (loaded lb env)"

definition visible :: "libraries \<Rightarrow> (string \<Rightarrow> string option) \<Rightarrow> nest_module \<Rightarrow> injectable list" where
  "visible lb env m =
     map fst (md_providers (decl_of lb env m))
     @ concat (map (exports_of lb env) (imports_of lb env m))
     @ concat (map (exports_of lb env) (globals lb env)) @ lb_core lb"

definition resolves :: "libraries \<Rightarrow> (string \<Rightarrow> string option) \<Rightarrow> nest_module \<Rightarrow> bool" where
  "resolves lb env m \<longleftrightarrow> set (needs lb env m) \<subseteq> set (visible lb env m)"

text \<open>What the documentation of the libraries promises of their modules.\<close>

definition libraries_documented :: "libraries \<Rightarrow> bool" where
  "libraries_documented lb \<longleftrightarrow>
     lb_global lb ConfigRoot \<and> ConfigService \<in> set (lb_exports lb ConfigRoot) \<and>
     lb_global lb TypeOrmRoot \<and> DataSource \<in> set (lb_exports lb TypeOrmRoot) \<and>
     DlqMessageRepository \<in> set (lb_exports lb TypeOrmFeature) \<and>
     AmqpConnection \<in> set (lb_exports lb RabbitMQModule) \<and>
     set (lb_params lb ThrottlerGuard) \<subseteq> set (lb_exports lb ThrottlerModule) \<union> set (lb_core lb)"

subsection \<open>Subscriptions\<close>

record subscription =
  sb_exchange :: string
  sb_routingKey :: string
  sb_queue :: string
  sb_durable :: bool
  sb_exclusive :: bool
  sb_nonJson :: bool

definition OrderConsumer_subscription :: subscription where
  "OrderConsumer_subscription =
     \<lparr>sb_exchange = WEBHOOK_EXCHANGE, sb_routingKey = ORDER_RECEIVED_ROUTING_KEY, sb_queue = WORK_QUEUE,
      sb_durable = True, sb_exclusive = False, sb_nonJson = True\<rparr>"

definition DlqConsumer_subscription :: subscription where
  "DlqConsumer_subscription =
     \<lparr>sb_exchange = DEAD_LETTER_EXCHANGE, sb_routingKey = DEAD_LETTER_ROUTING_KEY, sb_queue = DEAD_LETTER_QUEUE,
      sb_durable = True, sb_exclusive = False, sb_nonJson = True\<rparr>"

definition TelemetryGateway_subscription :: subscription where
  "TelemetryGateway_subscription =
     \<lparr>sb_exchange = TELEMETRY_EXCHANGE, sb_routingKey = TELEMETRY_BINDING_KEY, sb_queue = [],
      sb_durable = False, sb_exclusive = True, sb_nonJson = False\<rparr>"

fun subscriptions_of :: "injectable \<Rightarrow> subscription list" where
  "subscriptions_of OrderConsumer = [OrderConsumer_subscription]"
| "subscriptions_of DlqConsumer = [DlqConsumer_subscription]"
| "subscriptions_of TelemetryGateway = [TelemetryGateway_subscription]"
| "subscriptions_of _ = []"

definition subscriptions :: "libraries \<Rightarrow> (string \<Rightarrow> string option) \<Rightarrow> subscription list" where
  "subscriptions lb env =
     concat (map (\<lambda>m. concat (map (subscriptions_of \<circ> fst) (md_providers (decl_of lb env m)))) (loaded lb env))"

definition controllers :: "libraries \<Rightarrow> (string \<Rightarrow> string option) \<Rightarrow> injectable list" where
  "controllers lb env = concat (map (md_controllers \<circ> decl_of lb env) (loaded lb env))"

text \<open>
  A named queue is consumed with the binding and the durability \<open>MessagingModule\<close> declares it with; an
  exclusive one has a name of the broker's and needs only its exchange.
\<close>

definition agrees_with :: "rabbit_options \<Rightarrow> subscription \<Rightarrow> bool" where
  "agrees_with opts sb \<longleftrightarrow>
     sb_exchange sb \<in> ex_name ` set (rmq_exchanges opts) \<and>
     (sb_queue sb \<noteq> [] \<longrightarrow>
        list_ex (\<lambda>q. q_name q = sb_queue sb \<and> q_exchange q = sb_exchange sb \<and> q_routingKey q = sb_routingKey sb
                     \<and> q_durable q = sb_durable sb \<and> q_arguments q = []) (rmq_queues opts))"

subsection \<open>The graph of each role\<close>

definition worker_modules :: "nest_module list" where
  "worker_modules =
     [AppModule, Library ConfigRoot, ObservabilityModule, MetricsModule, Library TypeOrmRoot,
      Feature ConsumerModule, TelemetryEmitterModule, MessagingModule, Library RabbitMQModule]"

definition api_modules :: "bool \<Rightarrow> nest_module list" where
  "api_modules demo =
     [AppModule, Library ConfigRoot, ObservabilityModule, MetricsModule, Library TypeOrmRoot,
      Feature HealthModule, Feature WebhooksModule, Feature DlqModule]
     @ (if demo then [Feature TelemetryGatewayModule] else [])
     @ [Library ThrottlerModule, Feature EventsModule, MessagingModule,
        Library TypeOrmFeature, Library RabbitMQModule]"

lemmas module_decls =
  AppModule_decl_def ObservabilityModule_decl_def MetricsModule_decl_def MessagingModule_decl_def
  TelemetryEmitterModule_decl_def ConsumerModule_decl_def EventsModule_decl_def HealthModule_decl_def
  WebhooksModule_decl_def DlqModule_decl_def TelemetryGatewayModule_decl_def plain_module_def

lemma load_4:
  "load 4 lb env ms = load 0 lb env (remdups (let m3 = remdups (let m2 = remdups (let m1 = remdups (ms @ concat (map (imports_of lb env) ms))
      in m1 @ concat (map (imports_of lb env) m1)) in m2 @ concat (map (imports_of lb env) m2))
    in m3 @ concat (map (imports_of lb env) m3)))"
  by (simp add: eval_nat_numeral Let_def)

lemma loaded_worker: "env ''APP_ROLE'' = Some ''worker'' \<Longrightarrow> loaded lb env = worker_modules"
  by (simp add: loaded_def load_4 Let_def imports_of_def module_decls resolveRoleModules_def worker_modules_def)

lemma loaded_api:
  "env ''APP_ROLE'' \<noteq> Some ''worker'' \<Longrightarrow> loaded lb env = api_modules (isDemoMode (env ''DEMO_MODE''))"
  by (simp add: loaded_def load_4 Let_def imports_of_def module_decls resolveRoleModules_def api_modules_def)

text \<open>C25. Whatever the environment, the module graph is complete: loading has followed every import, and
  every constructor parameter, factory argument and guard of a loaded module resolves, to a provider of
  the module itself or an export of a module it imports or of a global one, provided the libraries
  export what their documentation says.
\<close>

theorem every_injection_resolves:
  assumes lb: "libraries_documented lb"
  shows "\<forall>m \<in> set (loaded lb env). set (imports_of lb env m) \<subseteq> set (loaded lb env) \<and> resolves lb env m"
proof (cases "env ''APP_ROLE'' = Some ''worker''")
  case True
  note l = loaded_worker[where env=env and lb=lb, OF True]
  have "list_all (\<lambda>m. set (imports_of lb env m) \<subseteq> set worker_modules) worker_modules"
    using True by (simp add: worker_modules_def imports_of_def module_decls resolveRoleModules_def)
  moreover have "list_all (resolves lb env) worker_modules"
    using True lb
    by (simp add: worker_modules_def resolves_def needs_def visible_def globals_def l Let_def classes_def
          exports_of_def imports_of_def module_decls resolveRoleModules_def libraries_documented_def)
  ultimately show ?thesis by (simp add: l list_all_iff)
next
  case False
  note l = loaded_api[where env=env and lb=lb, OF False]
  have "list_all (\<lambda>m. set (imports_of lb env m) \<subseteq> set (api_modules d) \<and> resolves lb env m) (api_modules d)"
    if "isDemoMode (env ''DEMO_MODE'') = d" for d
    using that False lb
    by (cases d)
       (auto simp: api_modules_def resolves_def needs_def visible_def globals_def l Let_def classes_def
          exports_of_def imports_of_def module_decls resolveRoleModules_def libraries_documented_def)
  thus ?thesis by (simp add: l list_all_iff)
qed

lemma worker_subscriptions:
  "agrees_with (rabbit_config demo env) OrderConsumer_subscription"
  "agrees_with (rabbit_config demo env) DlqConsumer_subscription"
  by (simp_all add: agrees_with_def rabbit_config_def OrderConsumer_subscription_def DlqConsumer_subscription_def)

text \<open>C24. The two roles split the work. A process that \<open>main.ts\<close> starts as a worker consumes the work queue
  and the dead-letter queue, and of its controllers none but the metrics one is loaded; one it starts as
  an API consumes neither of the two, only the telemetry feed and that in demo mode, and has all the
  controllers. Each subscription names an exchange, a binding and a durability that agree with what the
  messaging module declares.
\<close>

theorem roles_split_work:
  "(case bootstrap env of
     Inr (BootWorker port) \<Rightarrow>
       subscriptions lb env = [OrderConsumer_subscription, DlqConsumer_subscription] \<and>
       controllers lb env = [MetricsController]
   | Inr (BootApi port) \<Rightarrow>
       subscriptions lb env = (if isDemoMode (env ''DEMO_MODE'') then [TelemetryGateway_subscription] else []) \<and>
       controllers lb env =
         [MetricsController, HealthController, WebhooksController, DemoPoisonController, DlqController]
   | Inl e \<Rightarrow> True) \<and>
   list_all (agrees_with (rabbit_config (isDemoMode (env ''DEMO_MODE'')) env)) (subscriptions lb env)"
proof (cases "env ''APP_ROLE'' = Some ''worker''")
  case True
  note l = loaded_worker[where env=env and lb=lb, OF True]
  have subs: "subscriptions lb env = [OrderConsumer_subscription, DlqConsumer_subscription]"
    by (simp add: subscriptions_def l worker_modules_def module_decls)
  have "controllers lb env = [MetricsController]"
    by (simp add: controllers_def l worker_modules_def module_decls)
  moreover have "bootstrap env \<noteq> Inr (BootApi port)" for port
    using True by (simp add: bootstrap_def Let_def bind_res_def split: sum.splits)
  ultimately show ?thesis
    by (simp add: subs worker_subscriptions split: sum.splits boot.splits)
next
  case False
  note l = loaded_api[where env=env and lb=lb, OF False]
  have subs: "subscriptions lb env = (if isDemoMode (env ''DEMO_MODE'') then [TelemetryGateway_subscription] else [])"
    by (simp add: subscriptions_def l api_modules_def module_decls)
  have "controllers lb env =
      [MetricsController, HealthController, WebhooksController, DemoPoisonController, DlqController]"
    by (simp add: controllers_def l api_modules_def module_decls)
  moreover have "bootstrap env \<noteq> Inr (BootWorker port)" for port
    using False by (cases "env ''APP_ROLE''") (auto simp: bootstrap_def Let_def bind_res_def nullish_def split: sum.splits if_splits)
  moreover have "agrees_with (rabbit_config True env) TelemetryGateway_subscription"
    by (simp add: agrees_with_def rabbit_config_def demoExchanges_def TelemetryGateway_subscription_def)
  ultimately show ?thesis
    by (auto simp: subs split: sum.splits boot.splits)
qed

lemma every_injection_resolves_witness:
  "resolves
     \<lparr>lb_exports = (\<lambda>l. case l of
          ConfigRoot \<Rightarrow> [ConfigService] | TypeOrmRoot \<Rightarrow> [DataSource]
        | TypeOrmFeature \<Rightarrow> [EventRepository, DlqMessageRepository] | RabbitMQModule \<Rightarrow> [AmqpConnection]
        | ThrottlerModule \<Rightarrow> [ThrottlerStorage]),
      lb_global = (\<lambda>l. l \<in> {ConfigRoot, TypeOrmRoot, ThrottlerModule}),
      lb_params = (\<lambda>c. if c = ThrottlerGuard then [ThrottlerStorage, Reflector] else []),
      lb_core = [Reflector]\<rparr>
     (\<lambda>_. None) (Feature WebhooksModule)" (is "resolves ?lb ?env ?m")
proof -
  have "libraries_documented ?lb" by (simp add: libraries_documented_def)
  moreover have "?m \<in> set (loaded ?lb ?env)"
    by (simp add: loaded_api api_modules_def)
  ultimately show ?thesis using every_injection_resolves by blast
qed

text \<open>
  In a validated environment no limit of the service is switched off: the rate limit's window and
  count, the prefetch count and the confirm timeouts of the publisher and of the replay are numbers of at
  least one, whatever was configured or left out, never zero and never \<open>NaN\<close>, which would compare as
  no limit at all.
\<close>

theorem validated_limits_hold:
  assumes ok: "validateEnv env = Inr cfg" and keys: "distinct (map fst env)"
  shows "list_all (js_le (Fin 1))
    [th_ttlSeconds (throttler_options (config_get cfg)), th_limit (throttler_options (config_get cfg)),
     rmq_prefetch (rabbit_config demo (config_get cfg)),
     publisher_confirmTimeoutMs (config_get cfg), replay_confirmTimeoutMs (config_get cfg)]"
proof -
  have "js_le (Fin 1) (config_number (config_get cfg) key d)" if "key \<in> set POSITIVE_INT_VARS" "1 \<le> d" for key d
    using validated_env_is_usable[OF ok keys that(2)] that(1) by blast
  thus ?thesis
    by (simp add: throttler_options_def rabbit_config_def publisher_confirmTimeoutMs_def replay_confirmTimeoutMs_def
        POSITIVE_INT_VARS_def)
qed

lemma validated_limits_hold_witness:
  "js_le (Fin 1) (th_limit (throttler_options (config_get sample_config)))"
  using validated_limits_hold[OF sample_env_valid, of False] by (simp add: sample_env_def)

end
