(* ===== verification/WebTelemetry.thy ===== *)
theory WebTelemetry
  imports Telemetry
begin

text \<open>
  The dashboard's vocabulary, \<open>src/web/src/lib/\<close>: stages, ranks and the runtime check of envelopes
  (\<open>telemetry.ts\<close>), the boxes of the pipeline drawing (\<open>stages.ts\<close>), status colours (\<open>status.ts\<close>),
  ids and hues (\<open>correlation.ts\<close>), and the socket's dispatch of what it receives (\<open>socket.ts\<close>).
\<close>

subsection \<open>Stages (\<open>telemetry.ts\<close>)\<close>

datatype stage =
    SReceived | SSignatureVerified | SPublished | SInjected | SRejected | SMalformed | SUnavailable
  | SConsuming | SProcessingDecision | SProcessed | SDuplicate | SRetry | SDead

definition TELEMETRY_VERSION :: int where
  "TELEMETRY_VERSION = 1"

fun STAGE_RANK :: "stage \<Rightarrow> nat" where
  "STAGE_RANK SReceived = 0"
| "STAGE_RANK SSignatureVerified = 1"
| "STAGE_RANK SMalformed = 1"
| "STAGE_RANK SRejected = 1"
| "STAGE_RANK SPublished = 2"
| "STAGE_RANK SInjected = 2"
| "STAGE_RANK SUnavailable = 2"
| "STAGE_RANK SConsuming = 3"
| "STAGE_RANK SProcessingDecision = 4"
| "STAGE_RANK SRetry = 5"
| "STAGE_RANK SProcessed = 6"
| "STAGE_RANK SDuplicate = 6"
| "STAGE_RANK SDead = 6"

definition TERMINAL_STAGES :: "stage list" where
  "TERMINAL_STAGES = [SProcessed, SDuplicate, SDead, SRejected, SMalformed, SUnavailable]"

definition isTerminal :: "stage \<Rightarrow> bool" where
  "isTerminal st \<longleftrightarrow> st \<in> set TERMINAL_STAGES"

text \<open>The names of the worker's stages, with the stage each stands for.\<close>

definition WORKER_STAGES :: "(string \<times> stage) list" where
  "WORKER_STAGES =
     [(''consuming'', SConsuming), (''processing_decision'', SProcessingDecision), (''processed'', SProcessed),
      (''duplicate'', SDuplicate), (''retry'', SRetry), (''dead'', SDead)]"

definition candidate :: "json option \<Rightarrow> string \<Rightarrow> json option" where
  "candidate value k = (case value of Some (JObj kvs) \<Rightarrow> map_of kvs k | _ \<Rightarrow> None)"

definition isTelemetryEnvelope :: "json option \<Rightarrow> bool" where
  "isTelemetryEnvelope value \<longleftrightarrow>
     is_object value
     \<and> as_number (candidate value ''version'') \<noteq> None
     \<and> (case as_string (candidate value ''stage'') of Some st \<Rightarrow> map_of WORKER_STAGES st \<noteq> None | None \<Rightarrow> False)
     \<and> as_string (candidate value ''correlation_id'') \<noteq> None
     \<and> as_string (candidate value ''event_type'') \<noteq> None
     \<and> as_string (candidate value ''status'') \<noteq> None
     \<and> as_number (candidate value ''attempts'') \<noteq> None
     \<and> as_string (candidate value ''ts'') \<noteq> None"

text \<open>The fields of a checked envelope\<close>

record web_envelope =
  we_version :: jsnum
  we_stage :: stage
  we_correlation_id :: string
  we_event_type :: string
  we_status :: string
  we_attempts :: jsnum
  we_ts :: string

definition the_string :: "json option \<Rightarrow> string" where
  "the_string v = nullish (as_string v) []"

definition read_envelope :: "json option \<Rightarrow> web_envelope" where
  "read_envelope value =
     \<lparr>we_version = the (as_number (candidate value ''version'')),
      we_stage = the (map_of WORKER_STAGES (the_string (candidate value ''stage''))),
      we_correlation_id = the_string (candidate value ''correlation_id''),
      we_event_type = the_string (candidate value ''event_type''),
      we_status = the_string (candidate value ''status''),
      we_attempts = the (as_number (candidate value ''attempts'')),
      we_ts = the_string (candidate value ''ts'')\<rparr>"

definition isSupportedVersion :: "web_envelope \<Rightarrow> bool" where
  "isSupportedVersion e \<longleftrightarrow> we_version e = Fin (of_int TELEMETRY_VERSION)"

subsection \<open>The socket's dispatch (\<open>socket.ts\<close>)\<close>

datatype socket_call = Ignored | OnUnknownVersion "json option" | OnEnvelope web_envelope

definition socket_deliver :: "json option \<Rightarrow> socket_call" where
  "socket_deliver raw =
     (if \<not> isTelemetryEnvelope raw then Ignored
      else if \<not> isSupportedVersion (read_envelope raw) then OnUnknownVersion raw
      else OnEnvelope (read_envelope raw))"

datatype connection_state = Connecting | Connected | Disconnected

datatype socket_event = SockConnect | SockDisconnect | SockReconnectAttempt | SockFeed "json option"

fun socket_handle :: "socket_event \<Rightarrow> socket_call option \<times> connection_state option" where
  "socket_handle SockConnect = (None, Some Connected)"
| "socket_handle SockDisconnect = (None, Some Disconnected)"
| "socket_handle SockReconnectAttempt = (None, Some Connecting)"
| "socket_handle (SockFeed raw) = (Some (socket_deliver raw), None)"

text \<open>
  \<open>createTelemetrySocket\<close>: what the connection is opened with, and the events of the server it listens to.
  \<open>connect\<close>, \<open>disconnect\<close> and \<open>reconnect_attempt\<close> are socket.io's own; of the events a server can
  send it listens to the feed only.
\<close>

definition FEED_EVENT :: string where
  "FEED_EVENT = ''telemetry''"

record socket_options =
  io_url :: string
  io_transports :: "string list"
  io_reconnection :: bool
  io_reconnectionDelay :: int
  io_reconnectionDelayMax :: int

definition createTelemetrySocket :: "string \<Rightarrow> socket_options \<times> connection_state" where
  "createTelemetrySocket wsUrl =
     (\<lparr>io_url = wsUrl, io_transports = [''websocket''], io_reconnection = True,
       io_reconnectionDelay = 500, io_reconnectionDelayMax = 4000\<rparr>, Connecting)"

definition socket_receives :: "string \<Rightarrow> json option \<Rightarrow> socket_event option" where
  "socket_receives event raw = (if event = FEED_EVENT then Some (SockFeed raw) else None)"

text \<open>The calls of the store's handlers on one client, given what a gateway sent.\<close>

fun heard_by :: "client \<Rightarrow> (string \<times> client set \<times> json) list \<Rightarrow> socket_call list" where
  "heard_by client [] = []"
| "heard_by client ((event, receivers, payload) # sent) =
     (if client \<in> receivers
      then (case socket_receives event (Some payload) of
              Some ev \<Rightarrow> (case fst (socket_handle ev) of Some call \<Rightarrow> [call] | None \<Rightarrow> [])
            | None \<Rightarrow> [])
      else []) @ heard_by client sent"

subsection \<open>Ids and hues (\<open>correlation.ts\<close>)\<close>

definition newEventId :: "string \<Rightarrow> string" where
  "newEventId uuid = ''evt_'' @ uuid"

text \<open>The UTF-16 code units of a string, from its UTF-8 bytes.\<close>

fun code_units :: "nat list \<Rightarrow> nat list" where
  "code_units [] = []"
| "code_units (a # bs) =
     (if a < 128 then a # code_units bs
      else if a < 224 then
        (case bs of b # cs \<Rightarrow> ((a - 192) * 64 + (b - 128)) # code_units cs | _ \<Rightarrow> [])
      else if a < 240 then
        (case bs of b # c # ds \<Rightarrow> ((a - 224) * 4096 + (b - 128) * 64 + (c - 128)) # code_units ds | _ \<Rightarrow> [])
      else
        (case bs of
           b # c # d # es \<Rightarrow>
             (let u = (a - 240) * 262144 + (b - 128) * 4096 + (c - 128) * 64 + (d - 128) - 65536
              in (55296 + u div 1024) # (56320 + u mod 1024) # code_units es)
         | _ \<Rightarrow> []))"

definition hueFor :: "string \<Rightarrow> nat" where
  "hueFor i = foldl (\<lambda>hash unit. (hash * 31 + unit) mod 360) 0 (code_units (map code i))"

definition colorFor :: "string \<Rightarrow> string" where
  "colorFor i = ''hsl('' @ digits (hueFor i) @ '' 70% 62%)''"

subsection \<open>Status colours (\<open>status.ts\<close>)\<close>

definition statusColor :: "nat \<Rightarrow> string" where
  "statusColor status =
     (if status = 0 then ''var(--text-faint)''
      else let c = hd (digits status) in
        if c = CHR ''2'' then ''var(--color-stage-processed)''
        else if c = CHR ''4'' then ''var(--color-stage-rejected)''
        else if c = CHR ''5'' then ''var(--color-stage-unavailable)''
        else ''var(--text-muted)'')"

subsection \<open>The drawing (\<open>stages.ts\<close>)\<close>

datatype node_key =
    NPost | NGuard | NValidate | NExchange | NWork | NWorker | NPostgres
  | NRetry5s | NRetry30s | NRetry2min | NDlq

record stage_meta =
  sm_label :: string
  sm_color :: string
  sm_node :: node_key

definition meta :: "string \<Rightarrow> string \<Rightarrow> node_key \<Rightarrow> stage_meta" where
  "meta label color node = \<lparr>sm_label = label, sm_color = ''var(--color-stage-'' @ color @ '')'', sm_node = node\<rparr>"

fun STAGE_META :: "stage \<Rightarrow> stage_meta" where
  "STAGE_META SReceived = meta ''received'' ''received'' NPost"
| "STAGE_META SSignatureVerified = meta ''signature verified'' ''signature'' NGuard"
| "STAGE_META SRejected = meta ''rejected (401)'' ''rejected'' NGuard"
| "STAGE_META SMalformed = meta ''malformed (400)'' ''malformed'' NValidate"
| "STAGE_META SPublished = meta ''published'' ''published'' NExchange"
| "STAGE_META SInjected = meta ''injected past the API'' ''published'' NExchange"
| "STAGE_META SUnavailable = meta ''unavailable (503)'' ''unavailable'' NExchange"
| "STAGE_META SConsuming = meta ''consuming'' ''consuming'' NWorker"
| "STAGE_META SProcessingDecision = meta ''processing'' ''decision'' NWorker"
| "STAGE_META SProcessed = meta ''processed'' ''processed'' NPostgres"
| "STAGE_META SDuplicate = meta ''duplicate'' ''duplicate'' NWorker"
| "STAGE_META SRetry = meta ''retry'' ''retry'' NRetry5s"
| "STAGE_META SDead = meta ''dead-lettered'' ''dead'' NDlq"

record node_spec =
  ns_key :: node_key
  ns_label :: string
  ns_sub :: string
  ns_x :: int
  ns_y :: int
  ns_w :: int
  ns_h :: int

definition NODE_W :: int where "NODE_W = 116"
definition NODE_H :: int where "NODE_H = 56"

definition node :: "node_key \<Rightarrow> string \<Rightarrow> string \<Rightarrow> int \<Rightarrow> int \<Rightarrow> int \<Rightarrow> int \<Rightarrow> node_spec" where
  "node k label sub x y w h =
     \<lparr>ns_key = k, ns_label = label, ns_sub = sub, ns_x = x, ns_y = y, ns_w = w, ns_h = h\<rparr>"

definition NODES :: "node_spec list" where
  "NODES =
     [node NPost ''POST /orders'' ''HTTP'' 24 92 NODE_W NODE_H,
      node NGuard ''HMAC guard'' ''SHA-256'' 176 92 NODE_W NODE_H,
      node NValidate ''validation'' ''DTO pipe'' 328 92 NODE_W NODE_H,
      node NExchange ''exchange'' ''webhooks'' 480 92 NODE_W NODE_H,
      node NWork ''work queue'' ''orders'' 632 92 NODE_W NODE_H,
      node NWorker ''worker'' ''idempotent'' 784 92 NODE_W NODE_H,
      node NPostgres ''PostgreSQL'' ''events'' 936 92 NODE_W NODE_H,
      node NRetry5s ''retry 5s'' ''TTL+DLX'' 588 208 96 44,
      node NRetry30s ''retry 30s'' ''TTL+DLX'' 704 208 96 44,
      node NRetry2min ''retry 2min'' ''TTL+DLX'' 820 208 96 44,
      node NDlq ''DLQ'' ''dlq_messages'' 936 208 NODE_W 44]"

text \<open>The later entry of a key wins, as in the fold that builds the index.\<close>

definition NODE_INDEX :: "node_key \<Rightarrow> node_spec option" where
  "NODE_INDEX k = foldl (\<lambda>index n. if ns_key n = k then Some n else index) None NODES"

definition nodeCenter :: "node_key \<Rightarrow> (rat \<times> rat) option" where
  "nodeCenter k =
     map_option (\<lambda>n. (of_int (ns_x n) + of_int (ns_w n) / 2, of_int (ns_y n) + of_int (ns_h n) / 2)) (NODE_INDEX k)"

definition EDGES :: "(node_key \<times> node_key) list" where
  "EDGES =
     [(NPost, NGuard), (NGuard, NValidate), (NValidate, NExchange), (NExchange, NWork), (NWork, NWorker),
      (NWorker, NPostgres), (NWorker, NRetry5s), (NRetry5s, NRetry30s), (NRetry30s, NRetry2min), (NWorker, NDlq)]"

definition VIEWBOX_W :: int where "VIEWBOX_W = 1076"
definition VIEWBOX_H :: int where "VIEWBOX_H = 284"

subsection \<open>Lemmas\<close>

lemma hueFor_less: "hueFor i < 360"
proof -
  have "foldl (\<lambda>hash unit. (hash * 31 + unit) mod 360) h us < 360" if "h < 360" for h and us :: "nat list"
    using that by (induction us arbitrary: h) simp_all
  then show ?thesis by (simp add: hueFor_def)
qed

lemma isTerminal_rank: "isTerminal st \<and> 3 \<le> STAGE_RANK st \<longleftrightarrow> STAGE_RANK st = 6"
  by (cases st) (simp_all add: isTerminal_def TERMINAL_STAGES_def)

text \<open>The stage a worker's stage name stands for, on the backend and on the dashboard.\<close>

fun web_stage :: "telemetry_stage \<Rightarrow> stage" where
  "web_stage StConsuming = SConsuming"
| "web_stage StProcessingDecision = SProcessingDecision"
| "web_stage StProcessed = SProcessed"
| "web_stage StDuplicate = SDuplicate"
| "web_stage StRetry = SRetry"
| "web_stage StDead = SDead"

lemma worker_stage_names: "map_of WORKER_STAGES (stage_string st) = Some (web_stage st)"
  by (cases st) (simp_all add: WORKER_STAGES_def)

lemma candidate_simps [simp]:
  "candidate (Some (JObj kvs)) k = map_of kvs k"
  by (simp add: candidate_def)

lemma envelope_dispatched:
  "socket_deliver (Some (envelope now input)) =
     OnEnvelope \<lparr>we_version = Fin 1, we_stage = web_stage (si_stage input), we_correlation_id = si_correlationId input,
                 we_event_type = si_eventType input, we_status = si_status input,
                 we_attempts = Fin (of_int (si_attempts input)), we_ts = now\<rparr>"
  by (simp add: socket_deliver_def isTelemetryEnvelope_def isSupportedVersion_def read_envelope_def envelope_def
      worker_stage_names TELEMETRY_ENVELOPE_VERSION_def TELEMETRY_VERSION_def the_string_def json_int_def)

subsection \<open>Properties\<close>

text \<open>Worker and dashboard agree on the wire format: every envelope the worker publishes, whatever the
  stage, ids and attempts, passes the dashboard's runtime check and version gate, and is dispatched
  with the stage, correlation id, status and attempts it was emitted with; its routing key is one the
  gateway's binding matches.\<close>

theorem emitted_envelope_understood:
  "\<exists>e. socket_deliver (Some (envelope now input)) = OnEnvelope e
     \<and> we_stage e = web_stage (si_stage input) \<and> we_correlation_id e = si_correlationId input
     \<and> we_event_type e = si_eventType input \<and> we_status e = si_status input
     \<and> we_attempts e = Fin (of_int (si_attempts input)) \<and> we_ts e = now
     \<and> pub_routingKey (telemetry_publication now input) = ''telemetry.'' @ stage_string (si_stage input)"
  by (simp add: envelope_dispatched telemetry_publication_def telemetryRoutingKey_def)

text \<open>A run of broadcasts, and the envelope the dashboard reads out of each.\<close>

definition broadcasts ::
  "socket_server option \<Rightarrow> (string \<times> stage_input) list \<Rightarrow>
     (unit result \<times> (string \<times> client set \<times> json) list) list"
where
  "broadcasts server =
     map (\<lambda>(now, input). gateway_broadcast server (si_correlationId input) (envelope now input))"

definition read_back :: "string \<Rightarrow> stage_input \<Rightarrow> web_envelope" where
  "read_back now input =
     \<lparr>we_version = Fin 1, we_stage = web_stage (si_stage input), we_correlation_id = si_correlationId input,
      we_event_type = si_eventType input, we_status = si_status input,
      we_attempts = Fin (of_int (si_attempts input)), we_ts = now\<rparr>"

lemma heard_by_append [simp]: "heard_by client (xs @ ys) = heard_by client xs @ heard_by client ys"
  by (induction client xs rule: heard_by.induct) simp_all

lemma feed_is_heard: "socket_receives TELEMETRY_FEED_EVENT raw = Some (SockFeed raw)"
  by (simp add: socket_receives_def TELEMETRY_FEED_EVENT_def FEED_EVENT_def)

lemma scoped_is_not_heard: "socket_receives TELEMETRY_SCOPED_EVENT raw = None"
  by (simp add: socket_receives_def TELEMETRY_SCOPED_EVENT_def FEED_EVENT_def)

text \<open>One broadcast, as one dashboard hears it.\<close>

lemma broadcast_heard:
  "heard_by client (snd (gateway_broadcast server (si_correlationId input) (envelope now input))) =
     (case server of
        Some srv \<Rightarrow> if client \<in> srv_clients srv \<and> srv_fault srv TELEMETRY_FEED_EVENT = None
                    then [OnEnvelope (read_back now input)] else []
      | None \<Rightarrow> [])"
  by (simp add: gateway_broadcast_def feed_is_heard scoped_is_not_heard envelope_dispatched read_back_def
      split: option.splits)

lemma broadcast_returns: "fst (gateway_broadcast server c env) = Inr ()"
  by (simp add: gateway_broadcast_def split: option.splits)

text \<open>C27. From the emitter to the dashboard, telemetry arrives exactly once, in order and unchanged: of a
  sequence of emissions that reach the gateway, a connected dashboard is handed one envelope each, in that
  order, with the stage, correlation id, event type, status, attempts and time it was emitted with, never
  dropped by the runtime check or the version gate and never counted twice, whatever rooms it or anyone
  else joined and whether or not the scoped channel fails. A client that is not connected, or a server that
  is not attached or whose feed fails, hears nothing; in every case the gateway's handler returns, so the
  message is acknowledged.\<close>

theorem telemetry_heard_once:
  "map fst (broadcasts server emissions) = replicate (length emissions) (Inr ()) \<and>
   heard_by client (concat (map snd (broadcasts server emissions))) =
     (case server of
        Some srv \<Rightarrow> if client \<in> srv_clients srv \<and> srv_fault srv TELEMETRY_FEED_EVENT = None
                    then map (\<lambda>(now, input). OnEnvelope (read_back now input)) emissions else []
      | None \<Rightarrow> [])"
  by (induction emissions) (auto simp: broadcasts_def broadcast_heard broadcast_returns split: option.splits)

end
