(* ===== verification/WebScenarios.thy ===== *)
theory WebScenarios
  imports WebTelemetry
begin

text \<open>
  The demo scenarios of the dashboard, \<open>src/web/src/lib/scenarios.ts\<close>: what each button sends, with
  the texts shown beside it. \<open>ids n\<close> is the \<open>n\<close>-th value of \<open>crypto.randomUUID()\<close> during a \<open>build\<close>,
  \<open>now\<close> is \<open>Date.now()\<close>.
\<close>

subsection \<open>Types\<close>

datatype scenario_id =
    Happy | Invalid_signature | Stale_timestamp | Duplicate | Transient | Exhaust | Permanent | Poison | Malformed

record trigger_spec =
  tg_correlationId :: string
  tg_eventId :: "string option"
  tg_eventType :: string
  tg_body :: json
  tg_secretOverride :: "string option"
  tg_timestampOverride :: "int option"
  tg_label :: string

datatype story_tone = TInfo | TOk | TRetry | TFail

record story_step =
  st_tone :: story_tone
  st_text :: string

record scenario_def =
  sd_id :: scenario_id
  sd_label :: string
  sd_description :: string
  sd_story :: "story_step list"
  sd_expected :: string
  sd_sequential :: bool
  sd_inject :: bool
  sd_build :: "(nat \<Rightarrow> string) \<Rightarrow> int \<Rightarrow> trigger_spec list"

subsection \<open>Bodies\<close>

definition EVENT_TYPE :: string where "EVENT_TYPE = ''order.created''"
definition OUTAGE_WINDOW_MS :: int where "OUTAGE_WINDOW_MS = 240000"

text \<open>The keys of \<open>extraPayload\<close> never repeat \<open>amount\<close> or \<open>currency\<close>, so the spread appends them.\<close>

definition order_payload :: "(string \<times> json) list \<Rightarrow> json" where
  "order_payload extraPayload =
     JObj ([(''amount'', JNum (Fin (of_int 4200))), (''currency'', JStr ''BRL'')] @ extraPayload)"

definition orderBody :: "string \<Rightarrow> (string \<times> json) list \<Rightarrow> json" where
  "orderBody eventId extraPayload =
     JObj [(''event_id'', JStr eventId), (''event_type'', JStr EVENT_TYPE), (''payload'', order_payload extraPayload)]"

text \<open>A spec without overrides\<close>

definition plain_spec :: "string \<Rightarrow> string option \<Rightarrow> string \<Rightarrow> json \<Rightarrow> string \<Rightarrow> trigger_spec" where
  "plain_spec correlationId eventId eventType body label =
     \<lparr>tg_correlationId = correlationId, tg_eventId = eventId, tg_eventType = eventType, tg_body = body,
      tg_secretOverride = None, tg_timestampOverride = None, tg_label = label\<rparr>"

subsection \<open>What each button sends\<close>

definition build_happy :: "(nat \<Rightarrow> string) \<Rightarrow> int \<Rightarrow> trigger_spec list" where
  "build_happy ids now =
     (let eventId = newEventId (ids 0)
      in [plain_spec (ids 1) (Some eventId) EVENT_TYPE (orderBody eventId []) ''Happy path''])"

definition build_invalid_signature :: "(nat \<Rightarrow> string) \<Rightarrow> int \<Rightarrow> trigger_spec list" where
  "build_invalid_signature ids now =
     (let eventId = newEventId (ids 0)
      in [(plain_spec (ids 1) (Some eventId) EVENT_TYPE (orderBody eventId []) ''Invalid signature'')
            \<lparr>tg_secretOverride := Some ''wrong-secret''\<rparr>])"

definition build_stale_timestamp :: "(nat \<Rightarrow> string) \<Rightarrow> int \<Rightarrow> trigger_spec list" where
  "build_stale_timestamp ids now =
     (let eventId = newEventId (ids 0)
      in [(plain_spec (ids 1) (Some eventId) EVENT_TYPE (orderBody eventId []) ''Stale timestamp'')
            \<lparr>tg_timestampOverride := Some (now div 1000 - 600)\<rparr>])"

definition build_duplicate :: "(nat \<Rightarrow> string) \<Rightarrow> int \<Rightarrow> trigger_spec list" where
  "build_duplicate ids now =
     (let eventId = newEventId (ids 0); body = orderBody eventId []
      in [plain_spec (ids 1) (Some eventId) EVENT_TYPE body ''Duplicate (first)'',
          plain_spec (ids 2) (Some eventId) EVENT_TYPE body ''Duplicate (second)''])"

definition build_transient :: "(nat \<Rightarrow> string) \<Rightarrow> int \<Rightarrow> trigger_spec list" where
  "build_transient ids now =
     (let eventId = newEventId (ids 0)
      in [plain_spec (ids 1) (Some eventId) EVENT_TYPE
            (orderBody eventId [(''__scenario'', JStr ''transient'')]) ''Transient failure''])"

definition build_exhaust :: "(nat \<Rightarrow> string) \<Rightarrow> int \<Rightarrow> trigger_spec list" where
  "build_exhaust ids now =
     (let eventId = newEventId (ids 0)
      in [plain_spec (ids 1) (Some eventId) EVENT_TYPE
            (orderBody eventId
               [(''__scenario'', JStr ''exhaust''),
                (''__outage_until'', JNum (Fin (of_int (now + OUTAGE_WINDOW_MS))))]) ''Retries exhausted''])"

definition build_permanent :: "(nat \<Rightarrow> string) \<Rightarrow> int \<Rightarrow> trigger_spec list" where
  "build_permanent ids now =
     (let eventId = newEventId (ids 0)
      in [plain_spec (ids 1) (Some eventId) EVENT_TYPE
            (orderBody eventId [(''__scenario'', JStr ''permanent'')]) ''Permanent failure''])"

definition build_poison :: "(nat \<Rightarrow> string) \<Rightarrow> int \<Rightarrow> trigger_spec list" where
  "build_poison ids now = [plain_spec (ids 0) None ''unknown'' (JObj []) ''Poison message'']"

definition build_malformed :: "(nat \<Rightarrow> string) \<Rightarrow> int \<Rightarrow> trigger_spec list" where
  "build_malformed ids now =
     [plain_spec (ids 0) None EVENT_TYPE
        (JObj [(''event_type'', JStr EVENT_TYPE), (''payload'', order_payload [])]) ''Malformed'']"

subsection \<open>The scenarios\<close>

definition arrow :: string where "arrow = [CHR 0xE2, CHR 0x86, CHR 0x92]"
definition en_dash :: string where "en_dash = [CHR 0xE2, CHR 0x80, CHR 0x93]"

definition say :: "story_tone \<Rightarrow> string \<Rightarrow> story_step" where
  "say tone line = \<lparr>st_tone = tone, st_text = line\<rparr>"

definition happy_scenario :: scenario_def where
  "happy_scenario =
     \<lparr>sd_id = Happy, sd_label = ''Happy path'',
      sd_description = ''Valid signature '' @ arrow @ '' 202 '' @ arrow @ '' processed'',
      sd_story =
        [say TInfo ''Partner marketplace fires order.created for a fresh sale'',
         say TOk ''HMAC-SHA256 signature matches'',
         say TInfo ''202 accepted, queued in RabbitMQ'',
         say TInfo ''Worker checks: event_id never seen before'',
         say TOk ''Order inserted into PostgreSQL''],
      sd_expected = ''202'', sd_sequential = False, sd_inject = False, sd_build = build_happy\<rparr>"

definition invalid_signature_scenario :: scenario_def where
  "invalid_signature_scenario =
     \<lparr>sd_id = Invalid_signature, sd_label = ''Invalid signature'',
      sd_description = ''Wrong secret '' @ arrow @ '' 401, nothing published'',
      sd_story =
        [say TInfo ''Attacker (or partner with a rotated key) posts an order'',
         say TFail ''Guard computes a different HMAC-SHA256'',
         say TFail ''401 rejected at the front door'',
         say TInfo ''Nothing reaches the queue or the database''],
      sd_expected = ''401'', sd_sequential = False, sd_inject = False, sd_build = build_invalid_signature\<rparr>"

definition stale_timestamp_scenario :: scenario_def where
  "stale_timestamp_scenario =
     \<lparr>sd_id = Stale_timestamp, sd_label = ''Stale timestamp'',
      sd_description = ''Timestamp outside the window '' @ arrow @ '' 401'',
      sd_story =
        [say TInfo ''A real webhook is captured and resent 10 minutes later'',
         say TInfo ''Classic replay attack: valid signature, old request'',
         say TFail ''Guard only accepts timestamps from the last 5 minutes'',
         say TFail ''401 rejected''],
      sd_expected = ''401'', sd_sequential = False, sd_inject = False, sd_build = build_stale_timestamp\<rparr>"

definition duplicate_scenario :: scenario_def where
  "duplicate_scenario =
     \<lparr>sd_id = Duplicate, sd_label = ''Duplicate'',
      sd_description = ''Same event_id twice: second fires after the first lands '' @ arrow @ '' processed + discarded'',
      sd_story =
        [say TInfo ''Our 202 got lost in the network, marketplace retries'',
         say TInfo ''Same order arrives twice, both get 202'',
         say TInfo ''Worker finds the event_id already in PostgreSQL'',
         say TOk ''Second delivery discarded: idempotency, no double order''],
      sd_expected = ''202 / 202'', sd_sequential = True, sd_inject = False, sd_build = build_duplicate\<rparr>"

definition transient_scenario :: scenario_def where
  "transient_scenario =
     \<lparr>sd_id = Transient, sd_label = ''Transient failure'',
      sd_description = ''Fails attempts 1'' @ en_dash @ ''2, succeeds on 3 '' @ arrow @ '' retry ladder 5s'' @ arrow @ ''30s'',
      sd_story =
        [say TFail ''Processing fails: the database blinked for a moment'',
         say TRetry ''Retry in 5s, fails again'',
         say TRetry ''Retry in 30s'',
         say TOk ''Third attempt succeeds, order lands as if nothing happened''],
      sd_expected = ''202'', sd_sequential = False, sd_inject = False, sd_build = build_transient\<rparr>"

definition exhaust_scenario :: scenario_def where
  "exhaust_scenario =
     \<lparr>sd_id = Exhaust, sd_label = ''Retries exhausted'',
      sd_description = ''Fails every attempt '' @ arrow @ '' full ladder 5s'' @ arrow @ ''30s'' @ arrow @ ''2min '' @ arrow @ '' DLQ'',
      sd_story =
        [say TFail ''A dependency goes down for 4 minutes straight'',
         say TRetry ''Retries at 5s, 30s and 2min, every attempt fails'',
         say TFail ''Attempt 4 was the last one, off to the dead-letter queue'',
         say TOk ''Replay from the DLQ succeeds once the 4min outage ends''],
      sd_expected = ''202'', sd_sequential = False, sd_inject = False, sd_build = build_exhaust\<rparr>"

definition permanent_scenario :: scenario_def where
  "permanent_scenario =
     \<lparr>sd_id = Permanent, sd_label = ''Permanent failure'',
      sd_description = ''Permanent error '' @ arrow @ '' straight to the DLQ'',
      sd_story =
        [say TFail ''An error that no amount of retrying can fix'',
         say TInfo ''Retrying forever would just burn the queue'',
         say TFail ''Parked straight into the dead-letter queue'',
         say TInfo ''A human inspects and replays it from the DLQ panel''],
      sd_expected = ''202'', sd_sequential = False, sd_inject = False, sd_build = build_permanent\<rparr>"

definition poison_scenario :: scenario_def where
  "poison_scenario =
     \<lparr>sd_id = Poison, sd_label = ''Poison message'',
      sd_description = ''Garbage injected into the queue past the API '' @ arrow @ '' dead on arrival'',
      sd_story =
        [say TInfo ''A rogue producer writes garbage straight to the queue'',
         say TInfo ''It never touched the API, so no guard could block it'',
         say TFail ''The worker cannot parse an event_id out of the bytes'',
         say TFail ''Dead-lettered on arrival, zero retries wasted''],
      sd_expected = ''202'', sd_sequential = False, sd_inject = True, sd_build = build_poison\<rparr>"

definition malformed_scenario :: scenario_def where
  "malformed_scenario =
     \<lparr>sd_id = Malformed, sd_label = ''Malformed'',
      sd_description = ''Missing event_id, validly signed '' @ arrow @ '' 400 at the validation pipe'',
      sd_story =
        [say TInfo ''Trusted partner ships a buggy integration'',
         say TOk ''Signature is valid, the guard lets it through'',
         say TFail ''But the body is missing event_id'',
         say TFail ''400 at the validation pipe, nothing published''],
      sd_expected = ''400'', sd_sequential = False, sd_inject = False, sd_build = build_malformed\<rparr>"

definition SCENARIOS :: "scenario_def list" where
  "SCENARIOS =
     [happy_scenario, invalid_signature_scenario, stale_timestamp_scenario, duplicate_scenario, transient_scenario,
      exhaust_scenario, permanent_scenario, poison_scenario, malformed_scenario]"

lemmas scenario_defs =
  happy_scenario_def invalid_signature_scenario_def stale_timestamp_scenario_def duplicate_scenario_def
  transient_scenario_def exhaust_scenario_def permanent_scenario_def poison_scenario_def malformed_scenario_def

lemmas build_defs =
  build_happy_def build_invalid_signature_def build_stale_timestamp_def build_duplicate_def build_transient_def
  build_exhaust_def build_permanent_def build_poison_def build_malformed_def

lemma scenario_ids [simp]:
  "sd_id happy_scenario = Happy" "sd_id invalid_signature_scenario = Invalid_signature"
  "sd_id stale_timestamp_scenario = Stale_timestamp" "sd_id duplicate_scenario = Duplicate"
  "sd_id transient_scenario = Transient" "sd_id exhaust_scenario = Exhaust" "sd_id permanent_scenario = Permanent"
  "sd_id poison_scenario = Poison" "sd_id malformed_scenario = Malformed"
  by (simp_all add: scenario_defs)

lemma scenario_builds [simp]:
  "sd_build happy_scenario = build_happy" "sd_build invalid_signature_scenario = build_invalid_signature"
  "sd_build stale_timestamp_scenario = build_stale_timestamp" "sd_build duplicate_scenario = build_duplicate"
  "sd_build transient_scenario = build_transient" "sd_build exhaust_scenario = build_exhaust"
  "sd_build permanent_scenario = build_permanent" "sd_build poison_scenario = build_poison"
  "sd_build malformed_scenario = build_malformed"
  by (simp_all add: scenario_defs)

lemma plain_spec_simps [simp]:
  "tg_correlationId (plain_spec c i t b l) = c" "tg_eventId (plain_spec c i t b l) = i"
  "tg_eventType (plain_spec c i t b l) = t" "tg_body (plain_spec c i t b l) = b"
  "tg_secretOverride (plain_spec c i t b l) = None" "tg_timestampOverride (plain_spec c i t b l) = None"
  "tg_label (plain_spec c i t b l) = l"
  by (simp_all add: plain_spec_def)

text \<open>\<open>SCENARIOS.find((entry) => entry.id === id)\<close> finds the scenario of every id.\<close>

definition find_scenario :: "scenario_id \<Rightarrow> scenario_def option" where
  "find_scenario i = List.find (\<lambda>entry. sd_id entry = i) SCENARIOS"

lemma find_scenario_cases:
  "find_scenario i = Some (case i of
       Happy \<Rightarrow> happy_scenario | Invalid_signature \<Rightarrow> invalid_signature_scenario
     | Stale_timestamp \<Rightarrow> stale_timestamp_scenario | Duplicate \<Rightarrow> duplicate_scenario
     | Transient \<Rightarrow> transient_scenario | Exhaust \<Rightarrow> exhaust_scenario | Permanent \<Rightarrow> permanent_scenario
     | Poison \<Rightarrow> poison_scenario | Malformed \<Rightarrow> malformed_scenario)"
  by (cases i) (simp_all add: find_scenario_def SCENARIOS_def)

end
