(* ===== verification/WebClient.thy ===== *)
theory WebClient
  imports WebScenarios Webhooks
begin

text \<open>
  The dashboard's HTTP client, \<open>src/web/src/lib/\<close>: its configuration (\<open>config.ts\<close>), request signing
  (\<open>hmac.ts\<close>) and the calls of the API (\<open>api.ts\<close>). \<open>fetch\<close> is the parameter of every call: it rejects
  or answers. The readings of \<open>performance.now()\<close> and \<open>Date.now()\<close> are arguments.
\<close>

subsection \<open>Configuration (\<open>config.ts\<close>)\<close>

record web_config =
  wc_apiUrl :: string
  wc_wsUrl :: string
  wc_hmacSecret :: string
  wc_adminKey :: string

definition DEFAULT_API_URL :: string where "DEFAULT_API_URL = ''http://localhost:3000''"

definition web_config :: "(string \<Rightarrow> string option) \<Rightarrow> web_config" where
  "web_config env =
     \<lparr>wc_apiUrl = nullish (env ''VITE_API_URL'') DEFAULT_API_URL,
      wc_wsUrl = nullish (env ''VITE_WS_URL'') (nullish (env ''VITE_API_URL'') DEFAULT_API_URL),
      wc_hmacSecret = nullish (env ''VITE_DEMO_WEBHOOK_HMAC_SECRET'') ''demo-hmac-secret-public'',
      wc_adminKey = nullish (env ''VITE_DEMO_ADMIN_API_KEY'') ''demo-admin-key-public''\<rparr>"

subsection \<open>Signing (\<open>hmac.ts\<close>)\<close>

text \<open>\<open>n.toString(16).padStart(2, '0')\<close> of a byte\<close>

definition hex_byte :: "byte \<Rightarrow> string" where
  "hex_byte b =
     (let n = unat b; s = (if n < 16 then [hex_digit n] else [hex_digit (n div 16), hex_digit (n mod 16)])
      in replicate (2 - length s) (CHR ''0'') @ s)"

definition toHex :: "byte list \<Rightarrow> string" where
  "toHex buffer = concat (map hex_byte buffer)"

definition canonicalString :: "string \<Rightarrow> string \<Rightarrow> string" where
  "canonicalString timestamp rawBody = timestamp @ ''.'' @ rawBody"

text \<open>The Web Cryptography API refuses to import a key of length zero.\<close>

definition hmacSha256Hex :: "string \<Rightarrow> string \<Rightarrow> string result" where
  "hmacSha256Hex secret message =
     (if secret = [] then Inl (PlainError ''DataError'')
      else Inr (toHex (hmac_sha256 (utf8_bytes secret) (utf8_bytes message))))"

record signed_request =
  sr_timestamp :: string
  sr_rawBody :: string
  sr_canonical :: string
  sr_signature :: string

definition signRequest :: "string \<Rightarrow> string \<Rightarrow> int \<Rightarrow> signed_request result" where
  "signRequest secret rawBody timestampSeconds =
     (let timestamp = int_to_string timestampSeconds; canonical = canonicalString timestamp rawBody in
      bind_res (hmacSha256Hex secret canonical) (\<lambda>signature.
        Inr \<lparr>sr_timestamp = timestamp, sr_rawBody = rawBody, sr_canonical = canonical, sr_signature = signature\<rparr>))"

subsection \<open>Requests and responses\<close>

record fetch_request =
  fr_url :: string
  fr_method :: string
  fr_headers :: "(string \<times> string) list"
  fr_body :: "string option"

record fetch_response =
  fs_status :: nat
  fs_header :: "string \<Rightarrow> string option"
  fs_text :: "string result"

type_synonym fetch = "fetch_request \<Rightarrow> fetch_response result"

text \<open>\<open>response.ok\<close>\<close>

definition response_ok :: "fetch_response \<Rightarrow> bool" where
  "response_ok r \<longleftrightarrow> 200 \<le> fs_status r \<and> fs_status r \<le> 299"

text \<open>\<open>JSON.stringify\<close> of a body: the bodies hold strings and integers only, for which \<open>json_text\<close> is defined.\<close>

definition stringify :: "json \<Rightarrow> string" where
  "stringify j = nullish (json_text j) []"

text \<open>The text of a response, parsed when it is JSON\<close>

definition parsed_body :: "string \<Rightarrow> json" where
  "parsed_body bodyText = nullish (json_parse bodyText) (JStr bodyText)"

definition isRecord :: "json \<Rightarrow> bool" where
  "isRecord v \<longleftrightarrow> is_object (Some v)"

definition body_correlation_id :: "json \<Rightarrow> string option" where
  "body_correlation_id body = (if isRecord body then as_string (field body ''correlation_id'') else None)"

subsection \<open>The calls (\<open>api.ts\<close>)\<close>

fun apiStageForStatus :: "nat \<Rightarrow> stage" where
  "apiStageForStatus status =
     (if status = 202 then SPublished else if status = 400 then SMalformed
      else if status = 503 then SUnavailable else SRejected)"

record trigger_result =
  tr_correlationId :: string
  tr_eventId :: "string option"
  tr_eventType :: string
  tr_status :: nat
  tr_ok :: bool
  tr_bodyText :: string
  tr_body :: json
  tr_latencyMs :: rat
  tr_signed :: signed_request
  tr_apiStage :: stage
  tr_respondedCorrelationId :: "string option"

definition webhook_request :: "web_config \<Rightarrow> trigger_spec \<Rightarrow> signed_request \<Rightarrow> fetch_request" where
  "webhook_request cfg spec auth =
     \<lparr>fr_url = wc_apiUrl cfg @ ''/webhooks/orders'', fr_method = ''POST'',
      fr_headers = [(''content-type'', ''application/json''), (''x-signature'', sr_signature auth),
                    (''x-timestamp'', sr_timestamp auth), (''x-correlation-id'', tg_correlationId spec)],
      fr_body = Some (sr_rawBody auth)\<rparr>"

text \<open>The signature of a spec: overrides win over the configuration and the clock.\<close>

definition sign_spec :: "web_config \<Rightarrow> int \<Rightarrow> trigger_spec \<Rightarrow> signed_request result" where
  "sign_spec cfg now spec =
     signRequest (nullish (tg_secretOverride spec) (wc_hmacSecret cfg)) (stringify (tg_body spec))
       (nullish (tg_timestampOverride spec) (now div 1000))"

definition trigger :: "web_config \<Rightarrow> fetch \<Rightarrow> int \<Rightarrow> rat \<Rightarrow> rat \<Rightarrow> trigger_spec \<Rightarrow> trigger_result result" where
  "trigger cfg fetch now started finished spec =
     bind_res (sign_spec cfg now spec) (\<lambda>auth.
     bind_res (fetch (webhook_request cfg spec auth)) (\<lambda>response.
     bind_res (fs_text response) (\<lambda>bodyText.
       let body = parsed_body bodyText;
           respondedCorrelationId = (case fs_header response ''x-correlation-id'' of
               Some c \<Rightarrow> Some c
             | None \<Rightarrow> body_correlation_id body)
       in Inr \<lparr>tr_correlationId = tg_correlationId spec, tr_eventId = tg_eventId spec, tr_eventType = tg_eventType spec,
               tr_status = fs_status response, tr_ok = response_ok response, tr_bodyText = bodyText, tr_body = body,
               tr_latencyMs = finished - started, tr_signed = auth,
               tr_apiStage = apiStageForStatus (fs_status response),
               tr_respondedCorrelationId = respondedCorrelationId\<rparr>)))"

definition unsigned :: signed_request where
  "unsigned = \<lparr>sr_timestamp = [], sr_rawBody = [], sr_canonical = [], sr_signature = []\<rparr>"

definition injectPoison :: "web_config \<Rightarrow> fetch \<Rightarrow> rat \<Rightarrow> rat \<Rightarrow> trigger_spec \<Rightarrow> trigger_result result" where
  "injectPoison cfg fetch started finished spec =
     bind_res (fetch \<lparr>fr_url = wc_apiUrl cfg @ ''/demo/poison'', fr_method = ''POST'',
                      fr_headers = [(''x-correlation-id'', tg_correlationId spec)], fr_body = None\<rparr>) (\<lambda>response.
     bind_res (fs_text response) (\<lambda>bodyText.
       let body = parsed_body bodyText
       in Inr \<lparr>tr_correlationId = tg_correlationId spec, tr_eventId = None, tr_eventType = tg_eventType spec,
               tr_status = fs_status response, tr_ok = response_ok response, tr_bodyText = bodyText, tr_body = body,
               tr_latencyMs = finished - started, tr_signed = unsigned,
               tr_apiStage = (if response_ok response then SInjected else SUnavailable),
               tr_respondedCorrelationId = body_correlation_id body\<rparr>))"

text \<open>\<open>response.json()\<close> rejects with a \<open>SyntaxError\<close> on text that is no JSON.\<close>

definition response_json :: "fetch_response \<Rightarrow> json result" where
  "response_json r =
     bind_res (fs_text r) (\<lambda>t. case json_parse t of Some j \<Rightarrow> Inr j | None \<Rightarrow> Inl (PlainError ''SyntaxError''))"

definition admin_request :: "web_config \<Rightarrow> string \<Rightarrow> string \<Rightarrow> fetch_request" where
  "admin_request cfg verb path =
     \<lparr>fr_url = wc_apiUrl cfg @ path, fr_method = verb, fr_headers = [(''x-admin-key'', wc_adminKey cfg)], fr_body = None\<rparr>"

definition fetchDlq :: "web_config \<Rightarrow> fetch \<Rightarrow> json result" where
  "fetchDlq cfg fetch =
     bind_res (fetch (admin_request cfg ''GET'' ''/dlq'')) (\<lambda>response.
       if \<not> response_ok response then Inl (PlainError (''GET /dlq failed with '' @ digits (fs_status response)))
       else response_json response)"

definition discardDlq :: "web_config \<Rightarrow> fetch \<Rightarrow> string \<Rightarrow> unit result" where
  "discardDlq cfg fetch i =
     bind_res (fetch (admin_request cfg ''DELETE'' (''/dlq/'' @ i))) (\<lambda>response.
       if \<not> response_ok response then
         Inl (PlainError (''DELETE /dlq/'' @ i @ '' failed with '' @ digits (fs_status response)))
       else Inr ())"

definition replayDlq :: "web_config \<Rightarrow> fetch \<Rightarrow> string \<Rightarrow> json result" where
  "replayDlq cfg fetch i =
     bind_res (fetch (admin_request cfg ''POST'' (''/dlq/'' @ i @ ''/replay''))) (\<lambda>response.
       if \<not> response_ok response then Inl (PlainError (''replay failed with '' @ digits (fs_status response)))
       else response_json response)"

subsection \<open>Lemmas\<close>

lemma hex_digit_0: "hex_digit 0 = CHR ''0''"
  by code_simp

lemma toHex_digest: "toHex bs = digest_hex bs"
proof -
  have "hex_byte b = [hex_digit (unat b div 16), hex_digit (unat b mod 16)]" for b
    by (auto simp: hex_byte_def Let_def hex_digit_0)
  then have "hex_byte = (\<lambda>b. [hex_digit (unat b div 16), hex_digit (unat b mod 16)])" by (rule ext)
  then show ?thesis by (simp add: toHex_def digest_hex_def)
qed

text \<open>Both sides of the boundary compute the same signature.\<close>

lemma signRequest_Inr:
  "signRequest secret rawBody t = Inr r \<longleftrightarrow>
     secret \<noteq> [] \<and> r = \<lparr>sr_timestamp = int_to_string t, sr_rawBody = rawBody,
                         sr_canonical = int_to_string t @ ''.'' @ rawBody,
                         sr_signature = expected_signature secret (int_to_string t) rawBody\<rparr>"
  by (auto simp: signRequest_def hmacSha256Hex_def Let_def toHex_digest canonicalString_def expected_signature_def)

text \<open>
  The request as the server handles it: Node's lower-case headers, the body parser, the correlation
  middleware, then the route. \<open>received_status\<close> is the status Nest answers with.
\<close>

definition server_headers :: "fetch_request \<Rightarrow> headers" where
  "server_headers rq = (\<lambda>name. map_option Single (map_of (fr_headers rq) name))"

definition served ::
  "signature_guard \<Rightarrow> ((string \<times> constraint list) list \<Rightarrow> json \<Rightarrow> bool) \<Rightarrow> (order_webhook \<Rightarrow> string \<Rightarrow> unit result) \<Rightarrow>
     string \<Rightarrow> int \<Rightarrow> fetch_request \<Rightarrow> (string \<times> string) result"
where
  "served g accept publish uuid now rq =
     (let hs = server_headers rq; rawBody = nullish (fr_body rq) [] in
      case json_parse rawBody of
        None \<Rightarrow> Inl (HttpException 400 ''Bad Request'')
      | Some body \<Rightarrow>
          snd (correlation_use uuid hs (post_orders (\<lambda>_. Inr ()) g accept publish uuid now hs rawBody body)))"

fun received_status :: "(string \<times> string) result \<Rightarrow> nat" where
  "received_status (Inr _) = 202"
| "received_status (Inl (HttpException n m)) = n"
| "received_status (Inl _) = 500"

lemma stringify_roundtrip: "representable j \<Longrightarrow> json_parse (stringify j) = Some j"
  by (auto simp: stringify_def representable_def intro: json_roundtrip)

definition same_digest :: "string \<Rightarrow> string \<Rightarrow> bool" where
  "same_digest a b \<longleftrightarrow> sha256 (utf8_bytes a) = sha256 (utf8_bytes b)"

lemma same_digest_refl [simp]: "same_digest a a"
  by (simp add: same_digest_def)

lemma expected_signature_not_Nil [simp]: "expected_signature k t b \<noteq> []"
proof -
  have "length (expected_signature k t b) = 64" by (simp add: expected_signature_def)
  then show ?thesis by force
qed

lemma unix_time_literal:
  assumes "0 \<le> t" and "t < 10 ^ 18"
  shows "js_number_str (int_to_string t) = Fin (of_int t)"
proof -
  have "(of_nat (nat t) :: rat) = of_int t" using assms(1) by (simp add: of_nat_nat)
  moreover have "(of_int t :: rat) < of_int (10 ^ 18)" using assms(2) by (subst of_int_less_iff)
  ultimately show ?thesis
    using js_number_str_digits [of "digits (nat t)"] digits_all [of "nat t"] assms
    by (simp add: int_to_string_def to_jsnum_def double_limit_def)
qed

lemma served_signed:
  assumes "validation_pipe accept" and "\<And>e c. publish e c = Inr ()" and "sg_toleranceSeconds g = Fin (of_int n)"
    and "signRequest secret (stringify body) t = Inr auth" and "tg_body spec = body" and "representable body"
    and "0 \<le> t" and "t < 10 ^ 18" and "valid_correlation_id (tg_correlationId spec)"
  shows "served g accept publish uuid now (webhook_request cfg spec auth) =
    (if n < \<bar>now div 1000 - t\<bar> then Inl (HttpException 401 ''stale or invalid timestamp'')
     else if \<not> same_digest (sr_signature auth) (expected_signature (sg_secret g) (sr_timestamp auth) (sr_rawBody auth))
       then Inl (HttpException 401 ''invalid signature'')
     else if \<not> meets OrderWebhookDto body then Inl (HttpException 400 ''Bad Request'')
     else Inr (tg_correlationId spec, ''accepted''))"
proof -
  from assms(4) have auth: "sr_timestamp auth = int_to_string t" "sr_rawBody auth = stringify body"
      "sr_signature auth = expected_signature secret (int_to_string t) (stringify body)"
    by (simp_all add: signRequest_Inr)
  let ?hs = "server_headers (webhook_request cfg spec auth)"
  have hs: "headerValue ?hs ''x-signature'' = Some (sr_signature auth)" "headerValue ?hs ''x-timestamp'' = Some (sr_timestamp auth)"
      "?hs CORRELATION_HEADER = Some (Single (tg_correlationId spec))"
    by (simp_all add: headerValue_def server_headers_def webhook_request_def CORRELATION_HEADER_def)
  have "int_to_string t \<noteq> []" using assms(7) by (simp add: int_to_string_def)
  moreover have "\<bar>of_int (now div 1000) - (of_int t :: rat)\<bar> = of_int \<bar>now div 1000 - t\<bar>" by simp
  ultimately have guard: "signature_canActivate g now ?hs (Some (stringify body)) =
    (if n < \<bar>now div 1000 - t\<bar> then Inl (HttpException 401 ''stale or invalid timestamp'')
     else if \<not> same_digest (sr_signature auth) (expected_signature (sg_secret g) (sr_timestamp auth) (sr_rawBody auth))
       then Inl (HttpException 401 ''invalid signature'') else Inr True)"
    using unix_time_literal [OF assms(7,8)]
    by (simp add: signature_canActivate_def hs Let_def auth withinTolerance_def assms(3) same_digest_def not_less
        del: of_int_abs)
  have dto: "\<exists>event. order_dto body = Some event" if "meets OrderWebhookDto body"
  proof -
    from that have "accept OrderWebhookDto body" using assms(1) by (simp add: validation_pipe.accepts)
    from validation_pipe.accepted_order [OF assms(1) this] show ?thesis by metis
  qed
  have raw: "fr_body (webhook_request cfg spec auth) = Some (stringify body)"
    by (simp add: webhook_request_def auth)
  show ?thesis
    using dto validation_pipe.accepts [OF assms(1), of OrderWebhookDto body] assms(2,9)
    by (auto simp: served_def raw stringify_roundtrip [OF assms(6)] correlation_use_def runWithCorrelationId_def hs
        post_orders_def guard ingestOrder_def currentCorrelationId_def Let_def)
qed

subsection \<open>The bodies of the scenarios\<close>

text \<open>Where the values a \<open>build\<close> draws come from: \<open>randomUUID()\<close> and a clock within a \<open>Date\<close>'s range.\<close>

definition build_inputs_ok :: "(nat \<Rightarrow> string) \<Rightarrow> int \<Rightarrow> bool" where
  "build_inputs_ok ids now \<longleftrightarrow> (\<forall>k. valid_correlation_id (ids k)) \<and> 600000 \<le> now \<and> now \<le> 8640000000000000"

lemma ascii_plain: "list_all (\<lambda>c. code c < 128) s \<Longrightarrow> join_surrogates s = s"
  by (rule join_surrogates_ascii) (simp add: list_all_iff)

lemma event_id_fits:
  assumes "valid_correlation_id u"
  shows "join_surrogates (newEventId u) = newEventId u" and "code_points (newEventId u) \<le> 255"
proof -
  have "list_all (\<lambda>c. code c < 128) ''evt_''" by code_simp
  then have "\<forall>c \<in> set (newEventId u). code c < 128"
    using valid_correlation_id_ascii(1) [OF assms] by (auto simp: newEventId_def list_all_iff)
  then show "join_surrogates (newEventId u) = newEventId u" by (rule join_surrogates_ascii)
  have "length (newEventId u) \<le> 132" using assms by (simp add: newEventId_def valid_correlation_id_def)
  then show "code_points (newEventId u) \<le> 255"
    unfolding code_points_def by (intro order_trans [OF length_filter_le]) simp
qed

lemma body_literals:
  "join_surrogates ''event_id'' = ''event_id''" "join_surrogates ''event_type'' = ''event_type''"
  "join_surrogates ''payload'' = ''payload''" "join_surrogates ''amount'' = ''amount''"
  "join_surrogates ''currency'' = ''currency''" "join_surrogates ''BRL'' = ''BRL''"
  "join_surrogates ''order.created'' = ''order.created''" "join_surrogates ''__scenario'' = ''__scenario''"
  "join_surrogates ''__outage_until'' = ''__outage_until''" "join_surrogates ''transient'' = ''transient''"
  "join_surrogates ''exhaust'' = ''exhaust''" "join_surrogates ''permanent'' = ''permanent''"
  by (rule ascii_plain, code_simp)+

text \<open>What a scenario adds to its payload\<close>

fun extra_payload :: "scenario_id \<Rightarrow> int \<Rightarrow> (string \<times> json) list" where
  "extra_payload Transient now = [(''__scenario'', JStr ''transient'')]"
| "extra_payload Exhaust now =
     [(''__scenario'', JStr ''exhaust''), (''__outage_until'', JNum (Fin (of_int (now + OUTAGE_WINDOW_MS))))]"
| "extra_payload Permanent now = [(''__scenario'', JStr ''permanent'')]"
| "extra_payload _ now = []"

lemma extra_payload_representable:
  assumes "0 \<le> now" and "now \<le> 8640000000000000"
  shows "representable (order_payload (extra_payload i now))"
proof -
  have "representable (JNum (Fin (of_int (now + OUTAGE_WINDOW_MS))))"
    by (rule representable_int) (use assms in \<open>simp add: OUTAGE_WINDOW_MS_def\<close>)
  moreover have "representable (JNum (Fin (of_int 4200)))" by (rule representable_int) simp
  ultimately show ?thesis
    by (cases i) (simp_all add: order_payload_def representable_obj body_literals)
qed

lemma order_body:
  assumes "valid_correlation_id u" and "0 \<le> now" and "now \<le> 8640000000000000"
  shows "representable (orderBody (newEventId u) (extra_payload i now))"
    and "meets OrderWebhookDto (orderBody (newEventId u) (extra_payload i now))"
proof -
  show "representable (orderBody (newEventId u) (extra_payload i now))"
    using extra_payload_representable [OF assms(2,3)] event_id_fits(1) [OF assms(1)]
    by (simp add: orderBody_def representable_obj body_literals EVENT_TYPE_def)
  have "newEventId u \<noteq> []" by (simp add: newEventId_def)
  moreover have "code_points EVENT_TYPE \<le> 255" unfolding EVENT_TYPE_def by code_simp
  ultimately show "meets OrderWebhookDto (orderBody (newEventId u) (extra_payload i now))"
    using event_id_fits(2) [OF assms(1)]
    by (simp add: meets_def orderBody_def OrderWebhookDto_def MAX_ID_LENGTH_def order_payload_def EVENT_TYPE_def)
qed

lemma malformed_body:
  "representable (JObj [(''event_type'', JStr EVENT_TYPE), (''payload'', order_payload [])])"
  "\<not> meets OrderWebhookDto (JObj [(''event_type'', JStr EVENT_TYPE), (''payload'', order_payload [])])"
proof -
  show "representable (JObj [(''event_type'', JStr EVENT_TYPE), (''payload'', order_payload [])])"
    using extra_payload_representable [of 0 Happy] by (simp add: representable_obj body_literals EVENT_TYPE_def)
  show "\<not> meets OrderWebhookDto (JObj [(''event_type'', JStr EVENT_TYPE), (''payload'', order_payload [])])"
    by (simp add: meets_def OrderWebhookDto_def)
qed

text \<open>What the specs of a scenario have in common\<close>

lemma scenario_spec:
  assumes "sc \<in> set SCENARIOS" and "sd_id sc \<noteq> Poison" and "spec \<in> set (sd_build sc ids now)"
  shows "tg_body spec =
           (if sd_id sc = Malformed then JObj [(''event_type'', JStr EVENT_TYPE), (''payload'', order_payload [])]
            else orderBody (newEventId (ids 0)) (extra_payload (sd_id sc) now))
         \<and> tg_secretOverride spec = (if sd_id sc = Invalid_signature then Some ''wrong-secret'' else None)
         \<and> tg_timestampOverride spec = (if sd_id sc = Stale_timestamp then Some (now div 1000 - 600) else None)
         \<and> tg_correlationId spec \<in> range ids"
  using assms by (auto simp: SCENARIOS_def build_defs Let_def)

lemma expected_answers [simp]:
  "take 3 (sd_expected happy_scenario) = ''202''" "take 3 (sd_expected invalid_signature_scenario) = ''401''"
  "take 3 (sd_expected stale_timestamp_scenario) = ''401''" "take 3 (sd_expected duplicate_scenario) = ''202''"
  "take 3 (sd_expected transient_scenario) = ''202''" "take 3 (sd_expected exhaust_scenario) = ''202''"
  "take 3 (sd_expected permanent_scenario) = ''202''" "take 3 (sd_expected poison_scenario) = ''202''"
  "take 3 (sd_expected malformed_scenario) = ''400''"
  by (simp_all add: scenario_defs)

lemma status_digits [simp]: "digits 202 = ''202''" "digits 400 = ''400''" "digits 401 = ''401''" "digits 503 = ''503''"
  by code_simp+

subsection \<open>Properties\<close>



text \<open>The event a spec becomes on the worker's side of the broker\<close>

definition event_sent :: "trigger_spec \<Rightarrow> handled_event" where
  "event_sent spec = (let order = the (order_dto (tg_body spec)) in
     \<lparr>he_eventId = ow_event_id order, he_eventType = ow_event_type order,
      he_correlationId = tg_correlationId spec, he_payload = ow_payload order\<rparr>)"

lemma event_sent_order:
  assumes "tg_body spec = orderBody i extra"
  shows "event_sent spec = \<lparr>he_eventId = i, he_eventType = EVENT_TYPE, he_correlationId = tg_correlationId spec,
                            he_payload = order_payload extra\<rparr>"
  by (simp add: event_sent_def assms orderBody_def order_dto_def order_payload_def)

lemma json_has_nul_payload: "\<not> json_has_nul (order_payload (extra_payload i now))"
proof -
  have "\<forall>s \<in> {''amount'', ''currency'', ''BRL'', ''__scenario'', ''__outage_until'', ''transient'', ''exhaust'', ''permanent''}.
          CHR 0x00 \<notin> set s" by simp
  then show ?thesis by (cases i) (simp_all add: order_payload_def)
qed

lemma valid_id_fits: "valid_correlation_id c \<Longrightarrow> varchar255_error c = None"
  by (rule varchar255_fits) (auto simp: valid_correlation_id_def list_all_iff correlation_char_def is_digit_def code_def)

lemma sent_event_fits:
  assumes "valid_correlation_id u" and "valid_correlation_id (tg_correlationId spec)"
    and "tg_body spec = orderBody (newEventId u) (extra_payload i now)"
  shows "schema_error (InsertEvent (claim_values (event_sent spec))) = None"
proof -
  have "varchar255_error (newEventId u) = None"
    by (rule varchar255_fits)
      (use assms(1) in \<open>auto simp: newEventId_def valid_correlation_id_def list_all_iff correlation_char_def is_digit_def code_def\<close>)
  moreover have "varchar255_error EVENT_TYPE = None"
    by (rule varchar255_fits) (simp_all add: EVENT_TYPE_def)
  ultimately show ?thesis
    using valid_id_fits [OF assms(2)]
    by (simp add: event_sent_order [OF assms(3)] claim_values_def json_has_nul_payload)
qed

lemma sent_scenario:
  assumes "tg_body spec = orderBody i (extra_payload sid now)"
  shows "scenarioOf (event_sent spec) =
           (case sid of Transient \<Rightarrow> Some ScTransient | Exhaust \<Rightarrow> Some ScExhaust | Permanent \<Rightarrow> Some ScPermanent | _ \<Rightarrow> None)"
    and "sid = Exhaust \<Longrightarrow> outage_over t (event_sent spec) \<longleftrightarrow> now + OUTAGE_WINDOW_MS \<le> t"
  by (cases sid; simp add: event_sent_order [OF assms] scenarioOf_def order_payload_def DEMO_SCENARIO_KEY_def)
    (simp add: event_sent_order [OF assms] outage_over_def order_payload_def OUTAGE_UNTIL_KEY_def js_number_def not_less
        flip: of_int_add)

text \<open>Attempt 1 comes within \<open>slack\<close> of the click, every later one within \<open>slack\<close> of the end of its tier's wait.\<close>

definition on_schedule :: "int \<Rightarrow> int \<Rightarrow> (int \<Rightarrow> int) \<Rightarrow> bool" where
  "on_schedule now slack clock \<longleftrightarrow>
     clock 1 \<le> now + slack
     \<and> list_all (\<lambda>a. clock (a + 1) \<le> clock a + tier_ttlMs (retryTierForAttempt a) + slack) [1, 2, 3]"



end
