(* ===== verification/WebState.thy ===== *)
theory WebState
  imports WebClient
begin

text \<open>
  The dashboard's state, \<open>src/web/src/state/reducer.ts\<close>: one token per request with its stage history,
  the counters and latencies, the reducer of the four actions, and what the panels derive from it.
  \<open>localeCompare\<close> is the parameter \<open>collate\<close>, \<open>Date.parse\<close> the parameter \<open>date_parse\<close> (\<open>None\<close> for
  \<open>NaN\<close>); the timestamp the reducer takes itself is part of the action.
\<close>

subsection \<open>Sorting with a comparator\<close>

text \<open>
  \<open>Array.prototype.sort\<close> is stable; \<open>before a b\<close> says that the comparator does not put \<open>b\<close> first.
\<close>

fun sort_insert :: "('a \<Rightarrow> 'a \<Rightarrow> bool) \<Rightarrow> 'a \<Rightarrow> 'a list \<Rightarrow> 'a list" where
  "sort_insert before x [] = [x]"
| "sort_insert before x (y # ys) = (if before x y then x # y # ys else y # sort_insert before x ys)"

definition js_sort :: "('a \<Rightarrow> 'a \<Rightarrow> bool) \<Rightarrow> 'a list \<Rightarrow> 'a list" where
  "js_sort before xs = foldr (sort_insert before) xs []"

text \<open>
  Insertion at the end of a sorted list, the contract of a consistent comparator and its consequences.
\<close>

fun put_last :: "('a \<Rightarrow> 'a \<Rightarrow> bool) \<Rightarrow> 'a \<Rightarrow> 'a list \<Rightarrow> 'a list" where
  "put_last before x [] = [x]"
| "put_last before x (y # ys) = (if before y x then y # put_last before x ys else x # y # ys)"

lemma set_sort_insert [simp]: "set (sort_insert before x ys) = insert x (set ys)"
  by (induction ys) auto

lemma set_js_sort [simp]: "set (js_sort before xs) = set xs"
  by (induction xs) (simp_all add: js_sort_def)

lemma set_put_last [simp]: "set (put_last before x ys) = insert x (set ys)"
  by (induction ys) auto

locale comparator =
  fixes before :: "'a \<Rightarrow> 'a \<Rightarrow> bool"
  assumes total: "before a b \<or> before b a"
    and trans: "before a b \<Longrightarrow> before b c \<Longrightarrow> before a c"
begin

lemma refl: "before a a"
  using total by blast

lemma sorted_insert: "sorted_wrt before ys \<Longrightarrow> sorted_wrt before (sort_insert before x ys)"
proof (induction ys)
  case (Cons y ys)
  then show ?case using total [of x y] trans [of x y] by auto
qed simp

lemma sorted_sort: "sorted_wrt before (js_sort before xs)"
  by (induction xs) (simp_all add: js_sort_def sorted_insert)

lemma sort_insert_first: "list_all (before x) ys \<Longrightarrow> sort_insert before x ys = x # ys"
  by (cases ys) simp_all

lemma sort_snoc: "sorted_wrt before xs \<Longrightarrow> js_sort before (xs @ [x]) = put_last before x xs"
proof (induction xs)
  case (Cons y ys)
  then have IH: "js_sort before (ys @ [x]) = put_last before x ys" by simp
  have sort: "js_sort before (y # ys @ [x]) = sort_insert before y (put_last before x ys)"
    using IH by (simp add: js_sort_def)
  have ys: "list_all (before y) ys" using Cons.prems by (simp add: list_all_iff)
  show ?case
  proof (cases "before y x")
    case True
    with ys have "list_all (before y) (put_last before x ys)" by (simp add: list_all_iff)
    with True show ?thesis by (simp add: sort sort_insert_first)
  next
    case False
    have "\<not> before z x" if "z \<in> set ys" for z
      using False ys that trans [of y z x] by (auto simp: list_all_iff)
    then have "put_last before x ys = x # ys" by (cases ys) simp_all
    with False ys show ?thesis by (simp add: sort sort_insert_first)
  qed
qed (simp add: js_sort_def)

lemma sorted_put_last: "sorted_wrt before xs \<Longrightarrow> sorted_wrt before (put_last before x xs)"
  by (metis sort_snoc sorted_sort)

lemma put_last_commute:
  assumes "before x y" and "\<not> before y x"
  shows "put_last before x (put_last before y zs) = put_last before y (put_last before x zs)"
proof (induction zs)
  case (Cons z zs)
  then show ?case using assms total trans by auto
qed (use assms in simp)

lemma filter_put_last:
  "sorted_wrt before xs \<Longrightarrow>
     filter P (put_last before x xs) = (if P x then put_last before x (filter P xs) else filter P xs)"
proof (induction xs)
  case (Cons y ys)
  have "put_last before x (filter P ys) = x # filter P ys" if "\<not> before y x"
  proof -
    have "\<not> before z x" if "z \<in> set (filter P ys)" for z
      using \<open>\<not> before y x\<close> Cons.prems that trans [of y z x] by auto
    then show ?thesis by (cases "filter P ys") simp_all
  qed
  with Cons show ?case by auto
qed simp

end

subsection \<open>Tokens\<close>

record stage_event =
  se_stage :: stage
  se_ts :: string
  se_status :: "string option"
  se_attempts :: "jsnum option"

record token =
  tk_correlationId :: string
  tk_eventId :: "string option"
  tk_eventType :: string
  tk_scenario :: scenario_id
  tk_label :: string
  tk_color :: string
  tk_stages :: "stage_event list"
  tk_currentStage :: stage
  tk_terminal :: bool
  tk_attempts :: jsnum
  tk_httpStatus :: "nat option"
  tk_httpBody :: "json option"
  tk_latencyMs :: "rat option"
  tk_canonical :: "string option"
  tk_signature :: "string option"
  tk_rawBody :: "string option"
  tk_signedTimestamp :: "string option"
  tk_retryDeadline :: "int option"
  tk_retryTier :: "string option"

record counters =
  ct_processed :: nat
  ct_duplicate :: nat
  ct_retry :: nat
  ct_dead :: nat
  ct_rejected :: nat

record demo_state =
  ds_tokens :: "string \<rightharpoonup> token"
  ds_order :: "string list"
  ds_counters :: counters
  ds_latencies :: "rat list"

definition no_counts :: counters where
  "no_counts = \<lparr>ct_processed = 0, ct_duplicate = 0, ct_retry = 0, ct_dead = 0, ct_rejected = 0\<rparr>"

definition initialState :: demo_state where
  "initialState = \<lparr>ds_tokens = Map.empty, ds_order = [], ds_counters = no_counts, ds_latencies = []\<rparr>"

text \<open>
  \<open>state.tokens[id]\<close> on a plain object: an own token, or what the object inherits from
  \<open>Object.prototype\<close> under that name, or \<open>undefined\<close>.
\<close>

definition OBJECT_PROTOTYPE :: "string list" where
  "OBJECT_PROTOTYPE =
     [''constructor'', ''__defineGetter__'', ''__defineSetter__'', ''hasOwnProperty'', ''__lookupGetter__'',
      ''__lookupSetter__'', ''isPrototypeOf'', ''propertyIsEnumerable'', ''toString'', ''valueOf'', ''__proto__'',
      ''toLocaleString'']"

datatype slot = Own token | Inherited | Missing

definition lookup_token :: "demo_state \<Rightarrow> string \<Rightarrow> slot" where
  "lookup_token s i = (case ds_tokens s i of
       Some t \<Rightarrow> Own t
     | None \<Rightarrow> if i \<in> set OBJECT_PROTOTYPE then Inherited else Missing)"

subsection \<open>Retry tiers on the dashboard\<close>

definition retryTier :: "jsnum \<Rightarrow> string" where
  "retryTier attempts =
     (if js_le attempts (Fin 1) then ''5s'' else if attempts = Fin 2 then ''30s'' else ''2min'')"

definition RETRY_TTL :: "(string \<times> int) list" where
  "RETRY_TTL = [(''5s'', 5000), (''30s'', 30000), (''2min'', 120000)]"

subsection \<open>Stage histories\<close>

definition stage_before :: "(string \<Rightarrow> string \<Rightarrow> int) \<Rightarrow> stage_event \<Rightarrow> stage_event \<Rightarrow> bool" where
  "stage_before collate a b \<longleftrightarrow>
     (let rankDelta = int (STAGE_RANK (se_stage a)) - int (STAGE_RANK (se_stage b))
      in if rankDelta \<noteq> 0 then rankDelta < 0 else collate (se_ts a) (se_ts b) \<le> 0)"

definition same_entry :: "stage_event \<Rightarrow> stage_event \<Rightarrow> bool" where
  "same_entry a b \<longleftrightarrow> se_stage a = se_stage b \<and> se_attempts a = se_attempts b \<and> se_attempts a \<noteq> Some NaN"

definition insertStage :: "(string \<Rightarrow> string \<Rightarrow> int) \<Rightarrow> stage_event list \<Rightarrow> stage_event \<Rightarrow> stage_event list" where
  "insertStage collate history event =
     (let withoutSame = filter (\<lambda>existing. \<not> same_entry existing event) history
      in js_sort (stage_before collate) (withoutSame @ [event]))"

text \<open>\<open>reduce\<close> without an initial value throws on an empty array; a token always has a stage.\<close>

definition highestStage :: "stage_event list \<Rightarrow> stage" where
  "highestStage history =
     se_stage (foldl (\<lambda>top event. if STAGE_RANK (se_stage top) \<le> STAGE_RANK (se_stage event) then event else top)
                 (hd history) (tl history))"

text \<open>\<open>Math.max\<close>\<close>

definition js_max :: "jsnum \<Rightarrow> jsnum \<Rightarrow> jsnum" where
  "js_max a b = (if a = NaN \<or> b = NaN then NaN else if js_le a b then b else a)"

definition withStage :: "(string \<Rightarrow> string \<Rightarrow> int) \<Rightarrow> token \<Rightarrow> stage_event \<Rightarrow> token" where
  "withStage collate t event =
     (let history = insertStage collate (tk_stages t) event; currentStage = highestStage history
      in t\<lparr>tk_stages := history, tk_currentStage := currentStage, tk_terminal := isTerminal currentStage,
           tk_attempts := js_max (tk_attempts t) (nullish (se_attempts event) (tk_attempts t))\<rparr>)"

subsection \<open>The reducer\<close>

record trigger_started =
  ts_correlationId :: string
  ts_eventId :: "string option"
  ts_eventType :: string
  ts_scenario :: scenario_id
  ts_label :: string
  ts_ts :: string
  ts_initialStage :: "stage option"

datatype action =
    TriggerStarted trigger_started
  | HttpResult scenario_id trigger_result string
  | EnvelopeArrived web_envelope int
  | Reset

definition new_token :: "trigger_started \<Rightarrow> token" where
  "new_token a =
     (let initialStage = nullish (ts_initialStage a) SReceived in
      \<lparr>tk_correlationId = ts_correlationId a, tk_eventId = ts_eventId a, tk_eventType = ts_eventType a,
       tk_scenario = ts_scenario a, tk_label = ts_label a, tk_color = colorFor (ts_correlationId a),
       tk_stages = [\<lparr>se_stage = initialStage, se_ts = ts_ts a, se_status = None, se_attempts = None\<rparr>],
       tk_currentStage = initialStage, tk_terminal = False, tk_attempts = Fin 0,
       tk_httpStatus = None, tk_httpBody = None, tk_latencyMs = None, tk_canonical = None, tk_signature = None,
       tk_rawBody = None, tk_signedTimestamp = None, tk_retryDeadline = None, tk_retryTier = None\<rparr>)"

definition put_token :: "token \<Rightarrow> demo_state \<Rightarrow> demo_state" where
  "put_token t s = s\<lparr>ds_tokens := (ds_tokens s)(tk_correlationId t \<mapsto> t)\<rparr>"

definition on_trigger_started :: "trigger_started \<Rightarrow> demo_state \<Rightarrow> demo_state" where
  "on_trigger_started a s =
     (let t = new_token a in (put_token t s)\<lparr>ds_order := ds_order s @ [tk_correlationId t]\<rparr>)"

text \<open>The token after the HTTP answer\<close>

definition answered :: "(string \<Rightarrow> string \<Rightarrow> int) \<Rightarrow> trigger_result \<Rightarrow> string \<Rightarrow> token \<Rightarrow> token" where
  "answered collate result ts existing =
     (let plain = (\<lambda>st. \<lparr>se_stage = st, se_ts = ts, se_status = None, se_attempts = None\<rparr>);
          t = (if tr_apiStage result = SPublished
               then withStage collate (withStage collate existing (plain SSignatureVerified)) (plain SPublished)
               else withStage collate existing
                      \<lparr>se_stage = tr_apiStage result, se_ts = ts, se_status = Some (digits (tr_status result)), se_attempts = None\<rparr>)
      in t\<lparr>tk_httpStatus := Some (tr_status result), tk_httpBody := Some (tr_body result),
           tk_latencyMs := Some (tr_latencyMs result), tk_canonical := Some (sr_canonical (tr_signed result)),
           tk_signature := Some (sr_signature (tr_signed result)), tk_rawBody := Some (sr_rawBody (tr_signed result)),
           tk_signedTimestamp := Some (sr_timestamp (tr_signed result))\<rparr>)"

definition no_stages :: exn where
  "no_stages = TypeError ''Cannot read properties of undefined''"

definition on_http_result ::
  "(string \<Rightarrow> string \<Rightarrow> int) \<Rightarrow> trigger_result \<Rightarrow> string \<Rightarrow> demo_state \<Rightarrow> demo_state result"
where
  "on_http_result collate result ts s =
     (case lookup_token s (tr_correlationId result) of
        Missing \<Rightarrow> Inr s
      | Inherited \<Rightarrow> Inl no_stages
      | Own existing \<Rightarrow>
          let latencies = (if tr_status result = 202 \<and> tr_apiStage result \<noteq> SInjected
                           then ds_latencies s @ [tr_latencyMs result] else ds_latencies s);
              cs = (if 400 \<le> tr_status result
                    then (ds_counters s)\<lparr>ct_rejected := ct_rejected (ds_counters s) + 1\<rparr> else ds_counters s)
          in Inr ((put_token (answered collate result ts existing) s)\<lparr>ds_latencies := latencies, ds_counters := cs\<rparr>))"

definition count_stage :: "stage \<Rightarrow> counters \<Rightarrow> counters" where
  "count_stage st cs =
     (if st = SProcessed then cs\<lparr>ct_processed := ct_processed cs + 1\<rparr>
      else if st = SDuplicate then cs\<lparr>ct_duplicate := ct_duplicate cs + 1\<rparr>
      else if st = SRetry then cs\<lparr>ct_retry := ct_retry cs + 1\<rparr>
      else if st = SDead then cs\<lparr>ct_dead := ct_dead cs + 1\<rparr>
      else cs)"

text \<open>The history entry of an envelope, and the token after it\<close>

definition arrived :: "web_envelope \<Rightarrow> stage_event" where
  "arrived e =
     \<lparr>se_stage = we_stage e, se_ts = we_ts e, se_status = Some (we_status e), se_attempts = Some (we_attempts e)\<rparr>"

definition advanced :: "(string \<Rightarrow> string \<Rightarrow> int) \<Rightarrow> web_envelope \<Rightarrow> int \<Rightarrow> token \<Rightarrow> token" where
  "advanced collate e now existing =
     (let t = withStage collate existing (arrived e)
      in if we_stage e = SRetry then
           (let tier = retryTier (we_attempts e)
            in t\<lparr>tk_retryTier := Some tier, tk_retryDeadline := map_option (\<lambda>ttl. now + ttl) (map_of RETRY_TTL tier)\<rparr>)
         else if tk_currentStage t \<noteq> SRetry then t\<lparr>tk_retryDeadline := None, tk_retryTier := None\<rparr>
         else t)"

definition on_envelope ::
  "(string \<Rightarrow> string \<Rightarrow> int) \<Rightarrow> web_envelope \<Rightarrow> int \<Rightarrow> demo_state \<Rightarrow> demo_state result"
where
  "on_envelope collate e now s =
     (let s1 = s\<lparr>ds_counters := count_stage (we_stage e) (ds_counters s)\<rparr> in
      case lookup_token s (we_correlation_id e) of
        Missing \<Rightarrow> Inr s1
      | Inherited \<Rightarrow> Inl no_stages
      | Own existing \<Rightarrow> Inr (put_token (advanced collate e now existing) s1))"

fun reducer :: "(string \<Rightarrow> string \<Rightarrow> int) \<Rightarrow> demo_state \<Rightarrow> action \<Rightarrow> demo_state result" where
  "reducer collate s (TriggerStarted a) = Inr (on_trigger_started a s)"
| "reducer collate s (HttpResult sc result ts) = on_http_result collate result ts s"
| "reducer collate s (EnvelopeArrived e now) = on_envelope collate e now s"
| "reducer collate s Reset = Inr initialState"

fun reduce_all :: "(string \<Rightarrow> string \<Rightarrow> int) \<Rightarrow> demo_state \<Rightarrow> action list \<Rightarrow> demo_state result" where
  "reduce_all collate s [] = Inr s"
| "reduce_all collate s (a # as) = bind_res (reducer collate s a) (\<lambda>s'. reduce_all collate s' as)"

subsection \<open>What the panels derive\<close>

definition WORKER_TERMINALS :: "stage list" where
  "WORKER_TERMINALS = [SProcessed, SDuplicate, SDead]"

definition stage_times :: "(string \<Rightarrow> rat option) \<Rightarrow> token \<Rightarrow> stage \<Rightarrow> rat list" where
  "stage_times date_parse t st =
     List.map_filter (\<lambda>event. date_parse (se_ts event)) (filter (\<lambda>event. se_stage event = st) (tk_stages t))"

definition stage_min :: "(string \<Rightarrow> rat option) \<Rightarrow> token \<Rightarrow> stage \<Rightarrow> rat option" where
  "stage_min date_parse t st = (case stage_times date_parse t st of [] \<Rightarrow> None | x # xs \<Rightarrow> Some (foldl min x xs))"

definition stage_max :: "(string \<Rightarrow> rat option) \<Rightarrow> token \<Rightarrow> stage \<Rightarrow> rat option" where
  "stage_max date_parse t st = (case stage_times date_parse t st of [] \<Rightarrow> None | x # xs \<Rightarrow> Some (foldl max x xs))"

definition processingMs :: "(string \<Rightarrow> rat option) \<Rightarrow> token \<Rightarrow> rat option" where
  "processingMs date_parse t =
     (case (case stage_min date_parse t SConsuming of
              Some x \<Rightarrow> Some x | None \<Rightarrow> stage_min date_parse t SProcessingDecision) of
        None \<Rightarrow> None
      | Some start \<Rightarrow>
          (case List.find (\<lambda>st. list_ex (\<lambda>event. se_stage event = st) (tk_stages t)) WORKER_TERMINALS of
             None \<Rightarrow> None
           | Some fin \<Rightarrow>
               (case stage_max date_parse t fin of
                  None \<Rightarrow> None
                | Some finish \<Rightarrow> Some (max 0 (finish - start)))))"

definition percentile :: "rat list \<Rightarrow> rat \<Rightarrow> rat option" where
  "percentile values p =
     (if values = [] then None
      else
        let sorted_values = js_sort (\<lambda>a b. a - b \<le> 0) values; n = int (length sorted_values);
            index = min (n - 1) (max 0 (\<lceil>(p / 100) * of_int n\<rceil> - 1))
        in Some (sorted_values ! nat index))"

subsection \<open>Collation\<close>

text \<open>What the reducer needs of \<open>localeCompare\<close>: a consistent comparison.\<close>

locale collation =
  fixes collate :: "string \<Rightarrow> string \<Rightarrow> int"
  assumes collate_total: "collate a b \<le> 0 \<or> collate b a \<le> 0"
    and collate_trans: "collate a b \<le> 0 \<Longrightarrow> collate b c \<le> 0 \<Longrightarrow> collate a c \<le> 0"

sublocale collation \<subseteq> history: comparator "stage_before collate"
proof
  show "stage_before collate a b \<or> stage_before collate b a" for a b
    using collate_total [of "se_ts a" "se_ts b"] by (auto simp: stage_before_def Let_def)
  show "stage_before collate a c" if "stage_before collate a b" "stage_before collate b c" for a b c
    using that collate_trans [of "se_ts a" "se_ts b" "se_ts c"]
    by (auto simp: stage_before_def Let_def split: if_splits)
qed

text \<open>Timestamps of one format compare as their characters do.\<close>

fun iso_collate :: "string \<Rightarrow> string \<Rightarrow> int" where
  "iso_collate [] [] = 0"
| "iso_collate [] (b # bs) = - 1"
| "iso_collate (a # as) [] = 1"
| "iso_collate (a # as) (b # bs) = (if a = b then iso_collate as bs else if code a < code b then - 1 else 1)"

interpretation iso: collation iso_collate
proof
  show "iso_collate a b \<le> 0 \<or> iso_collate b a \<le> 0" for a b
    by (induction a b rule: iso_collate.induct) auto
  show "iso_collate a b \<le> 0 \<Longrightarrow> iso_collate b c \<le> 0 \<Longrightarrow> iso_collate a c \<le> 0" for a b c
  proof (induction a b arbitrary: c rule: iso_collate.induct)
    case (4 x xs y ys)
    then show ?case by (cases c) (auto split: if_splits)
  next
    case (2 y ys)
    then show ?case by (cases c) auto
  qed (auto elim: iso_collate.elims)
qed

interpretation ascending: comparator "\<lambda>a b::rat. a - b \<le> 0"
  by unfold_locales auto

subsection \<open>Well-formed histories\<close>

lemma stage_before_rank: "stage_before collate a b \<Longrightarrow> STAGE_RANK (se_stage a) \<le> STAGE_RANK (se_stage b)"
  by (auto simp: stage_before_def Let_def split: if_splits)

lemma highestStage_last:
  assumes "sorted_wrt (stage_before collate) es" and "es \<noteq> []"
  shows "highestStage es = se_stage (last es)"
proof -
  have "foldl (\<lambda>top event. if STAGE_RANK (se_stage top) \<le> STAGE_RANK (se_stage event) then event else top) x xs = last (x # xs)"
    if "sorted_wrt (stage_before collate) (x # xs)" for x xs
    using that
  proof (induction xs arbitrary: x)
    case (Cons y ys)
    then show ?case using stage_before_rank [of collate x y] by auto
  qed simp
  with assms show ?thesis by (cases es) (auto simp: highestStage_def)
qed

definition entry :: "stage_event \<Rightarrow> stage \<times> jsnum option" where
  "entry e = (se_stage e, se_attempts e)"

definition plain_entry :: "stage_event \<Rightarrow> bool" where
  "plain_entry e \<longleftrightarrow> se_attempts e \<noteq> Some NaN"

text \<open>A token whose history is sorted, without repetition, and whose current stage is its highest\<close>

definition token_ok :: "(string \<Rightarrow> string \<Rightarrow> int) \<Rightarrow> token \<Rightarrow> bool" where
  "token_ok collate t \<longleftrightarrow>
     tk_stages t \<noteq> [] \<and> sorted_wrt (stage_before collate) (tk_stages t) \<and> distinct (map entry (tk_stages t))
     \<and> list_all plain_entry (tk_stages t)
     \<and> tk_currentStage t = se_stage (last (tk_stages t)) \<and> tk_terminal t = isTerminal (tk_currentStage t)"

lemma same_entry_eq: "plain_entry e \<Longrightarrow> same_entry x e \<longleftrightarrow> entry x = entry e"
  by (auto simp: same_entry_def entry_def plain_entry_def)

context collation
begin

lemma insertStage_eq:
  assumes "sorted_wrt (stage_before collate) es"
  shows "insertStage collate es e = put_last (stage_before collate) e (filter (\<lambda>x. \<not> same_entry x e) es)"
  using assms by (simp add: insertStage_def history.sort_snoc sorted_wrt_filter)

lemma insertStage_sorted: "sorted_wrt (stage_before collate) (insertStage collate es e)"
  by (simp add: insertStage_def history.sorted_sort)

lemma insertStage_set: "set (insertStage collate es e) = insert e {x \<in> set es. \<not> same_entry x e}"
  by (auto simp: insertStage_def)

lemma insertStage_distinct:
  assumes "sorted_wrt (stage_before collate) es" "distinct (map entry es)" "plain_entry e"
  shows "distinct (map entry (insertStage collate es e))"
proof -
  have "distinct (map entry (put_last before e xs)) \<longleftrightarrow> entry e \<notin> entry ` set xs \<and> distinct (map entry xs)" for before xs
    by (induction xs) auto
  moreover have "distinct (map entry (filter P es))" for P
    using assms(2) by (induction es) auto
  ultimately show ?thesis
    using assms(3) by (auto simp: insertStage_eq [OF assms(1)] same_entry_eq)
qed

lemma insertStage_commute:
  assumes "sorted_wrt (stage_before collate) es" and "\<not> same_entry a b" and "\<not> same_entry b a"
    and "stage_before collate a b" and "\<not> stage_before collate b a"
  shows "insertStage collate (insertStage collate es a) b = insertStage collate (insertStage collate es b) a"
proof -
  let ?put = "put_last (stage_before collate)" and ?no = "\<lambda>e x. \<not> same_entry x e"
  have sorted_no: "sorted_wrt (stage_before collate) (filter (?no e) es)" for e
    using assms(1) by (simp add: sorted_wrt_filter)
  have "insertStage collate (insertStage collate es a) b = ?put b (?put a (filter (?no b) (filter (?no a) es)))"
    using insertStage_sorted [of es a] assms(2)
    by (simp add: insertStage_eq [OF assms(1)] insertStage_eq history.filter_put_last [OF sorted_no])
  also have "\<dots> = ?put a (?put b (filter (?no a) (filter (?no b) es)))"
    using history.put_last_commute [OF assms(4,5)] by (simp add: conj_commute)
  also have "\<dots> = insertStage collate (insertStage collate es b) a"
    using insertStage_sorted [of es b] assms(3)
    by (simp add: insertStage_eq [OF assms(1)] insertStage_eq history.filter_put_last [OF sorted_no])
  finally show ?thesis .
qed

lemma withStage_ok:
  assumes "token_ok collate t" and "plain_entry e"
  shows "token_ok collate (withStage collate t e)"
proof -
  let ?h = "insertStage collate (tk_stages t) e"
  have "?h \<noteq> []" using insertStage_set [of "tk_stages t" e] by force
  moreover have "list_all plain_entry ?h"
    using assms by (auto simp: list_all_iff insertStage_set token_ok_def)
  moreover have "distinct (map entry ?h)"
    using assms by (simp add: insertStage_distinct token_ok_def)
  ultimately show ?thesis
    using insertStage_sorted by (simp add: token_ok_def withStage_def Let_def highestStage_last [OF insertStage_sorted])
qed

text \<open>The current stage never falls back.\<close>

lemma last_rank:
  assumes "sorted_wrt (stage_before collate) es" "x \<in> set es"
  shows "STAGE_RANK (se_stage x) \<le> STAGE_RANK (se_stage (last es))"
  using assms
proof (induction es)
  case (Cons y ys)
  show ?case
  proof (cases "ys = []")
    case False
    with Cons.prems have "stage_before collate y (last ys)" by simp
    with Cons False show ?thesis using stage_before_rank [of collate y "last ys"] by auto
  qed (use Cons.prems in simp)
qed simp

lemma withStage_progress:
  assumes "token_ok collate t"
  shows "STAGE_RANK (tk_currentStage (withStage collate t e)) =
           max (STAGE_RANK (tk_currentStage t)) (STAGE_RANK (se_stage e))"
proof -
  let ?h = "insertStage collate (tk_stages t) e"
  have h: "?h \<noteq> []" "sorted_wrt (stage_before collate) ?h"
    using insertStage_set [of "tk_stages t" e] insertStage_sorted by force+
  have cur: "tk_currentStage (withStage collate t e) = se_stage (last ?h)"
    using h by (simp add: withStage_def Let_def highestStage_last)
  have old: "last (tk_stages t) \<in> set (tk_stages t)" "tk_currentStage t = se_stage (last (tk_stages t))"
    using assms by (simp_all add: token_ok_def)
  have "STAGE_RANK (se_stage e) \<le> STAGE_RANK (se_stage (last ?h))"
    by (rule last_rank [OF h(2)]) (simp add: insertStage_set)
  moreover have "STAGE_RANK (tk_currentStage t) \<le> STAGE_RANK (se_stage (last ?h))"
  proof (cases "same_entry (last (tk_stages t)) e")
    case True
    with calculation show ?thesis by (simp add: old same_entry_def)
  next
    case False
    with old have "last (tk_stages t) \<in> set ?h" by (simp add: insertStage_set)
    from last_rank [OF h(2) this] show ?thesis by (simp add: old)
  qed
  moreover have "last ?h = e \<or> last ?h \<in> set (tk_stages t)"
    using insertStage_set [of "tk_stages t" e] last_in_set [OF h(1)] by auto
  then have "STAGE_RANK (se_stage (last ?h)) \<le> max (STAGE_RANK (tk_currentStage t)) (STAGE_RANK (se_stage e))"
    using last_rank [of "tk_stages t" "last ?h"] assms old by (auto simp: token_ok_def)
  ultimately show ?thesis by (simp add: cur)
qed

end

subsection \<open>Well-formed states\<close>

definition state_ok :: "(string \<Rightarrow> string \<Rightarrow> int) \<Rightarrow> demo_state \<Rightarrow> bool" where
  "state_ok collate s \<longleftrightarrow>
     (\<forall>k t. ds_tokens s k = Some t \<longrightarrow> tk_correlationId t = k \<and> token_ok collate t)
     \<and> set (ds_order s) = dom (ds_tokens s)"

text \<open>What the store dispatches: a token starts as received or injected, attempts are numbers.\<close>

fun action_ok :: "action \<Rightarrow> bool" where
  "action_ok (TriggerStarted a) = (ts_initialStage a \<in> {None, Some SReceived, Some SInjected})"
| "action_ok (EnvelopeArrived e now) = (we_attempts e \<noteq> NaN)"
| "action_ok _ = True"

lemma new_token_ok:
  "ts_initialStage a \<in> {None, Some SReceived, Some SInjected} \<Longrightarrow> token_ok collate (new_token a)"
  by (auto simp: token_ok_def new_token_def Let_def plain_entry_def isTerminal_def TERMINAL_STAGES_def)

lemma token_ok_fields [simp]:
  "token_ok collate (t\<lparr>tk_retryTier := a, tk_retryDeadline := b\<rparr>) = token_ok collate t"
  "token_ok collate (t\<lparr>tk_retryDeadline := b, tk_retryTier := a\<rparr>) = token_ok collate t"
  by (simp_all add: token_ok_def)

lemma withStage_id [simp]: "tk_correlationId (withStage collate t e) = tk_correlationId t"
  by (simp add: withStage_def Let_def)

lemma advanced_id [simp]: "tk_correlationId (advanced collate e now t) = tk_correlationId t"
  by (simp add: advanced_def Let_def)

lemma arrived_simps [simp]:
  "se_stage (arrived e) = we_stage e" "se_ts (arrived e) = we_ts e" "se_attempts (arrived e) = Some (we_attempts e)"
  by (simp_all add: arrived_def)

lemma advanced_core:
  "token_ok collate (advanced collate e now t) = token_ok collate (withStage collate t (arrived e))"
  "tk_currentStage (advanced collate e now t) = tk_currentStage (withStage collate t (arrived e))"
  "tk_stages (advanced collate e now t) = insertStage collate (tk_stages t) (arrived e)"
  by (simp_all add: advanced_def Let_def withStage_def)

lemma answered_id [simp]: "tk_correlationId (answered collate r ts t) = tk_correlationId t"
  by (simp add: answered_def Let_def)

lemma put_token_ok:
  assumes "state_ok collate s" and "token_ok collate t" and "tk_correlationId t \<in> dom (ds_tokens s)"
  shows "state_ok collate (put_token t s)"
  using assms by (auto simp: state_ok_def put_token_def)

lemma state_ok_fields [simp]:
  "state_ok collate (s\<lparr>ds_counters := a\<rparr>) = state_ok collate s"
  "state_ok collate (s\<lparr>ds_latencies := b\<rparr>) = state_ok collate s"
  "state_ok collate (s\<lparr>ds_latencies := b, ds_counters := a\<rparr>) = state_ok collate s"
  by (simp_all add: state_ok_def)

lemma put_token_counters: "put_token t (s\<lparr>ds_counters := c\<rparr>) = (put_token t s)\<lparr>ds_counters := c\<rparr>"
  by (simp add: put_token_def)

lemma initialState_ok: "state_ok collate initialState"
  by (simp add: state_ok_def initialState_def)

lemma lookup_Own: "lookup_token s k = Own t \<longleftrightarrow> ds_tokens s k = Some t"
  by (auto simp: lookup_token_def split: option.splits)

context collation
begin

lemma answered_ok: "token_ok collate t \<Longrightarrow> token_ok collate (answered collate r ts t)"
proof -
  assume t: "token_ok collate t"
  let ?plain = "\<lambda>st u. \<lparr>se_stage = st, se_ts = ts, se_status = u, se_attempts = None\<rparr>"
  have plain: "plain_entry (?plain st u)" for st u by (simp add: plain_entry_def)
  have "token_ok collate (withStage collate (withStage collate t (?plain SSignatureVerified None)) (?plain SPublished None))"
    "token_ok collate (withStage collate t (?plain (tr_apiStage r) (Some (digits (tr_status r)))))"
    by (intro withStage_ok t plain)+
  then show ?thesis by (simp add: answered_def Let_def token_ok_def)
qed

lemma advanced_ok: "token_ok collate t \<Longrightarrow> we_attempts e \<noteq> NaN \<Longrightarrow> token_ok collate (advanced collate e now t)"
  using withStage_ok [of t "arrived e"] by (simp add: advanced_core plain_entry_def)

lemma reducer_ok:
  assumes "state_ok collate s" and "action_ok a" and "reducer collate s a = Inr s'"
  shows "state_ok collate s'"
proof (cases a)
  case (TriggerStarted b)
  let ?t = "new_token b"
  have "token_ok collate ?t" using assms(2) TriggerStarted by (intro new_token_ok) simp
  with assms(1,3) TriggerStarted show ?thesis
    by (auto simp: on_trigger_started_def Let_def state_ok_def put_token_def split: if_splits)
next
  case (HttpResult sc r ts)
  show ?thesis
  proof (cases "lookup_token s (tr_correlationId r)")
    case (Own t)
    then have "token_ok collate t" "tk_correlationId t \<in> dom (ds_tokens s)"
      using assms(1) by (auto simp: lookup_Own state_ok_def)
    from put_token_ok [OF assms(1) answered_ok [OF this(1)]] this(2) Own assms(3) HttpResult
    show ?thesis by (auto simp: on_http_result_def Let_def)
  qed (use assms(1,3) HttpResult in \<open>auto simp: on_http_result_def\<close>)
next
  case (EnvelopeArrived e now)
  show ?thesis
  proof (cases "lookup_token s (we_correlation_id e)")
    case (Own t)
    then have "token_ok collate t" "tk_correlationId t \<in> dom (ds_tokens s)" "we_attempts e \<noteq> NaN"
      using assms(1,2) EnvelopeArrived by (auto simp: lookup_Own state_ok_def)
    from put_token_ok [OF assms(1) advanced_ok [OF this(1,3)], of now] this(2)
    have "state_ok collate (put_token (advanced collate e now t) s)" by simp
    with Own assms(3) EnvelopeArrived show ?thesis
      by (simp add: on_envelope_def Let_def put_token_counters) (drule sym, simp)
  qed (use assms(1,3) EnvelopeArrived in \<open>auto simp: on_envelope_def Let_def\<close>)
next
  case Reset
  with assms(3) initialState_ok show ?thesis by auto
qed

lemma reduce_all_ok:
  "state_ok collate s \<Longrightarrow> list_all action_ok as \<Longrightarrow> reduce_all collate s as = Inr s' \<Longrightarrow> state_ok collate s'"
proof (induction as arbitrary: s)
  case (Cons a as)
  then show ?case using reducer_ok [of s a] by (auto simp: bind_res_Inr)
qed simp

end

subsection \<open>Properties\<close>

text \<open>C31. The dashboard's state stays well formed over any run of actions: every token sits under its own
  correlation id and is listed in the order, its history is never empty, sorted by stage and time,
  without a repeated (stage, attempt) entry, its current stage is the highest of the history, and it is
  terminal exactly when that stage is.\<close>

theorem dashboard_state_invariant:
  assumes "collation collate" and "list_all action_ok as" and "reduce_all collate initialState as = Inr s"
  shows "state_ok collate s"
  using collation.reduce_all_ok [OF assms(1) initialState_ok assms(2,3)] .

definition sample_started :: trigger_started where
  "sample_started =
     \<lparr>ts_correlationId = ''c-1'', ts_eventId = Some ''evt-1'', ts_eventType = ''order.created'', ts_scenario = Happy,
      ts_label = ''Happy path'', ts_ts = ''2026-01-01T00:00:00.000Z'', ts_initialStage = Some SReceived\<rparr>"

definition sample_envelope :: "stage \<Rightarrow> string \<Rightarrow> int \<Rightarrow> web_envelope" where
  "sample_envelope st ts a =
     \<lparr>we_version = Fin 1, we_stage = st, we_correlation_id = ''c-1'', we_event_type = ''order.created'',
      we_status = ''processing'', we_attempts = Fin (of_int a), we_ts = ts\<rparr>"

theorem dashboard_state_invariant_witness:
  "\<exists>s. reduce_all iso_collate initialState
         [TriggerStarted sample_started, EnvelopeArrived (sample_envelope SConsuming ''2026-01-01T00:00:01.000Z'' 0) 0] = Inr s
     \<and> state_ok iso_collate s"
proof -
  obtain s where s: "reduce_all iso_collate initialState
      [TriggerStarted sample_started, EnvelopeArrived (sample_envelope SConsuming ''2026-01-01T00:00:01.000Z'' 0) 0] = Inr s"
    by (simp add: on_trigger_started_def on_envelope_def lookup_token_def put_token_def new_token_def
        sample_started_def sample_envelope_def Let_def)
  have "state_ok iso_collate s"
    by (rule dashboard_state_invariant [OF iso.collation_axioms _ s])
      (simp add: sample_started_def sample_envelope_def)
  with s show ?thesis by blast
qed

text \<open>No message moves a token backwards: whatever envelope or HTTP answer arrives, however late, the rank
  of the current stage becomes the larger of what it was and what arrived (an answer counts as the stage
  of its status), so a token that reached a worker's outcome keeps showing one.\<close>

theorem token_never_regresses:
  assumes "collation collate" and "token_ok collate t"
  shows "STAGE_RANK (tk_currentStage (advanced collate e now t)) = max (STAGE_RANK (tk_currentStage t)) (STAGE_RANK (we_stage e))
         \<and> STAGE_RANK (tk_currentStage (answered collate r ts t))
             = max (STAGE_RANK (tk_currentStage t)) (STAGE_RANK (tr_apiStage r))"
proof -
  note progress = collation.withStage_progress [OF assms(1)]
  note ok = collation.withStage_ok [OF assms(1)]
  let ?plain = "\<lambda>st. \<lparr>se_stage = st, se_ts = ts, se_status = None, se_attempts = None\<rparr>"
  have "token_ok collate (withStage collate t (?plain SSignatureVerified))"
    by (rule ok [OF assms(2)]) (simp add: plain_entry_def)
  from progress [OF this, of "?plain SPublished"] progress [OF assms(2)] show ?thesis
    by (auto simp: advanced_core answered_def Let_def)
qed

theorem token_never_regresses_witness:
  "STAGE_RANK (tk_currentStage (advanced iso_collate (sample_envelope SDead ''2026-01-01T00:00:01.000Z'' 4) 0
     (new_token sample_started))) = 6"
proof -
  have "token_ok iso_collate (new_token sample_started)" by (rule new_token_ok) (simp add: sample_started_def)
  from token_never_regresses [OF iso.collation_axioms this, of "sample_envelope SDead ''2026-01-01T00:00:01.000Z'' 4" 0]
  show ?thesis by (simp add: sample_envelope_def new_token_def sample_started_def Let_def)
qed

lemma js_le_Fin [simp]: "js_le (Fin x) (Fin y) \<longleftrightarrow> x \<le> y"
  by simp

lemma js_max_swap: "js_max (js_max x a) b = js_max (js_max x b) a"
  by (cases x; cases a; cases b) (auto simp: js_max_def)

text \<open>C30. Arrival order does not matter: two envelopes for different (stage, attempt) entries, told apart by rank or
  time, leave the same history, current stage, outcome flag and attempt count whichever arrives first.\<close>

theorem arrival_order_irrelevant:
  assumes "collation collate" and "token_ok collate t" and "we_attempts a \<noteq> NaN" and "we_attempts b \<noteq> NaN"
    and "(we_stage a, we_attempts a) \<noteq> (we_stage b, we_attempts b)"
    and "stage_before collate (arrived a) (arrived b)" and "\<not> stage_before collate (arrived b) (arrived a)"
  shows "withStage collate (withStage collate t (arrived a)) (arrived b)
       = withStage collate (withStage collate t (arrived b)) (arrived a)"
proof -
  have "insertStage collate (insertStage collate (tk_stages t) (arrived a)) (arrived b)
      = insertStage collate (insertStage collate (tk_stages t) (arrived b)) (arrived a)"
    by (rule collation.insertStage_commute [OF assms(1) _ _ _ assms(6,7)])
      (use assms(2,5) in \<open>auto simp: token_ok_def same_entry_def\<close>)
  then show ?thesis
    by (simp add: withStage_def Let_def js_max_swap)
qed

theorem arrival_order_irrelevant_witness:
  "let t = new_token sample_started;
       a = arrived (sample_envelope SConsuming ''2026-01-01T00:00:01.000Z'' 0);
       b = arrived (sample_envelope SProcessed ''2026-01-01T00:00:02.000Z'' 1)
   in withStage iso_collate (withStage iso_collate t b) a = withStage iso_collate (withStage iso_collate t a) b"
proof -
  have "token_ok iso_collate (new_token sample_started)" by (rule new_token_ok) (simp add: sample_started_def)
  from arrival_order_irrelevant [OF iso.collation_axioms this,
      of "sample_envelope SConsuming ''2026-01-01T00:00:01.000Z'' 0" "sample_envelope SProcessed ''2026-01-01T00:00:02.000Z'' 1"]
  show ?thesis by (simp add: sample_envelope_def stage_before_def)
qed

text \<open>The counters count: over a run without a reset, each worker counter grows by the number of envelopes of its
  stage, known token or not, and \<open>rejected\<close> by at most the number of failed answers.\<close>

theorem dashboard_counters_exact:
  assumes "reduce_all collate s as = Inr s'" and "Reset \<notin> set as"
  shows "ct_processed (ds_counters s') = ct_processed (ds_counters s)
           + length (filter (\<lambda>a. \<exists>e now. a = EnvelopeArrived e now \<and> we_stage e = SProcessed) as)
       \<and> ct_duplicate (ds_counters s') = ct_duplicate (ds_counters s)
           + length (filter (\<lambda>a. \<exists>e now. a = EnvelopeArrived e now \<and> we_stage e = SDuplicate) as)
       \<and> ct_retry (ds_counters s') = ct_retry (ds_counters s)
           + length (filter (\<lambda>a. \<exists>e now. a = EnvelopeArrived e now \<and> we_stage e = SRetry) as)
       \<and> ct_dead (ds_counters s') = ct_dead (ds_counters s)
           + length (filter (\<lambda>a. \<exists>e now. a = EnvelopeArrived e now \<and> we_stage e = SDead) as)
       \<and> ct_rejected (ds_counters s') \<le> ct_rejected (ds_counters s)
           + length (filter (\<lambda>a. \<exists>sc r ts. a = HttpResult sc r ts \<and> 400 \<le> tr_status r) as)"
  using assms
proof (induction as arbitrary: s)
  case (Cons a as)
  obtain s1 where s1: "reducer collate s a = Inr s1" "reduce_all collate s1 as = Inr s'"
    using Cons.prems by (auto simp: bind_res_Inr)
  note IH = Cons.IH [OF s1(2)]
  show ?case
  proof (cases a)
    case (TriggerStarted b)
    with s1(1) have "ds_counters s1 = ds_counters s" by (auto simp: on_trigger_started_def put_token_def Let_def)
    with IH Cons.prems(2) TriggerStarted show ?thesis by simp
  next
    case (HttpResult sc r ts)
    with s1(1) have "ct_processed (ds_counters s1) = ct_processed (ds_counters s)"
        "ct_duplicate (ds_counters s1) = ct_duplicate (ds_counters s)"
        "ct_retry (ds_counters s1) = ct_retry (ds_counters s)" "ct_dead (ds_counters s1) = ct_dead (ds_counters s)"
        "ct_rejected (ds_counters s1) \<le> ct_rejected (ds_counters s) + (if 400 \<le> tr_status r then 1 else 0)"
      by (auto simp: on_http_result_def Let_def split: slot.splits if_splits)
    with IH Cons.prems(2) HttpResult show ?thesis by (auto split: if_splits)
  next
    case (EnvelopeArrived e now)
    with s1(1) have "ds_counters s1 = count_stage (we_stage e) (ds_counters s)"
      by (auto simp: on_envelope_def Let_def put_token_def split: slot.splits)
    with IH Cons.prems(2) EnvelopeArrived show ?thesis by (cases "we_stage e") (auto simp: count_stage_def)
  next
    case Reset
    with Cons.prems(2) show ?thesis by simp
  qed
qed simp

theorem dashboard_counters_exact_witness:
  "\<exists>s. reduce_all iso_collate initialState [EnvelopeArrived (sample_envelope SDead ''2026-01-01T00:00:01.000Z'' 4) 0] = Inr s
     \<and> ct_dead (ds_counters s) = 1"
proof -
  let ?e = "EnvelopeArrived (sample_envelope SDead ''2026-01-01T00:00:01.000Z'' 4) 0"
  obtain s where s: "reduce_all iso_collate initialState [?e] = Inr s"
    by (simp add: on_envelope_def lookup_token_def initialState_def sample_envelope_def OBJECT_PROTOTYPE_def)
  from dashboard_counters_exact [OF this] have "ct_dead (ds_counters s) = 1"
    by (simp add: sample_envelope_def initialState_def no_counts_def)
  with s show ?thesis by blast
qed

text \<open>The countdown shown is the wait the broker imposes: for every attempt count the dashboard's tier has the
  time to live of the queue the worker publishes that retry to, so after a retry envelope the token's
  deadline is its arrival plus exactly that wait.\<close>

theorem retry_countdown_matches_broker:
  "map_of RETRY_TTL (retryTier (Fin (of_int a))) = Some (tier_ttlMs (retryTierForAttempt a))
   \<and> tk_retryDeadline (advanced collate (e\<lparr>we_stage := SRetry, we_attempts := Fin (of_int a)\<rparr>) now t)
       = Some (now + tier_ttlMs (retryTierForAttempt a))"
proof -
  consider "a \<le> 1" | "a = 2" | "3 \<le> a" by linarith
  then have "map_of RETRY_TTL (retryTier (Fin (of_int a))) = Some (tier_ttlMs (retryTierForAttempt a))"
    by cases (simp_all add: retryTier_def RETRY_TTL_def retryTierForAttempt_cases RETRY_TIERS_def)
  then show ?thesis by (simp add: advanced_def Let_def)
qed

text \<open>Positions in a sorted list\<close>

lemma sorted_nth_count:
  fixes xs :: "rat list"
  assumes "sorted_wrt (\<lambda>a b. a - b \<le> 0) xs" and "i < length xs"
  shows "i < length (filter (\<lambda>x. x \<le> xs ! i) xs)" and "length (filter (\<lambda>x. x < xs ! i) xs) \<le> i"
proof -
  have le: "xs ! j \<le> xs ! k" if "j \<le> k" "k < length xs" for j k
    using assms(1) that by (cases "j = k") (auto simp: sorted_wrt_iff_nth_less)
  have "{0..i} \<subseteq> {j. j < length xs \<and> xs ! j \<le> xs ! i}" using le assms(2) by auto
  from card_mono [OF _ this] show "i < length (filter (\<lambda>x. x \<le> xs ! i) xs)"
    by (simp add: length_filter_conv_card)
  have "j < i" if "j < length xs" "xs ! j < xs ! i" for j
  proof (rule ccontr)
    assume "\<not> j < i"
    with le [of i j] that show False by simp
  qed
  then have "{j. j < length xs \<and> xs ! j < xs ! i} \<subseteq> {0..<i}" by auto
  from card_mono [OF _ this] show "length (filter (\<lambda>x. x < xs ! i) xs) \<le> i"
    by (simp add: length_filter_conv_card)
qed

lemma length_filter_sort_insert: "length (filter P (sort_insert before x ys)) = length (filter P (x # ys))"
  by (induction ys) auto

lemma length_filter_js_sort: "length (filter P (js_sort before xs)) = length (filter P xs)"
  by (induction xs) (simp_all add: js_sort_def length_filter_sort_insert)

lemma length_js_sort [simp]: "length (js_sort before xs) = length xs"
  using length_filter_js_sort [of "\<lambda>_. True" before xs] by simp

text \<open>The percentile shown is the nearest-rank percentile: for \<open>0 < p \<le> 100\<close> it is one of the measured
  latencies, at least \<open>p\<close> percent of them are no larger, and fewer than \<open>p\<close> percent are smaller; without
  measurements there is none.\<close>

theorem percentile_nearest_rank:
  assumes "0 < p" and "p \<le> 100"
  shows "percentile [] p = None
         \<and> (values = [] \<or>
            (\<exists>v. percentile values p = Some v \<and> v \<in> set values
               \<and> p / 100 * of_nat (length values) \<le> of_nat (length (filter (\<lambda>x. x \<le> v) values))
               \<and> of_nat (length (filter (\<lambda>x. x < v) values)) < p / 100 * of_nat (length values)))"
proof (cases "values = []")
  case False
  let ?s = "js_sort (\<lambda>a b::rat. a - b \<le> 0) values" and ?n = "length values"
  let ?c = "\<lceil>p / 100 * of_nat ?n\<rceil>"
  have n: "0 < ?n" using False by simp
  have sorted: "sorted_wrt (\<lambda>a b. a - b \<le> 0) ?s" by (rule ascending.sorted_sort)
  have pos: "0 < p / 100 * of_nat ?n" using assms(1) n by simp
  have "p / 100 * of_nat ?n \<le> 1 * of_nat ?n" using assms(2) by (intro mult_right_mono) simp_all
  then have c: "1 \<le> ?c" "?c \<le> int ?n" using pos by (simp_all add: ceiling_le_iff)
  define i where "i = nat (?c - 1)"
  have "int i = ?c - 1" using c(1) by (simp add: i_def del: of_nat_nat)
  with c(2) have i: "i < length ?s" "int i = ?c - 1" by (simp_all add: of_nat_less_iff [where ?'a = int, symmetric] del: of_nat_less_iff)
  have "0 \<le> ?c - 1" "?c - 1 \<le> int (length ?s) - 1" using c by simp_all
  then have "min (int (length ?s) - 1) (max 0 (?c - 1)) = ?c - 1"
    by (simp only: max.absorb2 min.absorb2)
  then have v: "percentile values p = Some (?s ! i)"
    using False unfolding percentile_def Let_def i_def by (simp only: length_js_sort of_int_of_nat_eq if_False)
  have "p / 100 * of_nat ?n \<le> of_nat (Suc i)"
  proof -
    have "p / 100 * of_nat ?n \<le> of_int ?c" by (rule le_of_int_ceiling)
    also have "(of_int ?c :: rat) = of_int (int (Suc i))" using i(2) by simp
    finally show ?thesis by simp
  qed
  also have "(of_nat (Suc i) :: rat) \<le> of_nat (length (filter (\<lambda>x. x \<le> ?s ! i) values))"
    using sorted_nth_count(1) [OF sorted i(1)] by (simp only: length_filter_js_sort of_nat_le_iff Suc_le_eq)
  finally have low: "p / 100 * of_nat ?n \<le> of_nat (length (filter (\<lambda>x. x \<le> ?s ! i) values))" .
  have "(of_nat (length (filter (\<lambda>x. x < ?s ! i) values)) :: rat) \<le> of_nat i"
    using sorted_nth_count(2) [OF sorted i(1)] by (simp only: length_filter_js_sort of_nat_le_iff)
  also have "(of_nat i :: rat) = of_int (?c - 1)" using i(2) by (metis of_int_of_nat_eq)
  also have "\<dots> < p / 100 * of_nat ?n" using ceiling_correct [of "p / 100 * of_nat ?n"] by simp
  finally have high: "of_nat (length (filter (\<lambda>x. x < ?s ! i) values)) < p / 100 * of_nat ?n" .
  have "?s ! i \<in> set values" using nth_mem [OF i(1)] by simp
  with v low high show ?thesis by (simp add: percentile_def)
qed (simp add: percentile_def)

theorem percentile_nearest_rank_witness:
  "\<exists>v. percentile [30, 10, 20, 40] 50 = Some v \<and> 2 \<le> length (filter (\<lambda>x. x \<le> v) [30, 10, 20, 40])"
proof -
  obtain v where "percentile [30, 10, 20, 40] 50 = Some v"
    "50 / 100 * of_nat (length [30, 10, 20, 40 :: rat]) \<le> (of_nat (length (filter (\<lambda>x. x \<le> v) [30, 10, 20, 40])) :: rat)"
    using percentile_nearest_rank [of 50 "[30, 10, 20, 40]"] by auto
  then have "(2 :: rat) \<le> of_nat (length (filter (\<lambda>x. x \<le> v) [30, 10, 20, 40]))" by simp
  then have "2 \<le> length (filter (\<lambda>x. x \<le> v) [30, 10, 20, 40])"
    by (metis of_nat_le_iff of_nat_numeral)
  with \<open>percentile _ _ = Some v\<close> show ?thesis by blast
qed

subsection \<open>Two limits of the dashboard\<close>

text \<open>A correlation id that names a member of \<open>Object.prototype\<close> stops the dashboard: the API accepts such an id
  from a caller, the worker's envelope under it passes the dashboard's checks, and the reducer, finding
  an inherited function where it expects a token, throws instead of counting the envelope.\<close>

theorem inherited_id_stops_reducer:
  assumes "si_correlationId input \<in> set OBJECT_PROTOTYPE" and "ds_tokens s (si_correlationId input) = None"
  shows "snd (correlation_use uuid [CORRELATION_HEADER \<mapsto> Single (si_correlationId input)] currentCorrelationId)
           = Some (si_correlationId input)
         \<and> (\<exists>e. socket_deliver (Some (envelope ts input)) = OnEnvelope e
              \<and> reducer collate s (EnvelopeArrived e now) = Inl no_stages)"
proof -
  have "list_all valid_correlation_id OBJECT_PROTOTYPE" by code_simp
  with assms(1) have "valid_correlation_id (si_correlationId input)" by (simp add: list_all_iff)
  with assms show ?thesis
    by (simp add: envelope_dispatched correlation_use_def runWithCorrelationId_def currentCorrelationId_def Let_def
        on_envelope_def lookup_token_def)
qed

theorem inherited_id_stops_reducer_witness:
  "\<exists>e. socket_deliver (Some (envelope ''2026-01-01T00:00:00.000Z''
           \<lparr>si_stage = StConsuming, si_correlationId = ''constructor'', si_eventId = None, si_eventType = ''t'',
            si_status = ''received'', si_attempts = 0\<rparr>)) = OnEnvelope e
     \<and> reducer iso_collate initialState (EnvelopeArrived e 0) = Inl no_stages"
  using inherited_id_stops_reducer [of "\<lparr>si_stage = StConsuming, si_correlationId = ''constructor'', si_eventId = None,
      si_eventType = ''t'', si_status = ''received'', si_attempts = 0\<rparr>" initialState "''u-1''" "''2026-01-01T00:00:00.000Z''" iso_collate 0]
  by (simp add: OBJECT_PROTOTYPE_def initialState_def)

text \<open>The consuming entries of a token, when the worker's envelopes are the only ones\<close>

lemma consuming_replaced:
  assumes "\<forall>e \<in> set es. se_stage e = SConsuming \<longrightarrow> se_attempts e = Some (Fin 0)"
    and "se_stage c = SConsuming" and "se_attempts c = Some (Fin 0)"
  shows "{e \<in> set (insertStage collate es c). se_stage e = SConsuming} = {c}"
  using assms by (auto simp: insertStage_def same_entry_def)

lemma filter_singleton:
  assumes "{x \<in> set xs. P x} = {c}" and "distinct xs"
  shows "filter P xs = [c]"
proof -
  have "set (filter P xs) = {c}" "distinct (filter P xs)" using assms by auto
  then show ?thesis by (cases "filter P xs"; cases "tl (filter P xs)") auto
qed

lemma insertStage_other:
  "se_stage p \<noteq> st \<Longrightarrow>
     {e \<in> set (insertStage collate es p). se_stage e = st} = {e \<in> set es. se_stage e = st}"
  by (auto simp: insertStage_def same_entry_def)

lemma insertStage_first:
  "\<forall>e \<in> set es. se_stage e \<noteq> se_stage p \<Longrightarrow>
     {e \<in> set (insertStage collate es p). se_stage e = se_stage p} = {p}"
  by (auto simp: insertStage_def)

text \<open>The processing time shown leaves out the earlier deliveries: the worker announces every delivery with no
  attempts, so each \<open>consuming\<close> envelope replaces the one before, and the duration of an event processed
  after retries runs from its last delivery, without the waits of the retry queues.\<close>

theorem processing_time_is_last_delivery:
  assumes "collation collate" and "token_ok collate t"
    and "\<forall>e \<in> set (tk_stages t). se_stage e = SConsuming \<longrightarrow> se_attempts e = Some (Fin 0)"
    and "\<forall>e \<in> set (tk_stages t). se_stage e \<notin> set WORKER_TERMINALS"
    and "we_stage c = SConsuming" and "we_attempts c = Fin 0" and "we_stage p = SProcessed" and "we_attempts p \<noteq> NaN"
    and "date_parse (we_ts c) = Some x" and "date_parse (we_ts p) = Some y"
  shows "processingMs date_parse (advanced collate p now2 (advanced collate c now1 t)) = Some (max 0 (y - x))
         \<and> (\<forall>i \<in> set (stages (fst (snd (order_handle w m s)))). si_stage i = StConsuming \<longrightarrow> si_attempts i = 0)"
proof -
  let ?t1 = "advanced collate c now1 t"
  let ?t2 = "advanced collate p now2 ?t1"
  note collation = assms(1)
  have ok1: "token_ok collate ?t1"
    by (rule collation.advanced_ok [OF collation assms(2)]) (simp add: assms(6))
  have ok2: "token_ok collate ?t2"
    by (rule collation.advanced_ok [OF collation ok1]) (simp add: assms(8))
  then have distinct: "distinct (tk_stages ?t2)" by (auto simp: token_ok_def distinct_map)
  have "{e \<in> set (tk_stages ?t1). se_stage e = SConsuming} = {arrived c}"
    unfolding advanced_core by (rule consuming_replaced) (use assms(3,5,6) in auto)
  moreover have "{e \<in> set (tk_stages ?t2). se_stage e = SConsuming} = {e \<in> set (tk_stages ?t1). se_stage e = SConsuming}"
    unfolding advanced_core(3) [of collate p] by (rule insertStage_other) (simp add: assms(7))
  ultimately have "{e \<in> set (tk_stages ?t2). se_stage e = SConsuming} = {arrived c}" by simp
  from filter_singleton [OF this distinct]
  have start: "stage_min date_parse ?t2 SConsuming = Some x"
    by (simp add: stage_min_def stage_times_def List.map_filter_def assms(9))
  have "\<forall>e \<in> set (tk_stages ?t1). se_stage e \<noteq> SProcessed"
    using assms(4,5) by (auto simp: advanced_core insertStage_def WORKER_TERMINALS_def)
  then have only: "{e \<in> set (tk_stages ?t2). se_stage e = SProcessed} = {arrived p}"
    using insertStage_first [of "tk_stages ?t1" "arrived p" collate] by (simp add: advanced_core(3) [of collate p] assms(7))
  from filter_singleton [OF only distinct]
  have finish: "stage_max date_parse ?t2 SProcessed = Some y"
    by (simp add: stage_max_def stage_times_def List.map_filter_def assms(10))
  have "list_ex (\<lambda>e. se_stage e = SProcessed) (tk_stages ?t2)"
    using only unfolding list_ex_iff by blast
  with start finish have "processingMs date_parse ?t2 = Some (max 0 (y - x))"
    by (simp add: processingMs_def WORKER_TERMINALS_def)
  then show ?thesis using consuming_reports_zero by blast
qed

theorem processing_time_is_last_delivery_witness:
  "processingMs (\<lambda>ts. if ts = ''t1'' then Some 1000 else if ts = ''t2'' then Some 36000 else if ts = ''t3'' then Some 36500 else None)
     (advanced iso_collate (sample_envelope SProcessed ''t3'' 3) 0
       (advanced iso_collate (sample_envelope SConsuming ''t2'' 0) 0
         (advanced iso_collate (sample_envelope SConsuming ''t1'' 0) 0 (new_token sample_started)))) = Some 500"
proof -
  let ?fresh = "new_token sample_started"
  let ?t = "advanced iso_collate (sample_envelope SConsuming ''t1'' 0) 0 ?fresh"
  have "token_ok iso_collate ?fresh" by (rule new_token_ok) (simp add: sample_started_def)
  from iso.advanced_ok [OF this, of "sample_envelope SConsuming ''t1'' 0" 0]
  have ok: "token_ok iso_collate ?t" by (simp add: sample_envelope_def)
  have "set (tk_stages ?t) \<subseteq> insert (arrived (sample_envelope SConsuming ''t1'' 0)) (set (tk_stages ?fresh))"
    by (auto simp: advanced_core iso.insertStage_set)
  then have "\<forall>e \<in> set (tk_stages ?t). se_stage e = SConsuming \<longrightarrow> se_attempts e = Some (Fin 0)"
    "\<forall>e \<in> set (tk_stages ?t). se_stage e \<notin> set WORKER_TERMINALS"
    by (auto simp: new_token_def sample_started_def sample_envelope_def WORKER_TERMINALS_def)
  from processing_time_is_last_delivery [OF iso.collation_axioms ok this, of "sample_envelope SConsuming ''t2'' 0"
      "sample_envelope SProcessed ''t3'' 3"
      "\<lambda>ts. if ts = ''t1'' then Some 1000 else if ts = ''t2'' then Some 36000 else if ts = ''t3'' then Some 36500 else None"
      36000 36500 0 0]
  show ?thesis by (simp add: sample_envelope_def)
qed

end
