(* ===== verification/WebStore.thy ===== *)
theory WebStore
  imports WebState
begin

text \<open>
  The dashboard's store, \<open>src/web/src/state/useDemoStore.ts\<close>, and what \<open>App.tsx\<close> derives from it. The
  hook's mutable state is the record \<open>store\<close>: the reducer's state, the refs (the waiters, the
  generation), and what lives in the runtime: the pending timers, the resolved promises and the calls of
  \<open>runScenario\<close> that have not returned, each at one of its \<open>await\<close> points. One \<open>store_event\<close> is one turn
  of the event loop; an event that cannot happen has no successor.
\<close>

subsection \<open>State\<close>

datatype phase =
    Requesting "nat option"
  | AwaitingSettle nat
  | InFlight "nat list"
  | Finished

record run =
  rn_scenario :: scenario_def
  rn_specs :: "trigger_spec list"
  rn_generation :: nat
  rn_index :: nat
  rn_phase :: phase

record store =
  so_state :: "demo_state result"
  so_connection :: connection_state
  so_unknownVersions :: nat
  so_waiters :: "string \<rightharpoonup> nat"
  so_timers :: "nat \<rightharpoonup> string"
  so_resolved :: "nat set"
  so_promises :: nat
  so_generation :: nat
  so_runs :: "run list"

definition SETTLE_TIMEOUT_MS :: int where "SETTLE_TIMEOUT_MS = 15000"

definition initial_store :: store where
  "initial_store =
     \<lparr>so_state = Inr initialState, so_connection = Connecting, so_unknownVersions = 0, so_waiters = Map.empty,
      so_timers = Map.empty, so_resolved = {}, so_promises = 0, so_generation = 0, so_runs = []\<rparr>"

definition dispatch :: "(string \<Rightarrow> string \<Rightarrow> int) \<Rightarrow> action \<Rightarrow> store \<Rightarrow> store" where
  "dispatch collate a s = s\<lparr>so_state := bind_res (so_state s) (\<lambda>d. reducer collate d a)\<rparr>"

subsection \<open>Waiting for a token to settle\<close>

text \<open>The closure in the map clears its own timer and resolves its own promise.\<close>

definition resolve_waiter :: "nat \<Rightarrow> store \<Rightarrow> store" where
  "resolve_waiter p s = s\<lparr>so_timers := (so_timers s)(p := None), so_resolved := insert p (so_resolved s)\<rparr>"

definition notifySettled :: "string \<Rightarrow> store \<Rightarrow> store" where
  "notifySettled correlationId s =
     (case so_waiters s correlationId of
        None \<Rightarrow> s
      | Some p \<Rightarrow> resolve_waiter p (s\<lparr>so_waiters := (so_waiters s)(correlationId := None)\<rparr>))"

definition waitForSettle :: "string \<Rightarrow> store \<Rightarrow> nat \<times> store" where
  "waitForSettle correlationId s =
     (let p = so_promises s
      in (p, s\<lparr>so_promises := p + 1, so_timers := (so_timers s)(p \<mapsto> correlationId),
              so_waiters := (so_waiters s)(correlationId \<mapsto> p)\<rparr>))"

text \<open>The timeout deletes whatever waits under its id, then resolves its own promise.\<close>

definition settle_timeout :: "nat \<Rightarrow> string \<Rightarrow> store \<Rightarrow> store" where
  "settle_timeout p correlationId s =
     resolve_waiter p (s\<lparr>so_waiters := (so_waiters s)(correlationId := None)\<rparr>)"

definition reset_store :: "(string \<Rightarrow> string \<Rightarrow> int) \<Rightarrow> store \<Rightarrow> store" where
  "reset_store collate s =
     dispatch collate Reset
       (s\<lparr>so_generation := so_generation s + 1,
          so_timers := (so_timers s) |` (- ran (so_waiters s)),
          so_resolved := so_resolved s \<union> ran (so_waiters s),
          so_waiters := Map.empty\<rparr>)"

subsection \<open>Firing a spec\<close>

definition started_by :: "scenario_def \<Rightarrow> trigger_spec \<Rightarrow> string \<Rightarrow> trigger_started" where
  "started_by scenario spec ts =
     \<lparr>ts_correlationId = tg_correlationId spec, ts_eventId = tg_eventId spec, ts_eventType = tg_eventType spec,
      ts_scenario = sd_id scenario, ts_label = tg_label spec, ts_ts = ts,
      ts_initialStage = Some (if sd_inject scenario then SInjected else SReceived)\<rparr>"

definition network_error :: "trigger_spec \<Rightarrow> trigger_result" where
  "network_error spec =
     \<lparr>tr_correlationId = tg_correlationId spec, tr_eventId = tg_eventId spec, tr_eventType = tg_eventType spec,
      tr_status = 0, tr_ok = False, tr_bodyText = [],
      tr_body = JObj [(''error'', JStr ''network error. Is the backend up?'')], tr_latencyMs = 0,
      tr_signed = unsigned, tr_apiStage = SUnavailable, tr_respondedCorrelationId = None\<rparr>"

text \<open>What the request of a spec meets: the network and the clocks around it.\<close>

record outside =
  ou_fetch :: fetch
  ou_now :: int
  ou_started :: rat
  ou_finished :: rat

definition request_result :: "web_config \<Rightarrow> outside \<Rightarrow> scenario_def \<Rightarrow> trigger_spec \<Rightarrow> trigger_result result" where
  "request_result cfg w scenario spec =
     (if sd_inject scenario then injectPoison cfg (ou_fetch w) (ou_started w) (ou_finished w) spec
      else trigger cfg (ou_fetch w) (ou_now w) (ou_started w) (ou_finished w) spec)"

definition fire_begin :: "(string \<Rightarrow> string \<Rightarrow> int) \<Rightarrow> scenario_def \<Rightarrow> string \<Rightarrow> trigger_spec \<Rightarrow> store \<Rightarrow> store" where
  "fire_begin collate scenario ts spec = dispatch collate (TriggerStarted (started_by scenario spec ts))"

definition fire_end ::
  "(string \<Rightarrow> string \<Rightarrow> int) \<Rightarrow> web_config \<Rightarrow> outside \<Rightarrow> scenario_def \<Rightarrow> string \<Rightarrow> trigger_spec \<Rightarrow> store \<Rightarrow> store"
where
  "fire_end collate cfg w scenario ts spec =
     dispatch collate (HttpResult (sd_id scenario)
       (case request_result cfg w scenario spec of Inr result \<Rightarrow> result | Inl e \<Rightarrow> network_error spec) ts)"

subsection \<open>Running a scenario\<close>

text \<open>The head of the loop at index \<open>i\<close>, up to the \<open>await\<close> of the request\<close>

definition iterate :: "(string \<Rightarrow> string \<Rightarrow> int) \<Rightarrow> string \<Rightarrow> run \<Rightarrow> nat \<Rightarrow> store \<Rightarrow> run \<times> store" where
  "iterate collate ts r i s =
     (if length (rn_specs r) \<le> i then (r\<lparr>rn_phase := Finished\<rparr>, s)
      else
        let spec = rn_specs r ! i;
            (waiter, s1) = (if i < length (rn_specs r) - 1
                             then map_prod Some (\<lambda>x. x) (waitForSettle (tg_correlationId spec) s) else (None, s))
        in (r\<lparr>rn_index := i, rn_phase := Requesting waiter\<rparr>,
            fire_begin collate (rn_scenario r) ts spec s1))"

text \<open>The rest of the loop's body: a reset since the start ends the run.\<close>

definition next_iteration :: "(string \<Rightarrow> string \<Rightarrow> int) \<Rightarrow> string \<Rightarrow> run \<Rightarrow> store \<Rightarrow> run \<times> store" where
  "next_iteration collate ts r s =
     (if so_generation s \<noteq> rn_generation r then (r\<lparr>rn_phase := Finished\<rparr>, s)
      else iterate collate ts r (rn_index r + 1) s)"

text \<open>A call of \<open>runScenario\<close> up to its first \<open>await\<close>: one request, or all of them at once\<close>

definition called :: "(string \<Rightarrow> string \<Rightarrow> int) \<Rightarrow> string \<Rightarrow> scenario_def \<Rightarrow> trigger_spec list \<Rightarrow> store \<Rightarrow> run \<times> store" where
  "called collate ts scenario specs s =
     (let r0 = \<lparr>rn_scenario = scenario, rn_specs = specs, rn_generation = so_generation s, rn_index = 0,
               rn_phase = (if specs = [] then Finished else InFlight [0..<length specs])\<rparr>
      in if sd_sequential scenario then iterate collate ts r0 0 s
         else (r0, fold (fire_begin collate scenario ts) specs s))"

definition runScenario ::
  "(string \<Rightarrow> string \<Rightarrow> int) \<Rightarrow> scenario_id \<Rightarrow> (nat \<Rightarrow> string) \<Rightarrow> int \<Rightarrow> string \<Rightarrow> store \<Rightarrow> store"
where
  "runScenario collate i ids now ts s =
     (case find_scenario i of
        None \<Rightarrow> s
      | Some scenario \<Rightarrow>
          let (r, s1) = called collate ts scenario (sd_build scenario ids now) s
          in s1\<lparr>so_runs := so_runs s1 @ [r]\<rparr>)"

definition put_run :: "nat \<Rightarrow> run \<times> store \<Rightarrow> store" where
  "put_run k rs = (snd rs)\<lparr>so_runs := (so_runs (snd rs))[k := fst rs]\<rparr>"

text \<open>The request of spec \<open>i\<close> is over, in each of the two ways to run\<close>

fun request_done ::
  "(string \<Rightarrow> string \<Rightarrow> int) \<Rightarrow> string \<Rightarrow> run \<Rightarrow> nat \<Rightarrow> store \<Rightarrow> (run \<times> store) option"
where
  "request_done collate ts r i s =
     (case rn_phase r of
        Requesting waiter \<Rightarrow>
          (if i \<noteq> rn_index r then None
           else case waiter of
               Some p \<Rightarrow> Some (r\<lparr>rn_phase := AwaitingSettle p\<rparr>, s)
             | None \<Rightarrow> Some (next_iteration collate ts r s))
      | InFlight pending \<Rightarrow>
          (if i \<notin> set pending then None
           else let rest = filter (\<lambda>j. j \<noteq> i) pending
                in Some (r\<lparr>rn_phase := (if rest = [] then Finished else InFlight rest)\<rparr>, s))
      | _ \<Rightarrow> None)"

subsection \<open>Events\<close>

datatype store_event =
    RunScenario scenario_id "nat \<Rightarrow> string" int string
  | RequestDone nat nat outside string
  | SettleResumes nat string
  | Settled string
  | TimerElapsed nat string
  | ResetClicked
  | Socket socket_event int

fun socket_effect :: "(string \<Rightarrow> string \<Rightarrow> int) \<Rightarrow> socket_event \<Rightarrow> int \<Rightarrow> store \<Rightarrow> store" where
  "socket_effect collate ev now s =
     (case socket_handle ev of (call, connection) \<Rightarrow>
        let s1 = (case connection of Some c \<Rightarrow> s\<lparr>so_connection := c\<rparr> | None \<Rightarrow> s)
        in case call of
            Some (OnEnvelope e) \<Rightarrow> dispatch collate (EnvelopeArrived e now) s1
          | Some (OnUnknownVersion raw) \<Rightarrow> s1\<lparr>so_unknownVersions := so_unknownVersions s1 + 1\<rparr>
          | _ \<Rightarrow> s1)"

fun store_step ::
  "(string \<Rightarrow> string \<Rightarrow> int) \<Rightarrow> web_config \<Rightarrow> store_event \<Rightarrow> store \<Rightarrow> store option"
where
  "store_step collate cfg (RunScenario i ids now ts) s = Some (runScenario collate i ids now ts s)"
| "store_step collate cfg (RequestDone k i w ts) s =
     (if length (so_runs s) \<le> k then None
      else let r = so_runs s ! k in
        if length (rn_specs r) \<le> i then None
        else map_option (put_run k)
               (request_done collate ts r i (fire_end collate cfg w (rn_scenario r) ts (rn_specs r ! i) s)))"
| "store_step collate cfg (SettleResumes k ts) s =
     (if length (so_runs s) \<le> k then None
      else let r = so_runs s ! k in
        case rn_phase r of
          AwaitingSettle p \<Rightarrow> if p \<in> so_resolved s then Some (put_run k (next_iteration collate ts r s)) else None
        | _ \<Rightarrow> None)"
| "store_step collate cfg (Settled c) s = Some (notifySettled c s)"
| "store_step collate cfg (TimerElapsed p c) s =
     (if so_timers s p = Some c then Some (settle_timeout p c s) else None)"
| "store_step collate cfg ResetClicked s = Some (reset_store collate s)"
| "store_step collate cfg (Socket ev now) s = Some (socket_effect collate ev now s)"

inductive store_run ::
  "(string \<Rightarrow> string \<Rightarrow> int) \<Rightarrow> web_config \<Rightarrow> store \<Rightarrow> store_event list \<Rightarrow> store \<Rightarrow> bool"
  for collate cfg s0
where
  idle: "store_run collate cfg s0 [] s0"
| turn: "store_run collate cfg s0 es s \<Longrightarrow> store_step collate cfg e s = Some s' \<Longrightarrow> store_run collate cfg s0 (es @ [e]) s'"

subsection \<open>Frames\<close>

lemma dispatch_fields [simp]:
  "so_connection (dispatch collate a s) = so_connection s"
  "so_unknownVersions (dispatch collate a s) = so_unknownVersions s"
  "so_waiters (dispatch collate a s) = so_waiters s" "so_timers (dispatch collate a s) = so_timers s"
  "so_resolved (dispatch collate a s) = so_resolved s" "so_promises (dispatch collate a s) = so_promises s"
  "so_generation (dispatch collate a s) = so_generation s" "so_runs (dispatch collate a s) = so_runs s"
  "so_state (dispatch collate a s) = bind_res (so_state s) (\<lambda>d. reducer collate d a)"
  by (simp_all add: dispatch_def)

text \<open>The part of the store the waiters live in, which dispatching leaves alone\<close>

definition waiting :: "store \<Rightarrow> (string \<rightharpoonup> nat) \<times> (nat \<rightharpoonup> string) \<times> nat set \<times> nat \<times> nat" where
  "waiting s = (so_waiters s, so_timers s, so_resolved s, so_promises s, so_generation s)"

lemma waiting_dispatch [simp]:
  "waiting (dispatch collate a s) = waiting s"
  "waiting (fire_begin collate scenario ts spec s) = waiting s"
  "waiting (fire_end collate cfg w scenario ts spec s) = waiting s"
  by (simp_all add: waiting_def fire_begin_def fire_end_def)

lemma waiting_fold [simp]: "waiting (fold (fire_begin collate scenario ts) specs s) = waiting s"
  by (induction specs arbitrary: s) simp_all

lemma runs_fire [simp]:
  "so_runs (fire_begin collate scenario ts spec s) = so_runs s"
  "so_runs (fire_end collate cfg w scenario ts spec s) = so_runs s"
  by (simp_all add: fire_begin_def fire_end_def)

lemma runs_fold [simp]: "so_runs (fold (fire_begin collate scenario ts) specs s) = so_runs s"
  by (induction specs arbitrary: s) simp_all

lemma waiting_runs [simp]: "waiting (s\<lparr>so_runs := rs\<rparr>) = waiting s"
  by (simp add: waiting_def)

lemma waiting_socket [simp]:
  "waiting (socket_effect collate ev now s) = waiting s"
  "so_runs (socket_effect collate ev now s) = so_runs s"
  by (cases ev; simp add: waiting_def split: socket_call.split)+

lemma runs_waits [simp]:
  "so_runs (notifySettled c s) = so_runs s" "so_runs (settle_timeout p c s) = so_runs s"
  "so_runs (reset_store collate s) = so_runs s" "so_runs (snd (waitForSettle c s)) = so_runs s"
  by (simp_all add: notifySettled_def settle_timeout_def reset_store_def waitForSettle_def resolve_waiter_def Let_def
      split: option.split)

subsection \<open>Promises\<close>

text \<open>A promise made for an id is pending with its timer set, or resolved with its timer gone.\<close>

definition tracked :: "store \<Rightarrow> nat \<Rightarrow> string \<Rightarrow> bool" where
  "tracked s p c \<longleftrightarrow> p < so_promises s \<and> (so_timers s p = Some c \<or> so_timers s p = None \<and> p \<in> so_resolved s)"

definition waiters_ok :: "store \<Rightarrow> bool" where
  "waiters_ok s \<longleftrightarrow>
     (\<forall>c p. so_waiters s c = Some p \<longrightarrow> so_timers s p = Some c)
     \<and> (\<forall>p c. so_timers s p = Some c \<longrightarrow> p < so_promises s) \<and> so_resolved s \<subseteq> {..<so_promises s}"

definition evolves :: "store \<Rightarrow> store \<Rightarrow> bool" where
  "evolves s s' \<longleftrightarrow> so_generation s \<le> so_generation s' \<and> (\<forall>p c. tracked s p c \<longrightarrow> tracked s' p c)"

lemma same_waiting:
  assumes "waiting s' = waiting s"
  shows "tracked s' = tracked s" and "waiters_ok s' = waiters_ok s" and "so_generation s' = so_generation s"
    and "so_resolved s' = so_resolved s" and "so_timers s' = so_timers s" and "so_waiters s' = so_waiters s"
    and "so_promises s' = so_promises s"
  using assms by (simp_all add: waiting_def tracked_def [abs_def] waiters_ok_def)

lemma evolves_same: "waiting s' = waiting s \<Longrightarrow> evolves s s'"
  using same_waiting [of s' s] by (simp add: evolves_def)

lemma resolved_wait: "so_resolved (snd (waitForSettle c s)) = so_resolved s"
  by (simp add: waitForSettle_def Let_def)

lemma notify_evolves:
  assumes "waiters_ok s"
  shows "waiters_ok (notifySettled c s) \<and> evolves s (notifySettled c s)"
proof (cases "so_waiters s c")
  case (Some p)
  with assms have timer: "so_timers s p = Some c" by (simp add: waiters_ok_def)
  have "p < so_promises s" using assms timer by (auto simp: waiters_ok_def)
  moreover have "so_waiters s c' \<noteq> Some p" if "c' \<noteq> c" for c'
    using assms timer that by (auto simp: waiters_ok_def)
  ultimately show ?thesis using assms Some timer
    by (auto simp: notifySettled_def resolve_waiter_def waiters_ok_def evolves_def tracked_def)
qed (use assms in \<open>auto simp: notifySettled_def evolves_def\<close>)

lemma timeout_evolves:
  assumes "waiters_ok s" and "so_timers s p = Some c"
  shows "waiters_ok (settle_timeout p c s) \<and> evolves s (settle_timeout p c s)"
proof -
  have "p < so_promises s" using assms by (auto simp: waiters_ok_def)
  moreover have "so_waiters s c' \<noteq> Some p" if "c' \<noteq> c" for c'
    using assms that by (auto simp: waiters_ok_def)
  ultimately show ?thesis using assms
    by (auto simp: settle_timeout_def resolve_waiter_def waiters_ok_def evolves_def tracked_def)
qed

lemma reset_evolves:
  assumes "waiters_ok s"
  shows "waiters_ok (reset_store collate s) \<and> evolves s (reset_store collate s)"
proof -
  have "p < so_promises s" if "p \<in> ran (so_waiters s)" for p
    using assms that by (auto simp: waiters_ok_def ran_def)
  with assms show ?thesis
    by (auto simp: reset_store_def waiters_ok_def evolves_def tracked_def restrict_map_def split: if_splits)
qed

lemma wait_evolves:
  assumes "waiters_ok s"
  shows "waiters_ok (snd (waitForSettle c s)) \<and> evolves s (snd (waitForSettle c s))
       \<and> tracked (snd (waitForSettle c s)) (fst (waitForSettle c s)) c"
  using assms by (fastforce simp: waitForSettle_def Let_def waiters_ok_def evolves_def tracked_def split: if_splits)


subsection \<open>Runs\<close>

text \<open>
  A sequential call awaits the answer for spec \<open>rn_index\<close> or, after it, the promise made for that spec;
  the last spec has none. The others await some of their answers.
\<close>

definition run_ok :: "store \<Rightarrow> run \<Rightarrow> bool" where
  "run_ok s r \<longleftrightarrow> rn_generation r \<le> so_generation s \<and>
     (if sd_sequential (rn_scenario r) then
        (case rn_phase r of
           Requesting (Some p) \<Rightarrow>
             rn_index r + 1 < length (rn_specs r) \<and> tracked s p (tg_correlationId (rn_specs r ! rn_index r))
         | Requesting None \<Rightarrow> rn_index r + 1 = length (rn_specs r)
         | AwaitingSettle p \<Rightarrow>
             rn_index r + 1 < length (rn_specs r) \<and> tracked s p (tg_correlationId (rn_specs r ! rn_index r))
         | InFlight pending \<Rightarrow> False
         | Finished \<Rightarrow> True)
      else
        (case rn_phase r of
           InFlight pending \<Rightarrow> pending \<noteq> [] \<and> (\<forall>i \<in> set pending. i < length (rn_specs r))
         | Finished \<Rightarrow> True
         | _ \<Rightarrow> False))"

definition store_ok :: "store \<Rightarrow> bool" where
  "store_ok s \<longleftrightarrow> waiters_ok s \<and> (\<forall>r \<in> set (so_runs s). run_ok s r)"

lemma run_ok_evolves: "evolves s s' \<Longrightarrow> run_ok s r \<Longrightarrow> run_ok s' r"
  by (auto simp: evolves_def run_ok_def split: phase.splits option.splits if_splits)

lemma run_ok_phase: "run_ok s r \<Longrightarrow> run_ok s (r\<lparr>rn_phase := Finished\<rparr>)"
  by (simp add: run_ok_def split: if_splits)

lemma iterate_ok:
  assumes "waiters_ok s" and "rn_generation r \<le> so_generation s" and "sd_sequential (rn_scenario r)"
    and "iterate collate ts r i s = (r', s')"
  shows "waiters_ok s' \<and> evolves s s' \<and> run_ok s' r' \<and> so_runs s' = so_runs s \<and> so_resolved s' = so_resolved s
       \<and> (\<forall>p. rn_phase r' = Requesting (Some p) \<longrightarrow> p \<notin> so_resolved s')"
proof (cases "length (rn_specs r) \<le> i")
  case True
  with assms show ?thesis by (auto simp: iterate_def run_ok_def evolves_def)
next
  case False
  let ?c = "tg_correlationId (rn_specs r ! i)"
  obtain p s1 where wait: "waitForSettle ?c s = (p, s1)" by fastforce
  have w: "waiters_ok s1 \<and> evolves s s1 \<and> tracked s1 p ?c" "so_runs s1 = so_runs s"
    "so_resolved s1 = so_resolved s"
    using wait_evolves [OF assms(1), of ?c] runs_waits(4) [of ?c s] resolved_wait [of ?c s] wait by simp_all
  have fresh: "p \<notin> so_resolved s" using wait assms(1) by (auto simp: waitForSettle_def Let_def waiters_ok_def)
  have same: "waiting (fire_begin collate (rn_scenario r) ts (rn_specs r ! i) x) = waiting x" for x by simp
  note [simp] = same_waiting [OF same]
  have ev: "evolves x y \<Longrightarrow> evolves x (fire_begin collate (rn_scenario r) ts (rn_specs r ! i) y)" for x y
    by (simp add: evolves_def)
  show ?thesis
  proof (cases "i < length (rn_specs r) - 1")
    case True
    with assms(4) False wait
    have "r' = r\<lparr>rn_index := i, rn_phase := Requesting (Some p)\<rparr>"
      "s' = fire_begin collate (rn_scenario r) ts (rn_specs r ! i) s1"
      by (auto simp: iterate_def)
    with w fresh assms(2,3) True ev [of s s1] show ?thesis by (auto simp: run_ok_def evolves_def)
  next
    case last: False
    with assms(4) False
    have "r' = r\<lparr>rn_index := i, rn_phase := Requesting None\<rparr>"
      "s' = fire_begin collate (rn_scenario r) ts (rn_specs r ! i) s"
      by (auto simp: iterate_def)
    with assms last False ev [of s s] show ?thesis by (auto simp: run_ok_def evolves_def)
  qed
qed

lemma next_iteration_ok:
  assumes "waiters_ok s" and "run_ok s r" and "sd_sequential (rn_scenario r)"
    and "next_iteration collate ts r s = (r', s')"
  shows "waiters_ok s' \<and> evolves s s' \<and> run_ok s' r' \<and> so_runs s' = so_runs s \<and> so_resolved s' = so_resolved s
       \<and> (\<forall>p. rn_phase r' = Requesting (Some p) \<longrightarrow> p \<notin> so_resolved s')"
  using assms iterate_ok [OF assms(1) _ assms(3), of collate ts "rn_index r + 1" r' s']
  by (auto simp: next_iteration_def run_ok_phase evolves_def run_ok_def split: if_splits)

lemma iterate_fields:
  "rn_scenario (fst (iterate collate ts r i s)) = rn_scenario r"
  "rn_specs (fst (iterate collate ts r i s)) = rn_specs r"
  "rn_generation (fst (iterate collate ts r i s)) = rn_generation r"
  "rn_index (fst (iterate collate ts r i s)) \<in> {rn_index r, i}"
  by (auto simp: iterate_def Let_def split: prod.split)

definition advances :: "run \<Rightarrow> run \<Rightarrow> bool" where
  "advances r r' \<longleftrightarrow>
     rn_scenario r' = rn_scenario r \<and> rn_specs r' = rn_specs r \<and> rn_generation r' = rn_generation r
     \<and> rn_index r \<le> rn_index r'"

lemma advances_refl [simp]: "advances r r"
  by (simp add: advances_def)

lemma next_iteration_advances:
  "next_iteration collate ts r s = (r', s') \<Longrightarrow> advances r r'"
  using iterate_fields [of collate ts r "rn_index r + 1" s]
  by (auto simp: next_iteration_def advances_def split: if_splits)

lemma request_doneE:
  assumes "request_done collate ts r i s = Some (r', s')"
  obtains
    (waits) p where "rn_phase r = Requesting (Some p)" "i = rn_index r" "r' = r\<lparr>rn_phase := AwaitingSettle p\<rparr>" "s' = s"
  | (last) "rn_phase r = Requesting None" "i = rn_index r" "next_iteration collate ts r s = (r', s')"
  | (flight) pending where "rn_phase r = InFlight pending" "i \<in> set pending"
      "r' = r\<lparr>rn_phase := (let rest = filter (\<lambda>j. j \<noteq> i) pending in if rest = [] then Finished else InFlight rest)\<rparr>" "s' = s"
  using assms by (cases "rn_phase r") (auto simp: Let_def split: option.splits if_splits)

declare request_done.simps [simp del]

lemma request_done_ok:
  assumes "waiters_ok s" and "run_ok s r" and "request_done collate ts r i s = Some (r', s')"
  shows "waiters_ok s' \<and> evolves s s' \<and> run_ok s' r' \<and> so_runs s' = so_runs s \<and> so_resolved s' = so_resolved s
       \<and> advances r r'"
  using assms(3)
proof (cases rule: request_doneE)
  case last
  have "sd_sequential (rn_scenario r)" using assms(2) last by (auto simp: run_ok_def split: if_splits)
  with next_iteration_ok [OF assms(1,2) _ last(3)] next_iteration_advances [OF last(3)] show ?thesis by simp
next
  case waits
  with assms(1,2) show ?thesis by (auto simp: run_ok_def evolves_def advances_def split: if_splits)
next
  case flight
  with assms(1,2) show ?thesis
    by (auto simp: run_ok_def evolves_def advances_def Let_def filter_empty_conv split: if_splits)
qed

text \<open>What a turn of the loop does to the calls of \<open>runScenario\<close>: nothing, one more call, or a step of one.\<close>

lemma store_ok_nth: "store_ok s \<Longrightarrow> k < length (so_runs s) \<Longrightarrow> run_ok s (so_runs s ! k)"
  by (simp add: store_ok_def)

lemma store_ok_put:
  assumes "store_ok s" and "waiters_ok s'" and "evolves s s'" and "run_ok s' r'" and "so_runs s' = so_runs s"
  shows "store_ok (put_run k (r', s'))" and "evolves s (put_run k (r', s'))"
proof -
  have same: "waiting (put_run k (r', s')) = waiting s'" by (simp add: put_run_def)
  have ev: "evolves s' (put_run k (r', s'))" by (rule evolves_same [OF same])
  have "run_ok (put_run k (r', s')) r" if "r \<in> set (so_runs (put_run k (r', s')))" for r
  proof -
    from that have "r = r' \<or> r \<in> set (so_runs s)"
      using assms(5) set_update_subset_insert [of "so_runs s'" k r'] by (auto simp: put_run_def)
    with assms(1,3,4) have "run_ok s' r" by (auto simp: store_ok_def intro: run_ok_evolves)
    with ev show ?thesis by (rule run_ok_evolves)
  qed
  then show "store_ok (put_run k (r', s'))" using assms(2) same_waiting(2) [OF same] by (simp add: store_ok_def)
  show "evolves s (put_run k (r', s'))" using assms(3) ev by (auto simp: evolves_def)
qed

lemma store_ok_quiet:
  assumes "store_ok s" and "waiters_ok s'" and "evolves s s'" and "so_runs s' = so_runs s"
  shows "store_ok s'"
  using assms run_ok_evolves by (auto simp: store_ok_def)

lemma iterate_phase: "rn_phase (fst (iterate collate ts r i s)) \<noteq> AwaitingSettle p"
  by (auto simp: iterate_def Let_def split: prod.split)

lemma fires_evolve:
  "waiters_ok (fold (fire_begin collate scenario ts) specs s) = waiters_ok s"
  "evolves s (fold (fire_begin collate scenario ts) specs s)"
  "so_resolved (fold (fire_begin collate scenario ts) specs s) = so_resolved s"
  "so_generation (fold (fire_begin collate scenario ts) specs s) = so_generation s"
  using same_waiting [OF waiting_fold [of collate scenario ts specs s]] evolves_same [OF waiting_fold]
  by simp_all

lemma runScenario_called:
  obtains scenario r s1 where "find_scenario i = Some scenario"
    and "called collate ts scenario (sd_build scenario ids now) s = (r, s1)"
    and "runScenario collate i ids now ts s = s1\<lparr>so_runs := so_runs s1 @ [r]\<rparr>"
proof -
  obtain scenario where "find_scenario i = Some scenario" using find_scenario_cases by blast
  then show ?thesis using that
    by (cases "called collate ts scenario (sd_build scenario ids now) s") (simp add: runScenario_def)
qed

lemma called_ok:
  assumes "waiters_ok s" and "called collate ts scenario specs s = (r, s1)"
  shows "waiters_ok s1 \<and> evolves s s1 \<and> run_ok s1 r \<and> so_runs s1 = so_runs s \<and> so_resolved s1 = so_resolved s"
    and "rn_scenario r = scenario \<and> rn_specs r = specs \<and> rn_generation r = so_generation s \<and> rn_index r = 0
       \<and> (\<forall>p. rn_phase r = Requesting (Some p) \<longrightarrow> p \<notin> so_resolved s) \<and> (\<forall>p. rn_phase r \<noteq> AwaitingSettle p)"
proof -
  let ?r0 = "\<lparr>rn_scenario = scenario, rn_specs = specs, rn_generation = so_generation s, rn_index = 0,
              rn_phase = (if specs = [] then Finished else InFlight [0..<length specs])\<rparr>"
  have "(waiters_ok s1 \<and> evolves s s1 \<and> run_ok s1 r \<and> so_runs s1 = so_runs s \<and> so_resolved s1 = so_resolved s)
       \<and> rn_scenario r = scenario \<and> rn_specs r = specs \<and> rn_generation r = so_generation s \<and> rn_index r = 0
       \<and> (\<forall>p. rn_phase r = Requesting (Some p) \<longrightarrow> p \<notin> so_resolved s) \<and> (\<forall>p. rn_phase r \<noteq> AwaitingSettle p)"
  proof (cases "sd_sequential scenario")
    case True
    with assms(2) have it: "iterate collate ts ?r0 0 s = (r, s1)" by (simp add: called_def)
    with iterate_ok [OF assms(1) _ _ it] True iterate_fields [of collate ts ?r0 0 s] iterate_phase [of collate ts ?r0 0 s]
    show ?thesis by auto
  next
    case False
    with assms have "r = ?r0" "s1 = fold (fire_begin collate scenario ts) specs s" by (auto simp: called_def)
    with False assms(1) fires_evolve [where ?s = s] show ?thesis by (auto simp: run_ok_def)
  qed
  then show "waiters_ok s1 \<and> evolves s s1 \<and> run_ok s1 r \<and> so_runs s1 = so_runs s \<and> so_resolved s1 = so_resolved s"
    and "rn_scenario r = scenario \<and> rn_specs r = specs \<and> rn_generation r = so_generation s \<and> rn_index r = 0
       \<and> (\<forall>p. rn_phase r = Requesting (Some p) \<longrightarrow> p \<notin> so_resolved s) \<and> (\<forall>p. rn_phase r \<noteq> AwaitingSettle p)"
    by blast+
qed

text \<open>The three ways a turn of the loop touches the calls\<close>

lemma store_stepE:
  assumes "store_step collate cfg e s = Some s'" and "store_ok s"
  obtains
    (quiet) "so_runs s' = so_runs s" "waiters_ok s'" "evolves s s'"
      "\<forall>i ids now ts. e \<noteq> RunScenario i ids now ts" "\<forall>k i w ts. e \<noteq> RequestDone k i w ts"
      "\<forall>k ts. e \<noteq> SettleResumes k ts"
  | (call) i ids now ts scenario r s1 where "e = RunScenario i ids now ts" "find_scenario i = Some scenario"
      "called collate ts scenario (sd_build scenario ids now) s = (r, s1)" "s' = s1\<lparr>so_runs := so_runs s1 @ [r]\<rparr>"
  | (answer) k i w ts r' s1 where "e = RequestDone k i w ts" "k < length (so_runs s)"
      "i < length (rn_specs (so_runs s ! k))"
      "request_done collate ts (so_runs s ! k) i
         (fire_end collate cfg w (rn_scenario (so_runs s ! k)) ts (rn_specs (so_runs s ! k) ! i) s) = Some (r', s1)"
      "s' = put_run k (r', s1)"
  | (resume) k ts p r' s1 where "e = SettleResumes k ts" "k < length (so_runs s)"
      "rn_phase (so_runs s ! k) = AwaitingSettle p" "p \<in> so_resolved s"
      "next_iteration collate ts (so_runs s ! k) s = (r', s1)" "s' = put_run k (r', s1)"
proof (cases e)
  case (RunScenario i ids now ts)
  with assms(1) call show ?thesis by (auto intro: runScenario_called [of i collate ts ids now s])
next
  case (RequestDone k i w ts)
  with assms(1) answer show ?thesis by (auto simp: Let_def split: if_splits)
next
  case (SettleResumes k ts)
  then show ?thesis using assms(1) resume
    by (cases "next_iteration collate ts (so_runs s ! k) s") (auto simp: Let_def split: if_splits phase.splits)
next
  case (Settled c)
  with assms quiet notify_evolves show ?thesis by (auto simp: store_ok_def)
next
  case (TimerElapsed p c)
  with assms quiet timeout_evolves show ?thesis by (auto simp: store_ok_def split: if_splits)
next
  case ResetClicked
  with assms quiet reset_evolves show ?thesis by (auto simp: store_ok_def)
next
  case (Socket ev now)
  with assms quiet evolves_same [OF waiting_socket(1)] same_waiting(2) [OF waiting_socket(1)] show ?thesis
    by (auto simp: store_ok_def simp del: socket_effect.simps)
qed

lemma store_step_ok:
  assumes "store_step collate cfg e s = Some s'" and "store_ok s"
  shows "store_ok s' \<and> evolves s s' \<and> length (so_runs s) \<le> length (so_runs s')
       \<and> (\<forall>k < length (so_runs s). advances (so_runs s ! k) (so_runs s' ! k))"
  using assms
proof (cases rule: store_stepE)
  case quiet
  with assms(2) store_ok_quiet show ?thesis by simp
next
  case (call i ids now ts scenario r s1)
  have ok: "waiters_ok s" using assms(2) by (simp add: store_ok_def)
  note c = called_ok [OF ok call(3)]
  have same: "waiting (s1\<lparr>so_runs := so_runs s1 @ [r]\<rparr>) = waiting s1" by simp
  have "evolves s s'" using c(1) evolves_same [OF same] call(4) by (auto simp: evolves_def)
  moreover have "run_ok s' r" using c(1) evolves_same [OF same] call(4) run_ok_evolves by blast
  moreover have "waiters_ok s'" using c(1) same_waiting(2) [OF same] call(4) by simp
  ultimately show ?thesis using c(1) call(4) assms(2) run_ok_evolves
    by (auto simp: store_ok_def nth_append)
next
  case (answer k i w ts r' s1)
  let ?r = "so_runs s ! k"
  let ?s0 = "fire_end collate cfg w (rn_scenario ?r) ts (rn_specs ?r ! i) s"
  have same: "waiting ?s0 = waiting s" by simp
  have ok: "waiters_ok ?s0" "run_ok ?s0 ?r"
    using assms(2) same_waiting(2) [OF same] store_ok_nth [OF assms(2) answer(2)] run_ok_evolves [OF evolves_same [OF same]]
    by (auto simp: store_ok_def)
  note c = request_done_ok [OF ok answer(4)]
  have "evolves s s1" using c evolves_same [OF same] by (auto simp: evolves_def)
  with c store_ok_put [OF assms(2), of s1 r' k] answer show ?thesis by (auto simp: put_run_def nth_list_update)
next
  case (resume k ts p r' s1)
  have "waiters_ok s" "run_ok s (so_runs s ! k)" using assms(2) resume(2) by (simp_all add: store_ok_def)
  moreover have "sd_sequential (rn_scenario (so_runs s ! k))"
    using calculation resume(3) by (auto simp: run_ok_def split: if_splits)
  ultimately have c: "waiters_ok s1 \<and> evolves s s1 \<and> run_ok s1 r' \<and> so_runs s1 = so_runs s"
    using next_iteration_ok resume(5) by blast
  with store_ok_put [OF assms(2), of s1 r' k] next_iteration_advances [OF resume(5)] resume show ?thesis
    by (auto simp: put_run_def nth_list_update)
qed

text \<open>A tracked promise is resolved by the signal for its id, by its timer, or by a reset.\<close>

lemma resolved_why:
  assumes "store_step collate cfg e s = Some s'" and "store_ok s" and "tracked s p c"
    and "p \<in> so_resolved s'" and "so_generation s' = so_generation s"
  shows "p \<in> so_resolved s \<or> e = Settled c \<or> e = TimerElapsed p c"
proof -
  have ok: "waiters_ok s" using assms(2) by (simp add: store_ok_def)
  from assms(1,2) show ?thesis
  proof (cases rule: store_stepE)
    case quiet
    from assms(1,3-5) quiet(4-6) ok show ?thesis
      by (cases e)
         (auto simp: notifySettled_def settle_timeout_def resolve_waiter_def reset_store_def waiters_ok_def tracked_def
            same_waiting(4) [OF waiting_socket(1)] simp del: socket_effect.simps split: option.splits if_splits)
  next
    case (call i ids now ts scenario r s1)
    with called_ok [OF ok call(3)] assms(4) show ?thesis by simp
  next
    case (answer k i w ts r' s1)
    let ?r = "so_runs s ! k"
    let ?s0 = "fire_end collate cfg w (rn_scenario ?r) ts (rn_specs ?r ! i) s"
    have same: "waiting ?s0 = waiting s" by simp
    have "waiters_ok ?s0" "run_ok ?s0 ?r"
      using ok same_waiting(2) [OF same] store_ok_nth [OF assms(2) answer(2)] run_ok_evolves [OF evolves_same [OF same]]
      by auto
    with request_done_ok [OF _ _ answer(4)] same_waiting(4) [OF same] assms(4) answer(5) show ?thesis
      by (auto simp: put_run_def)
  next
    case (resume k ts q r' s1)
    have "run_ok s (so_runs s ! k)" using assms(2) resume(2) by (simp add: store_ok_def)
    moreover have "sd_sequential (rn_scenario (so_runs s ! k))"
      using calculation resume(3) by (auto simp: run_ok_def split: if_splits)
    ultimately have "so_resolved s1 = so_resolved s" using next_iteration_ok [OF ok] resume(5) by blast
    with assms(4) resume(6) show ?thesis by (simp add: put_run_def)
  qed
qed

lemma initial_store_ok: "store_ok initial_store"
  by (simp add: store_ok_def waiters_ok_def initial_store_def)

lemma store_run_ok: "store_run collate cfg s es s' \<Longrightarrow> store_ok s \<Longrightarrow> store_ok s'"
  by (induction rule: store_run.induct) (auto dest: store_step_ok)

subsection \<open>One after the other\<close>

definition settled_by :: "store_event list \<Rightarrow> string \<Rightarrow> bool" where
  "settled_by es c \<longleftrightarrow> Settled c \<in> set es \<or> (\<exists>p. TimerElapsed p c \<in> set es)"

definition answered_by :: "store_event list \<Rightarrow> nat \<Rightarrow> nat \<Rightarrow> bool" where
  "answered_by es k i \<longleftrightarrow> (\<exists>w ts. RequestDone k i w ts \<in> set es)"

lemma by_append:
  "settled_by es c \<Longrightarrow> settled_by (es @ [e]) c" "answered_by es k i \<Longrightarrow> answered_by (es @ [e]) k i"
  by (auto simp: settled_by_def answered_by_def)

text \<open>What the events so far say about the call \<open>k\<close>\<close>

definition accounted :: "store_event list \<Rightarrow> store \<Rightarrow> nat \<Rightarrow> run \<Rightarrow> bool" where
  "accounted es s k r \<longleftrightarrow>
     (\<forall>i < rn_index r. answered_by es k i \<and> settled_by es (tg_correlationId (rn_specs r ! i)))
     \<and> (\<forall>p. rn_phase r = AwaitingSettle p \<longrightarrow> answered_by es k (rn_index r))
     \<and> (\<forall>p. rn_phase r \<in> {Requesting (Some p), AwaitingSettle p} \<longrightarrow> so_generation s = rn_generation r
          \<longrightarrow> p \<in> so_resolved s \<longrightarrow> settled_by es (tg_correlationId (rn_specs r ! rn_index r)))"

lemma accounted_other:
  assumes "accounted es s k r" and "run_ok s r" and "sd_sequential (rn_scenario r)"
    and "store_step collate cfg e s = Some s'" and "store_ok s" and "evolves s s'"
  shows "accounted (es @ [e]) s' k r"
proof -
  have "settled_by (es @ [e]) (tg_correlationId (rn_specs r ! rn_index r))"
    if "rn_phase r \<in> {Requesting (Some p), AwaitingSettle p}" "so_generation s' = rn_generation r" "p \<in> so_resolved s'" for p
  proof -
    have "tracked s p (tg_correlationId (rn_specs r ! rn_index r))" using assms(2,3) that(1) by (auto simp: run_ok_def)
    moreover have "so_generation s' = so_generation s"
      using assms(2,6) that(2) by (auto simp: run_ok_def evolves_def split: if_splits)
    ultimately show ?thesis
      using resolved_why [OF assms(4,5) _ that(3)] assms(1) that by (auto simp: accounted_def settled_by_def)
  qed
  with assms(1) show ?thesis by (auto simp: accounted_def by_append)
qed

text \<open>The loop goes on from an index whose answer and whose settling are known.\<close>

lemma accounted_next:
  assumes "next_iteration collate ts r s = (r', s')" and "waiters_ok s" and "run_ok s r" and "sd_sequential (rn_scenario r)"
    and "\<forall>i < rn_index r. answered_by es k i \<and> settled_by es (tg_correlationId (rn_specs r ! i))"
    and "rn_index r + 1 < length (rn_specs r) \<Longrightarrow> so_generation s = rn_generation r
         \<Longrightarrow> answered_by es k (rn_index r) \<and> settled_by es (tg_correlationId (rn_specs r ! rn_index r))"
  shows "accounted es s'' k r' \<or> \<not> so_resolved s'' \<subseteq> so_resolved s'"
proof -
  have fresh: "p \<notin> so_resolved s'" if "rn_phase r' = Requesting (Some p)" for p
    using next_iteration_ok [OF assms(2-4,1)] that by blast
  have phase: "rn_phase r' \<noteq> AwaitingSettle p" for p
    using assms(1) iterate_phase [of collate ts r "rn_index r + 1" s p] by (auto simp: next_iteration_def split: if_splits)
  have specs: "rn_specs r' = rn_specs r" using next_iteration_advances [OF assms(1)] by (simp add: advances_def)
  have "rn_index r' = rn_index r
      \<or> rn_index r' = rn_index r + 1 \<and> rn_index r + 1 < length (rn_specs r) \<and> so_generation s = rn_generation r"
    using assms(1) by (auto simp: next_iteration_def iterate_def Let_def split: if_splits prod.splits)
  then have "\<forall>i < rn_index r'. answered_by es k i \<and> settled_by es (tg_correlationId (rn_specs r ! i))"
    using assms(5,6) by (auto simp: less_Suc_eq)
  with fresh phase specs show ?thesis by (auto simp: accounted_def)
qed

lemma store_run_accounted:
  assumes "store_run collate cfg initial_store es s"
  shows "k < length (so_runs s) \<Longrightarrow> sd_sequential (rn_scenario (so_runs s ! k)) \<Longrightarrow> accounted es s k (so_runs s ! k)"
  using assms
proof (induction rule: store_run.induct)
  case idle
  then show ?case by (simp add: initial_store_def)
next
  case (turn es s e s')
  have ok: "store_ok s" using store_run_ok [OF turn.hyps(1) initial_store_ok] .
  have w: "waiters_ok s" using ok by (simp add: store_ok_def)
  have ev: "evolves s s'" using store_step_ok [OF turn.hyps(2) ok] by simp
  have other: "accounted (es @ [e]) s' k (so_runs s ! k)"
    if "k < length (so_runs s)" "so_runs s' ! k = so_runs s ! k"
    using accounted_other [OF turn.IH store_ok_nth [OF ok that(1)] _ turn.hyps(2) ok ev] turn.prems(2) that by simp
  from turn.hyps(2) ok show ?case
  proof (cases rule: store_stepE)
    case quiet
    with other turn.prems(1) show ?thesis by simp
  next
    case (call i ids now ts scenario r s1)
    note c = called_ok [OF w call(3)]
    have "accounted (es @ [e]) s' k r" using c call(4) by (auto simp: accounted_def)
    with other c call(4) turn.prems(1) show ?thesis by (cases "k < length (so_runs s)") (auto simp: nth_append less_Suc_eq)
  next
    case (answer j i w ts r' s1)
    let ?r = "so_runs s ! j"
    let ?s0 = "fire_end collate cfg w (rn_scenario ?r) ts (rn_specs ?r ! i) s"
    have same: "waiting ?s0 = waiting s" by simp
    have ok0: "waiters_ok ?s0" "run_ok ?s0 ?r"
      using w same_waiting(2) [OF same] run_ok_evolves [OF evolves_same [OF same] store_ok_nth [OF ok answer(2)]] by auto
    note c = request_done_ok [OF ok0 answer(4)]
    show ?thesis
    proof (cases "k = j")
      case False
      with other answer(5) c turn.prems(1) show ?thesis by (simp add: put_run_def)
    next
      case True
      have r': "so_runs s' ! k = r'" using True answer(2,5) c by (simp add: put_run_def)
      have seq: "sd_sequential (rn_scenario ?r)" using turn.prems(2) r' c by (simp add: advances_def)
      have IH: "accounted es s j ?r" using turn.IH True answer(2) seq by simp
      have now: "answered_by (es @ [e]) j i" using answer(1) by (auto simp: answered_by_def)
      from answer(4) show ?thesis
      proof (cases rule: request_doneE)
        case (waits p)
        have "accounted (es @ [e]) s' j r'"
          using IH now waits same_waiting [OF same] answer(5) by (auto simp: accounted_def put_run_def by_append)
        with r' True show ?thesis by simp
      next
        case last
        have "rn_index ?r + 1 = length (rn_specs ?r)" using ok0(2) seq last(1) by (simp add: run_ok_def)
        then have "accounted (es @ [e]) s' j r'"
          using accounted_next [OF last(3) ok0 seq, of "es @ [e]" j s'] IH answer(5)
          by (auto simp: accounted_def put_run_def by_append)
        with r' True show ?thesis by simp
      next
        case (flight pending)
        with ok0(2) seq show ?thesis by (simp add: run_ok_def)
      qed
    qed
  next
    case (resume j ts p r' s1)
    let ?r = "so_runs s ! j"
    have rok: "run_ok s ?r" using store_ok_nth [OF ok resume(2)] .
    have seq: "sd_sequential (rn_scenario ?r)" using rok resume(3) by (auto simp: run_ok_def split: if_splits)
    have runs: "so_runs s1 = so_runs s" using next_iteration_ok [OF w rok seq resume(5)] by simp
    show ?thesis
    proof (cases "k = j")
      case False
      with other resume(6) runs turn.prems(1) show ?thesis by (simp add: put_run_def)
    next
      case True
      have r': "so_runs s' ! k = r'" using True resume(2,6) runs by (simp add: put_run_def)
      have "accounted es s j ?r" using turn.IH True resume(2) seq by simp
      then have "accounted (es @ [e]) s' j r'"
        using accounted_next [OF resume(5) w rok seq, of "es @ [e]" j s'] resume(3,4,6)
        by (auto simp: accounted_def put_run_def by_append)
      with r' True show ?thesis by simp
    qed
  qed
qed

text \<open>C32. The second request of a sequential scenario waits for the first event to settle: in any sequence of
  clicks, answers, signals, timeouts and socket events, when a sequential call has come to a request, each
  earlier request of the call has been answered, and for its correlation id the pipeline has signalled that
  the token settled or the 15 s timer has elapsed. A reset never takes the place of that signal.\<close>

theorem next_request_waits:
  assumes "store_run collate cfg initial_store es s" and "k < length (so_runs s)"
    and "sd_sequential (rn_scenario (so_runs s ! k))" and "i < rn_index (so_runs s ! k)"
  shows "(\<exists>w ts. RequestDone k i w ts \<in> set es)
       \<and> (let c = tg_correlationId (rn_specs (so_runs s ! k) ! i) in Settled c \<in> set es \<or> (\<exists>p. TimerElapsed p c \<in> set es))"
  using store_run_accounted [OF assms(1-3)] assms(4)
  by (auto simp: accounted_def answered_by_def settled_by_def Let_def)

text \<open>Running a list of events\<close>

fun run_events ::
  "(string \<Rightarrow> string \<Rightarrow> int) \<Rightarrow> web_config \<Rightarrow> store_event list \<Rightarrow> store \<Rightarrow> store option"
where
  "run_events collate cfg [] s = Some s"
| "run_events collate cfg (e # es) s = Option.bind (store_step collate cfg e s) (run_events collate cfg es)"

lemma store_run_append: "store_run collate cfg s1 es2 s2 \<Longrightarrow> store_run collate cfg s0 es1 s1 \<Longrightarrow> store_run collate cfg s0 (es1 @ es2) s2"
  by (induction rule: store_run.induct) (auto intro: store_run.intros simp flip: append_assoc)

lemma store_run_one: "store_step collate cfg e s = Some s' \<Longrightarrow> store_run collate cfg s [e] s'"
  using store_run.turn [OF store_run.idle, of collate cfg e s s'] by simp

lemma run_events_run: "run_events collate cfg es s = Some s' \<Longrightarrow> store_run collate cfg s es s'"
proof (induction es arbitrary: s)
  case (Cons e es)
  then obtain s1 where "store_step collate cfg e s = Some s1" "run_events collate cfg es s1 = Some s'"
    by (auto simp: bind_eq_Some_conv)
  with Cons.IH store_run_append [OF _ store_run_one, of collate cfg s1 es s' e s] show ?case by simp
qed (simp add: store_run.idle)

definition offline :: outside where
  "offline = \<lparr>ou_fetch = (\<lambda>_. Inl (TypeError ''Failed to fetch'')), ou_now = 0, ou_started = 0, ou_finished = 0\<rparr>"

definition letter_ids :: "nat \<Rightarrow> string" where
  "letter_ids n = [digit_char n]"

definition duplicate_events :: "store_event list" where
  "duplicate_events = [RunScenario Duplicate letter_ids 0 [], RequestDone 0 0 offline [], Settled (letter_ids 1), SettleResumes 0 []]"

lemma duplicate_trace:
  "\<exists>s. run_events iso_collate (web_config Map.empty) duplicate_events initial_store = Some s
     \<and> length (so_runs s) = 1 \<and> sd_sequential (rn_scenario (so_runs s ! 0)) \<and> rn_index (so_runs s ! 0) = 1"
  by (simp add: duplicate_events_def runScenario_def find_scenario_cases called_def iterate_def waitForSettle_def
      initial_store_def build_duplicate_def Let_def duplicate_scenario_def request_done.simps put_run_def
      notifySettled_def resolve_waiter_def next_iteration_def fire_begin_def fire_end_def)

theorem next_request_waits_witness:
  "\<exists>s. store_run iso_collate (web_config Map.empty) initial_store duplicate_events s
     \<and> (\<exists>w ts. RequestDone 0 0 w ts \<in> set duplicate_events)"
proof -
  obtain s where s: "run_events iso_collate (web_config Map.empty) duplicate_events initial_store = Some s"
    "length (so_runs s) = 1" "sd_sequential (rn_scenario (so_runs s ! 0))" "rn_index (so_runs s ! 0) = 1"
    using duplicate_trace by blast
  have "store_run iso_collate (web_config Map.empty) initial_store duplicate_events s" using s(1) by (rule run_events_run)
  with next_request_waits [OF this, of 0 0] s(2-4) show ?thesis by auto
qed

subsection \<open>Resetting\<close>

definition order_of :: "store \<Rightarrow> string set" where
  "order_of s = (case so_state s of Inr d \<Rightarrow> set (ds_order d) | Inl e \<Rightarrow> {})"

text \<open>The ids of the calls from the \<open>n\<close>-th on\<close>

definition ids_from :: "nat \<Rightarrow> store \<Rightarrow> string set" where
  "ids_from n s = {tg_correlationId spec |spec k. n \<le> k \<and> k < length (so_runs s) \<and> spec \<in> set (rn_specs (so_runs s ! k))}"

lemma put_token_order [simp]: "ds_order (put_token t d) = ds_order d"
  by (simp add: put_token_def)

lemma order_dispatch:
  "order_of (dispatch collate (TriggerStarted a) s) \<subseteq> insert (ts_correlationId a) (order_of s)"
  "order_of (dispatch collate (HttpResult sc result ts) s) \<subseteq> order_of s"
  "order_of (dispatch collate (EnvelopeArrived e now) s) \<subseteq> order_of s"
  by (auto simp: order_of_def on_trigger_started_def new_token_def on_http_result_def on_envelope_def Let_def bind_res_def
      split: sum.splits slot.splits)

lemma order_fire:
  "order_of (fire_begin collate scenario ts spec s) \<subseteq> insert (tg_correlationId spec) (order_of s)"
  "order_of (fire_end collate cfg w scenario ts spec s) \<subseteq> order_of s"
  using order_dispatch(1) [of collate "started_by scenario spec ts" s] order_dispatch(2)
  by (auto simp: fire_begin_def fire_end_def started_by_def)

lemma order_fires: "order_of (fold (fire_begin collate scenario ts) specs s) \<subseteq> tg_correlationId ` set specs \<union> order_of s"
proof (induction specs arbitrary: s)
  case (Cons spec specs)
  then show ?case using order_fire(1) [of collate scenario ts spec s] by fastforce
qed simp

lemma order_same:
  "order_of (s\<lparr>so_runs := rs\<rparr>) = order_of s" "order_of (snd (waitForSettle c s)) = order_of s"
  "order_of (notifySettled c s) = order_of s" "order_of (settle_timeout p c s) = order_of s"
  by (simp_all add: order_of_def waitForSettle_def Let_def notifySettled_def settle_timeout_def resolve_waiter_def
      split: option.split)

lemma iterate_snd:
  "snd (iterate collate ts r i s) =
     (if length (rn_specs r) \<le> i then s
      else fire_begin collate (rn_scenario r) ts (rn_specs r ! i)
             (if i < length (rn_specs r) - 1 then snd (waitForSettle (tg_correlationId (rn_specs r ! i)) s) else s))"
  by (cases "waitForSettle (tg_correlationId (rn_specs r ! i)) s") (simp add: iterate_def Let_def)

lemma order_iterate:
  assumes "iterate collate ts r i s = (r', s')"
  shows "order_of s' \<subseteq> tg_correlationId ` set (rn_specs r) \<union> order_of s"
proof (cases "i < length (rn_specs r)")
  case True
  let ?s1 = "if i < length (rn_specs r) - 1 then snd (waitForSettle (tg_correlationId (rn_specs r ! i)) s) else s"
  have s': "s' = fire_begin collate (rn_scenario r) ts (rn_specs r ! i) ?s1"
    using iterate_snd [of collate ts r i s] assms True by simp
  have "order_of ?s1 = order_of s" by (simp add: order_same(2))
  with order_fire(1) have "order_of s' \<subseteq> insert (tg_correlationId (rn_specs r ! i)) (order_of s)" unfolding s' by metis
  moreover have "rn_specs r ! i \<in> set (rn_specs r)" using True by simp
  ultimately show ?thesis by blast
next
  case False
  with assms show ?thesis by (simp add: iterate_def)
qed

lemma order_reset: "order_of (reset_store collate s) = {}"
  by (simp add: order_of_def reset_store_def initialState_def bind_res_def split: sum.split)

lemma order_socket: "order_of (socket_effect collate ev now s) \<subseteq> order_of s"
proof (cases ev)
  case (SockFeed raw)
  then show ?thesis using order_dispatch(3) by (simp add: order_of_def split: socket_call.split)
qed (simp_all add: order_of_def)

text \<open>Calls older than the last reset add no token any more.\<close>

definition since_reset :: "nat \<Rightarrow> store \<Rightarrow> bool" where
  "since_reset n s \<longleftrightarrow> n \<le> length (so_runs s) \<and> (\<forall>k < n. rn_generation (so_runs s ! k) < so_generation s)
     \<and> order_of s \<subseteq> ids_from n s"

lemma order_next:
  assumes "next_iteration collate ts r s = (r', s')"
  shows "s' = s \<and> rn_index r' = rn_index r
       \<or> so_generation s = rn_generation r \<and> order_of s' \<subseteq> tg_correlationId ` set (rn_specs r) \<union> order_of s"
  using assms order_iterate [of collate ts r "rn_index r + 1" s r' s'] by (auto simp: next_iteration_def split: if_splits)

lemma order_called:
  assumes "called collate ts scenario specs s = (r, s')"
  shows "order_of s' \<subseteq> tg_correlationId ` set specs \<union> order_of s"
proof (cases "sd_sequential scenario")
  case True
  with assms order_iterate [of collate ts _ 0 s r s'] show ?thesis by (fastforce simp: called_def Let_def)
next
  case False
  with assms order_fires [of collate scenario ts specs s] show ?thesis by (auto simp: called_def Let_def)
qed

lemma ids_from_own: "n \<le> k \<Longrightarrow> k < length (so_runs s) \<Longrightarrow> tg_correlationId ` set (rn_specs (so_runs s ! k)) \<subseteq> ids_from n s"
  by (auto simp: ids_from_def)

text \<open>One call goes on, from an index its generation allows.\<close>

lemma since_reset_put:
  assumes "since_reset n s" and "evolves s s1" and "so_runs s1 = so_runs s" and "k < length (so_runs s)"
    and "advances (so_runs s ! k) r'"
    and "rn_index r' = rn_index (so_runs s ! k) \<and> order_of s1 \<subseteq> order_of s
       \<or> so_generation s = rn_generation (so_runs s ! k)
         \<and> order_of s1 \<subseteq> tg_correlationId ` set (rn_specs (so_runs s ! k)) \<union> order_of s"
  shows "since_reset n (put_run k (r', s1)) \<and> (\<forall>j < n. rn_index (so_runs (put_run k (r', s1)) ! j) = rn_index (so_runs s ! j))"
proof -
  let ?s = "put_run k (r', s1)"
  have order: "order_of ?s = order_of s1" by (simp add: put_run_def order_same(1))
  have gen: "so_generation ?s = so_generation s1" by (simp add: put_run_def)
  have ids: "ids_from n ?s = ids_from n s"
    using assms(3-5) by (force simp: ids_from_def put_run_def nth_list_update advances_def)
  have old: "rn_generation (so_runs s ! j) < so_generation s" if "j < n" for j
    using assms(1) that by (simp add: since_reset_def)
  have "order_of s1 \<subseteq> ids_from n s"
  proof (cases "k < n")
    case True
    with assms(1,6) old [of k] show ?thesis by (auto simp: since_reset_def)
  next
    case False
    then have "tg_correlationId ` set (rn_specs (so_runs s ! k)) \<subseteq> ids_from n s"
      using ids_from_own [of n k s] assms(4) by simp
    moreover have "order_of s \<subseteq> ids_from n s" using assms(1) by (simp add: since_reset_def)
    ultimately show ?thesis using assms(6) by blast
  qed
  moreover have "rn_generation (so_runs ?s ! j) < so_generation ?s \<and> rn_index (so_runs ?s ! j) = rn_index (so_runs s ! j)"
    if "j < n" for j
  proof (cases "j = k")
    case True
    have "rn_generation (so_runs s ! k) < so_generation s" using old [OF that] True by simp
    moreover have "rn_index r' = rn_index (so_runs s ! k)" using assms(6) calculation by auto
    moreover have "rn_generation r' = rn_generation (so_runs s ! k)" using assms(5) by (simp add: advances_def)
    moreover have "so_generation s \<le> so_generation s1" using assms(2) by (simp add: evolves_def)
    ultimately show ?thesis using True assms(3,4) gen by (simp add: put_run_def)
  next
    case False
    with old [OF that] assms(2,3) gen show ?thesis by (simp add: put_run_def evolves_def)
  qed
  ultimately show ?thesis using assms(1,3) ids order by (simp add: since_reset_def put_run_def)
qed

lemma since_reset_step:
  assumes "store_step collate cfg e s = Some s'" and "store_ok s" and "since_reset n s"
  shows "since_reset n s' \<and> (\<forall>k < n. rn_index (so_runs s' ! k) = rn_index (so_runs s ! k))"
  using assms(1,2)
proof (cases rule: store_stepE)
  case quiet
  have "order_of s' \<subseteq> order_of s"
    using assms(1) quiet(4-6)
    by (cases e) (auto dest: order_socket [THEN subsetD] simp: order_reset order_same(3,4) simp del: socket_effect.simps split: if_splits)
  moreover have "ids_from n s' = ids_from n s" using quiet(1) by (simp add: ids_from_def)
  ultimately show ?thesis using assms(3) quiet(1,3) by (auto simp: since_reset_def evolves_def intro: less_le_trans)
next
  case (call i ids now ts scenario r s1)
  have w: "waiters_ok s" using assms(2) by (simp add: store_ok_def)
  note c = called_ok [OF w call(3)]
  have runs: "so_runs s' = so_runs s @ [r]" using c call(4) by simp
  have gen: "so_generation s \<le> so_generation s'" using c call(4) by (simp add: evolves_def)
  have "ids_from n s \<subseteq> ids_from n s'" using runs by (fastforce simp: ids_from_def nth_append)
  moreover have "tg_correlationId ` set (rn_specs r) \<subseteq> ids_from n s'"
    using ids_from_own [of n "length (so_runs s)" s'] assms(3) runs by (simp add: since_reset_def)
  moreover have "order_of s' \<subseteq> tg_correlationId ` set (rn_specs r) \<union> order_of s"
    using order_called [OF call(3)] c(2) call(4) order_same(1) by simp
  moreover have "order_of s \<subseteq> ids_from n s" using assms(3) by (simp add: since_reset_def)
  ultimately have "order_of s' \<subseteq> ids_from n s'" by blast
  moreover have "so_runs s' ! k = so_runs s ! k \<and> rn_generation (so_runs s ! k) < so_generation s'" if "k < n" for k
    using assms(3) that runs gen less_le_trans by (fastforce simp: since_reset_def nth_append)
  ultimately show ?thesis using assms(3) runs by (simp add: since_reset_def)
next
  case (answer k i w ts r' s1)
  let ?r = "so_runs s ! k"
  let ?s0 = "fire_end collate cfg w (rn_scenario ?r) ts (rn_specs ?r ! i) s"
  have same: "waiting ?s0 = waiting s" by simp
  have ok0: "waiters_ok ?s0" "run_ok ?s0 ?r"
    using assms(2) same_waiting(2) [OF same] store_ok_nth [OF assms(2) answer(2)] run_ok_evolves [OF evolves_same [OF same]]
    by (auto simp: store_ok_def)
  note c = request_done_ok [OF ok0 answer(4)]
  have ev: "evolves s s1" using c evolves_same [OF same] by (auto simp: evolves_def)
  have "rn_index r' = rn_index ?r \<and> order_of s1 \<subseteq> order_of s
      \<or> so_generation s = rn_generation ?r \<and> order_of s1 \<subseteq> tg_correlationId ` set (rn_specs ?r) \<union> order_of s"
    using answer(4)
  proof (cases rule: request_doneE)
    case last
    from order_next [OF last(3)] order_fire(2) [of collate cfg w "rn_scenario ?r" ts "rn_specs ?r ! i" s]
      same_waiting(3) [OF same] show ?thesis by auto
  qed (use order_fire(2) in simp_all)
  then show ?thesis using since_reset_put [OF assms(3) ev _ answer(2)] c answer(5) by simp
next
  case (resume k ts p r' s1)
  have w: "waiters_ok s" using assms(2) by (simp add: store_ok_def)
  have rok: "run_ok s (so_runs s ! k)" using store_ok_nth [OF assms(2) resume(2)] .
  have seq: "sd_sequential (rn_scenario (so_runs s ! k))" using rok resume(3) by (auto simp: run_ok_def split: if_splits)
  from next_iteration_ok [OF w rok seq resume(5)] next_iteration_advances [OF resume(5)] order_next [OF resume(5)]
  show ?thesis using since_reset_put [OF assms(3) _ _ resume(2)] resume(6) by auto
qed

lemma since_reset_run:
  assumes "store_run collate cfg s es s'" and "store_ok s" and "since_reset n s"
  shows "since_reset n s' \<and> (\<forall>k < n. rn_index (so_runs s' ! k) = rn_index (so_runs s ! k))"
  using assms
proof (induction rule: store_run.induct)
  case (turn es s1 e s2)
  have "store_ok s1" using store_run_ok turn.hyps(1) turn.prems(1) .
  with turn.IH turn.prems since_reset_step [OF turn.hyps(2), of n] show ?case by simp
qed simp

text \<open>Reset is final: whatever calls were under way when Reset was clicked (requests in flight, a sequence
  waiting for its first event to settle), afterwards none of them starts another request, and every token
  the dashboard shows from then on belongs to a scenario that was clicked after the reset, whatever answers
  and telemetry of the old ones still arrive.\<close>

theorem reset_is_final:
  assumes "store_run collate cfg initial_store es s" and "store_step collate cfg ResetClicked s = Some s1"
    and "store_run collate cfg s1 es' s2" and "so_state s2 = Inr d"
  shows "set (ds_order d) \<subseteq> ids_from (length (so_runs s)) s2
       \<and> (\<forall>k < length (so_runs s). rn_index (so_runs s2 ! k) = rn_index (so_runs s ! k))"
proof -
  have ok: "store_ok s" using store_run_ok [OF assms(1) initial_store_ok] .
  have s1: "s1 = reset_store collate s" using assms(2) by simp
  have "rn_generation (so_runs s ! k) \<le> so_generation s" if "k < length (so_runs s)" for k
    using store_ok_nth [OF ok that] by (simp add: run_ok_def)
  then have "since_reset (length (so_runs s)) s1"
    by (auto simp: s1 since_reset_def order_reset less_Suc_eq_le) (simp_all add: reset_store_def less_Suc_eq_le)
  moreover have "store_ok s1" using store_step_ok [OF assms(2) ok] by simp
  ultimately have "since_reset (length (so_runs s)) s2
      \<and> (\<forall>k < length (so_runs s). rn_index (so_runs s2 ! k) = rn_index (so_runs s1 ! k))"
    using since_reset_run assms(3) by blast
  then show ?thesis using assms(4) s1 by (simp add: since_reset_def order_of_def reset_store_def)
qed

theorem reset_is_final_witness:
  "\<exists>s s1 s2 d. store_run iso_collate (web_config Map.empty) initial_store [RunScenario Duplicate letter_ids 0 []] s
     \<and> store_step iso_collate (web_config Map.empty) ResetClicked s = Some s1
     \<and> store_run iso_collate (web_config Map.empty) s1 [RunScenario Happy letter_ids 0 []] s2
     \<and> so_state s2 = Inr d \<and> set (ds_order d) \<subseteq> ids_from 1 s2"
proof -
  let ?run = "store_run iso_collate (web_config Map.empty)"
  let ?s = "runScenario iso_collate Duplicate letter_ids 0 [] initial_store"
  let ?s1 = "reset_store iso_collate ?s"
  let ?s2 = "runScenario iso_collate Happy letter_ids 0 [] ?s1"
  have first: "?run initial_store [RunScenario Duplicate letter_ids 0 []] ?s" by (rule store_run_one) simp
  have reset: "store_step iso_collate (web_config Map.empty) ResetClicked ?s = Some ?s1" by simp
  have second: "?run ?s1 [RunScenario Happy letter_ids 0 []] ?s2" by (rule store_run_one) simp
  have len: "length (so_runs ?s) = 1"
    by (simp add: runScenario_def find_scenario_cases called_def iterate_def waitForSettle_def initial_store_def
        build_duplicate_def Let_def duplicate_scenario_def fire_begin_def)
  obtain d where "so_state ?s2 = Inr d"
    by (simp add: runScenario_def find_scenario_cases called_def iterate_def waitForSettle_def initial_store_def
        build_duplicate_def build_happy_def Let_def duplicate_scenario_def happy_scenario_def fire_begin_def reset_store_def)
  with reset_is_final [OF first reset second this] first reset second len show ?thesis by auto
qed

subsection \<open>No call hangs\<close>

text \<open>The events that push the call \<open>k\<close> on: answers (whatever the network says), timers, resumptions\<close>

definition pushes :: "outside \<Rightarrow> string \<Rightarrow> nat \<Rightarrow> store_event set" where
  "pushes w ts k = {RequestDone k i w ts |i. True} \<union> {SettleResumes k ts} \<union> {TimerElapsed p c |p c. True}"

definition can_finish :: "(string \<Rightarrow> string \<Rightarrow> int) \<Rightarrow> web_config \<Rightarrow> outside \<Rightarrow> string \<Rightarrow> nat \<Rightarrow> store \<Rightarrow> bool" where
  "can_finish collate cfg w ts k s \<longleftrightarrow>
     (\<exists>es s'. store_run collate cfg s es s' \<and> set es \<subseteq> pushes w ts k \<and> k < length (so_runs s')
        \<and> rn_phase (so_runs s' ! k) = Finished)"

lemma can_finish_step:
  assumes "store_step collate cfg e s = Some s1" and "e \<in> pushes w ts k" and "can_finish collate cfg w ts k s1"
  shows "can_finish collate cfg w ts k s"
proof -
  obtain es s' where "store_run collate cfg s1 es s'" "set es \<subseteq> pushes w ts k" "k < length (so_runs s')"
    "rn_phase (so_runs s' ! k) = Finished"
    using assms(3) by (auto simp: can_finish_def)
  moreover have "store_run collate cfg s ([e] @ es) s'"
    using store_run_append [OF calculation(1) store_run_one [OF assms(1)]] .
  ultimately show ?thesis using assms(2) by (auto simp: can_finish_def intro!: exI [of _ "[e] @ es"])
qed

lemma can_finish_now:
  "k < length (so_runs s) \<Longrightarrow> rn_phase (so_runs s ! k) = Finished \<Longrightarrow> can_finish collate cfg w ts k s"
  unfolding can_finish_def by (intro exI [of _ "[]"] exI [of _ s]) (simp add: store_run.idle)

text \<open>Requests in flight are answered one by one.\<close>

lemma in_flight_finishes:
  assumes "store_ok s" and "k < length (so_runs s)" and "rn_phase (so_runs s ! k) = InFlight pending"
  shows "can_finish collate cfg w ts k s"
  using assms
proof (induction "length pending" arbitrary: pending s rule: less_induct)
  case less
  let ?r = "so_runs s ! k"
  have "run_ok s ?r" using store_ok_nth less.prems(1,2) .
  then obtain i where i: "i \<in> set pending" "i < length (rn_specs ?r)"
    using less.prems(3) by (cases pending) (auto simp: run_ok_def split: if_splits)
  let ?rest = "filter (\<lambda>j. j \<noteq> i) pending"
  let ?s0 = "fire_end collate cfg w (rn_scenario ?r) ts (rn_specs ?r ! i) s"
  let ?r' = "?r\<lparr>rn_phase := (if ?rest = [] then Finished else InFlight ?rest)\<rparr>"
  have step: "store_step collate cfg (RequestDone k i w ts) s = Some (put_run k (?r', ?s0))"
    using less.prems i by (auto simp: Let_def request_done.simps filter_empty_conv)
  have runs: "k < length (so_runs (put_run k (?r', ?s0)))" "so_runs (put_run k (?r', ?s0)) ! k = ?r'"
    using less.prems(2) by (simp_all add: put_run_def)
  have ok: "store_ok (put_run k (?r', ?s0))" using store_step_ok [OF step less.prems(1)] by simp
  have "can_finish collate cfg w ts k (put_run k (?r', ?s0))"
  proof (cases "?rest = []")
    case True
    with can_finish_now runs show ?thesis by simp
  next
    case False
    moreover have "length ?rest < length pending" using i(1) by (rule length_filter_less) simp
    ultimately show ?thesis using less.hyps [OF _ ok runs(1)] runs(2) by simp
  qed
  with can_finish_step [OF step] show ?case by (auto simp: pushes_def)
qed

text \<open>A sequence goes on from a resolved promise, which its timer resolves at the latest.\<close>

lemma next_phase:
  assumes "next_iteration collate ts r s = (r', s')"
  shows "rn_phase r' = Finished
       \<or> rn_index r' = rn_index r + 1 \<and> rn_index r + 1 < length (rn_specs r) \<and> (\<exists>x. rn_phase r' = Requesting x)"
  using assms by (auto simp: next_iteration_def iterate_def Let_def split: if_splits prod.splits)

definition sequence_at :: "store \<Rightarrow> nat \<Rightarrow> nat \<Rightarrow> bool" where
  "sequence_at s k n \<longleftrightarrow> store_ok s \<and> k < length (so_runs s) \<and> sd_sequential (rn_scenario (so_runs s ! k))
     \<and> length (rn_specs (so_runs s ! k)) - rn_index (so_runs s ! k) = n"

lemma resumed_finishes:
  assumes "sequence_at s k n" and "rn_phase (so_runs s ! k) = AwaitingSettle p" and "p \<in> so_resolved s"
    and "\<And>s m x. m < n \<Longrightarrow> sequence_at s k m \<Longrightarrow> rn_phase (so_runs s ! k) = Requesting x \<Longrightarrow> can_finish collate cfg w ts k s"
  shows "can_finish collate cfg w ts k s"
proof -
  let ?r = "so_runs s ! k"
  have ok: "store_ok s" "waiters_ok s" "k < length (so_runs s)" "sd_sequential (rn_scenario ?r)"
    using assms(1) by (simp_all add: sequence_at_def store_ok_def)
  obtain r' s1 where next1: "next_iteration collate ts ?r s = (r', s1)" by fastforce
  let ?s' = "put_run k (r', s1)"
  have step: "store_step collate cfg (SettleResumes k ts) s = Some ?s'" using assms(2,3) ok(3) next1 by (simp add: Let_def)
  have runs: "k < length (so_runs ?s')" "so_runs ?s' ! k = r'"
    using next_iteration_ok [OF ok(2) store_ok_nth [OF ok(1,3)] ok(4) next1] ok(3) by (simp_all add: put_run_def)
  have adv: "rn_scenario r' = rn_scenario ?r" "rn_specs r' = rn_specs ?r"
    using next_iteration_advances [OF next1] by (simp_all add: advances_def)
  have "can_finish collate cfg w ts k ?s'"
  proof (cases "rn_phase r' = Finished")
    case True
    with can_finish_now runs show ?thesis by simp
  next
    case False
    with next_phase [OF next1] obtain x where x: "rn_phase r' = Requesting x" "rn_index r' = rn_index ?r + 1"
      "rn_index ?r + 1 < length (rn_specs ?r)" by auto
    have "store_ok ?s'" using store_step_ok [OF step ok(1)] by simp
    then have "sequence_at ?s' k (length (rn_specs ?r) - (rn_index ?r + 1))"
      using runs adv x(2) ok(4) by (simp add: sequence_at_def)
    moreover have "length (rn_specs ?r) - (rn_index ?r + 1) < n"
      using assms(1) x(3) by (auto simp: sequence_at_def)
    ultimately show ?thesis using assms(4) x(1) runs(2) by simp
  qed
  with can_finish_step [OF step] show ?thesis by (simp add: pushes_def)
qed

lemma awaiting_finishes:
  assumes "sequence_at s k n" and "rn_phase (so_runs s ! k) = AwaitingSettle p"
    and "\<And>s m x. m < n \<Longrightarrow> sequence_at s k m \<Longrightarrow> rn_phase (so_runs s ! k) = Requesting x \<Longrightarrow> can_finish collate cfg w ts k s"
  shows "can_finish collate cfg w ts k s"
proof (cases "p \<in> so_resolved s")
  case True
  with resumed_finishes [OF assms(1,2)] assms(3) show ?thesis by blast
next
  case False
  let ?c = "tg_correlationId (rn_specs (so_runs s ! k) ! rn_index (so_runs s ! k))"
  have ok: "store_ok s" "k < length (so_runs s)" using assms(1) by (simp_all add: sequence_at_def)
  have "tracked s p ?c" using store_ok_nth [OF ok] assms(2) by (auto simp: run_ok_def split: if_splits)
  with False have step: "store_step collate cfg (TimerElapsed p ?c) s = Some (settle_timeout p ?c s)"
    by (simp add: tracked_def)
  have "sequence_at (settle_timeout p ?c s) k n" using assms(1) store_step_ok [OF step ok(1)] by (simp add: sequence_at_def)
  moreover have "p \<in> so_resolved (settle_timeout p ?c s)" by (simp add: settle_timeout_def resolve_waiter_def)
  ultimately have "can_finish collate cfg w ts k (settle_timeout p ?c s)"
    using resumed_finishes [of "settle_timeout p ?c s" k n p] assms(2,3) by simp
  with can_finish_step [OF step] show ?thesis by (simp add: pushes_def)
qed

lemma requesting_finishes:
  "sequence_at s k n \<Longrightarrow> rn_phase (so_runs s ! k) = Requesting x \<Longrightarrow> can_finish collate cfg w ts k s"
proof (induction n arbitrary: s x rule: less_induct)
  case (less n)
  let ?r = "so_runs s ! k"
  have ok: "store_ok s" "k < length (so_runs s)" "sd_sequential (rn_scenario ?r)"
    using less.prems(1) by (simp_all add: sequence_at_def)
  have rok: "run_ok s ?r" using store_ok_nth [OF ok(1,2)] .
  let ?s0 = "fire_end collate cfg w (rn_scenario ?r) ts (rn_specs ?r ! rn_index ?r) s"
  have index: "rn_index ?r < length (rn_specs ?r)" using rok ok(3) less.prems(2) by (cases x) (auto simp: run_ok_def)
  show ?case
  proof (cases x)
    case None
    obtain r' s1 where next1: "next_iteration collate ts ?r ?s0 = (r', s1)" by fastforce
    have step: "store_step collate cfg (RequestDone k (rn_index ?r) w ts) s = Some (put_run k (r', s1))"
      using ok(2) index less.prems(2) None next1 by (simp add: Let_def request_done.simps)
    have "rn_index ?r + 1 = length (rn_specs ?r)" using rok ok(3) less.prems(2) None by (simp add: run_ok_def)
    with next_phase [OF next1] have "rn_phase r' = Finished" by auto
    moreover have "k < length (so_runs (put_run k (r', s1)))" using store_step_ok [OF step ok(1)] ok(2) by linarith
    ultimately have "can_finish collate cfg w ts k (put_run k (r', s1))"
      using can_finish_now by (simp add: put_run_def)
    with can_finish_step [OF step] show ?thesis by (auto simp: pushes_def)
  next
    case (Some p)
    let ?s1 = "put_run k (?r\<lparr>rn_phase := AwaitingSettle p\<rparr>, ?s0)"
    have step: "store_step collate cfg (RequestDone k (rn_index ?r) w ts) s = Some ?s1"
      using ok(2) index less.prems(2) Some by (simp add: Let_def request_done.simps)
    have "so_runs ?s1 ! k = ?r\<lparr>rn_phase := AwaitingSettle p\<rparr>" "k < length (so_runs ?s1)"
      using ok(2) by (simp_all add: put_run_def)
    moreover have "store_ok ?s1" using store_step_ok [OF step ok(1)] by simp
    ultimately have "sequence_at ?s1 k n" "rn_phase (so_runs ?s1 ! k) = AwaitingSettle p"
      using less.prems(1) by (simp_all add: sequence_at_def)
    then have "can_finish collate cfg w ts k ?s1" using awaiting_finishes less.IH by blast
    with can_finish_step [OF step] show ?thesis by (auto simp: pushes_def)
  qed
qed

text \<open>C33. No call of \<open>runScenario\<close> hangs, so the scenario buttons always come back: from every state the store can
  reach, each unfinished call can be brought to its end by answers to its own requests (whatever the network
  answers or fails with), by timers that are really pending and by resuming from promises that are really
  resolved; neither a signal from the pipeline nor telemetry is needed.\<close>

theorem no_call_hangs:
  assumes "store_run collate cfg initial_store es s" and "k < length (so_runs s)"
  shows "\<exists>es' s'. store_run collate cfg s es' s'
       \<and> (\<forall>e \<in> set es'. (\<exists>i. e = RequestDone k i w ts) \<or> e = SettleResumes k ts \<or> (\<exists>p c. e = TimerElapsed p c))
       \<and> rn_phase (so_runs s' ! k) = Finished"
proof -
  have ok: "store_ok s" using store_run_ok [OF assms(1) initial_store_ok] .
  have rok: "run_ok s (so_runs s ! k)" using store_ok_nth [OF ok assms(2)] .
  have "can_finish collate cfg w ts k s"
  proof (cases "rn_phase (so_runs s ! k)")
    case (Requesting x)
    then show ?thesis using ok rok assms(2) requesting_finishes [of s k]
      by (auto simp: sequence_at_def run_ok_def split: if_splits)
  next
    case (AwaitingSettle p)
    then show ?thesis using ok rok assms(2) awaiting_finishes [of s k] requesting_finishes
      by (auto simp: sequence_at_def run_ok_def split: if_splits)
  next
    case (InFlight pending)
    with in_flight_finishes ok assms(2) show ?thesis by blast
  next
    case Finished
    with can_finish_now assms(2) show ?thesis by blast
  qed
  then obtain es' s' where "store_run collate cfg s es' s'" "set es' \<subseteq> pushes w ts k" "rn_phase (so_runs s' ! k) = Finished"
    by (auto simp: can_finish_def)
  then show ?thesis unfolding pushes_def by (intro exI [of _ es'] exI [of _ s']) blast
qed

theorem no_call_hangs_witness:
  "\<exists>s es' s'. store_run iso_collate (web_config Map.empty) initial_store [RunScenario Duplicate letter_ids 0 []] s
     \<and> rn_phase (so_runs s ! 0) \<noteq> Finished
     \<and> store_run iso_collate (web_config Map.empty) s es' s' \<and> rn_phase (so_runs s' ! 0) = Finished"
proof -
  let ?s = "runScenario iso_collate Duplicate letter_ids 0 [] initial_store"
  have first: "store_run iso_collate (web_config Map.empty) initial_store [RunScenario Duplicate letter_ids 0 []] ?s"
    by (rule store_run_one) simp
  have "length (so_runs ?s) = 1" "rn_phase (so_runs ?s ! 0) \<noteq> Finished"
    by (simp_all add: runScenario_def find_scenario_cases called_def iterate_def waitForSettle_def initial_store_def
        build_duplicate_def Let_def duplicate_scenario_def fire_begin_def)
  moreover obtain es' s' where "store_run iso_collate (web_config Map.empty) ?s es' s'" "rn_phase (so_runs s' ! 0) = Finished"
    using no_call_hangs [OF first, of 0] calculation(1) by (metis less_one)
  ultimately show ?thesis using first by blast
qed

end
