(* ===== verification/WebPipeline.thy ===== *)
theory WebPipeline
  imports WebStore
begin

text \<open>
  The pipeline drawing, \<open>src/web/src/components/Pipeline.tsx\<close>: the path a token walks through the boxes, the
  paced walk along it, and what a render derives (where each ball is, its stop-watch and caption, and which
  tokens have visibly settled, the signal the store waits for). The component's state and refs are the
  record \<open>pipeline\<close>. \<open>fraction q\<close> is the text of a number that is no integer.
\<close>

subsection \<open>Captions\<close>

definition TICK_MS :: int where "TICK_MS = 200"
definition HOP_MS :: int where "HOP_MS = 750"
definition CAPTION_LINGER_MS :: int where "CAPTION_LINGER_MS = 10000"

definition retryNode :: "string \<Rightarrow> node_key" where
  "retryNode tier = (if tier = ''30s'' then NRetry30s else if tier = ''2min'' then NRetry2min else NRetry5s)"

fun RETRY_BOX_MS :: "node_key \<Rightarrow> int option" where
  "RETRY_BOX_MS NRetry5s = Some 5000"
| "RETRY_BOX_MS NRetry30s = Some 30000"
| "RETRY_BOX_MS NRetry2min = Some 120000"
| "RETRY_BOX_MS _ = None"

definition MAIN_ROW :: "node_key list" where
  "MAIN_ROW = [NPost, NGuard, NValidate, NExchange, NWork, NWorker, NPostgres]"

fun js_indexOf :: "'a \<Rightarrow> 'a list \<Rightarrow> int" where
  "js_indexOf x [] = - 1"
| "js_indexOf x (y # ys) = (if y = x then 0 else let i = js_indexOf x ys in if i = - 1 then - 1 else i + 1)"

definition mainIndex :: "node_key \<Rightarrow> int" where
  "mainIndex n = js_indexOf n MAIN_ROW"

record path_step =
  ps_node :: node_key
  ps_color :: string
  ps_caption :: string

fun INFRA_CAPTION :: "node_key \<Rightarrow> string option" where
  "INFRA_CAPTION NGuard = Some ''HMAC-SHA256 signature accepted''"
| "INFRA_CAPTION NValidate = Some (''schema valid '' @ arrow @ '' forwarded'')"
| "INFRA_CAPTION NWork = Some ''queued for the worker''"
| "INFRA_CAPTION _ = None"

definition infraCaption :: "token \<Rightarrow> node_key \<Rightarrow> string" where
  "infraCaption t n = (if tk_httpStatus t = Some 0 then [] else nullish (INFRA_CAPTION n) [])"

text \<open>\<open>s.includes(sub)\<close>\<close>

fun js_includes :: "string \<Rightarrow> string \<Rightarrow> bool" where
  "js_includes [] sub = (sub = [])"
| "js_includes (c # s) sub = (take (length sub) (c # s) = sub \<or> js_includes s sub)"

definition rejectionCaption :: "token \<Rightarrow> string" where
  "rejectionCaption t =
     (let message = nullish (as_string (Option.bind (tk_httpBody t) (\<lambda>body. field body ''message''))) [] in
      if js_includes message ''timestamp'' then ''timestamp outside accepted window '' @ arrow @ '' 401''
      else if js_includes message ''signature'' then ''HMAC-SHA256 signature mismatch '' @ arrow @ '' 401''
      else ''rejected by the HMAC guard '' @ arrow @ '' 401'')"

definition number_string :: "(rat \<Rightarrow> string) \<Rightarrow> jsnum \<Rightarrow> string" where
  "number_string fraction n = (case n of
       NaN \<Rightarrow> ''NaN'' | PInf \<Rightarrow> ''Infinity'' | NInf \<Rightarrow> ''-Infinity''
     | Fin q \<Rightarrow> nullish (number_text (Fin q)) (fraction q))"

fun captionFor :: "(rat \<Rightarrow> string) \<Rightarrow> token \<Rightarrow> stage_event \<Rightarrow> string" where
  "captionFor fraction t event =
     (case se_stage event of
        SReceived \<Rightarrow> ''signed POST /orders sent''
      | SSignatureVerified \<Rightarrow> ''HMAC-SHA256 signature accepted''
      | SRejected \<Rightarrow> rejectionCaption t
      | SMalformed \<Rightarrow> ''schema rejected: missing event_id '' @ arrow @ '' 400''
      | SPublished \<Rightarrow> ''published to the webhooks exchange''
      | SInjected \<Rightarrow> ''injected straight into the exchange, no API, no signature''
      | SUnavailable \<Rightarrow> ''broker unreachable '' @ arrow @ '' 503''
      | SConsuming \<Rightarrow> ''worker consumed the message''
      | SProcessingDecision \<Rightarrow> ''checking event_id in PostgreSQL''
      | SProcessed \<Rightarrow> ''event_id is new '' @ arrow @ '' inserted in PostgreSQL''
      | SDuplicate \<Rightarrow> ''event_id already in PostgreSQL '' @ arrow @ '' discarded''
      | SRetry \<Rightarrow>
          (let attempts = nullish (se_attempts event) (Fin 1)
           in ''attempt '' @ number_string fraction attempts @ '' failed '' @ arrow @ '' retry in '' @ retryTier attempts)
      | SDead \<Rightarrow>
          (if tk_scenario t = Poison then ''unparseable, no event_id to retry '' @ arrow @ '' dead on arrival''
           else ''permanent failure '' @ arrow @ '' dead-lettered''))"

subsection \<open>The path of a token\<close>

definition is_retry_node :: "node_key \<Rightarrow> bool" where
  "is_retry_node n \<longleftrightarrow> n \<in> {NRetry5s, NRetry30s, NRetry2min}"

definition event_node :: "stage_event \<Rightarrow> node_key" where
  "event_node event =
     (if se_stage event = SRetry then retryNode (retryTier (nullish (se_attempts event) (Fin 1)))
      else sm_node (STAGE_META (se_stage event)))"

definition spliced :: "token \<Rightarrow> path_step list \<Rightarrow> node_key \<Rightarrow> path_step list" where
  "spliced t path n =
     (if path = [] then []
      else
        let prev = ps_node (last path); inherited = ps_color (last path); from = mainIndex prev; to = mainIndex n in
        if from \<noteq> - 1 \<and> from + 1 < to then
          map (\<lambda>k. \<lparr>ps_node = MAIN_ROW ! k, ps_color = inherited, ps_caption = infraCaption t (MAIN_ROW ! k)\<rparr>)
            [nat (from + 1)..<nat to]
        else if is_retry_node prev \<and> n = NPostgres then
          [\<lparr>ps_node = NWorker, ps_color = inherited, ps_caption = ''redelivered '' @ arrow @ '' reprocessing''\<rparr>]
        else [])"

definition add_event :: "(rat \<Rightarrow> string) \<Rightarrow> token \<Rightarrow> path_step list \<Rightarrow> stage_event \<Rightarrow> path_step list" where
  "add_event fraction t path event =
     (let n = event_node event;
          here = \<lparr>ps_node = n, ps_color = sm_color (STAGE_META (se_stage event)), ps_caption = captionFor fraction t event\<rparr>
      in if path \<noteq> [] \<and> ps_node (last path) = n then butlast path @ [here]
         else path @ spliced t path n @ [here])"

definition pathOf :: "(rat \<Rightarrow> string) \<Rightarrow> token \<Rightarrow> path_step list" where
  "pathOf fraction t =
     (let path = foldl (add_event fraction t) [] (tk_stages t) in
      if path \<noteq> [] then path
      else [\<lparr>ps_node = NPost, ps_color = sm_color (STAGE_META SReceived),
             ps_caption = captionFor fraction t \<lparr>se_stage = SReceived, se_ts = [], se_status = None, se_attempts = None\<rparr>\<rparr>])"

subsection \<open>The paced walk\<close>

record walk_entry =
  wk_index :: nat
  wk_at :: int

record pipeline =
  pl_walk :: "string \<rightharpoonup> walk_entry"
  pl_slow :: bool
  pl_pausedAt :: "int option"
  pl_arrival :: "string \<rightharpoonup> node_key \<times> int"
  pl_settled :: "string \<rightharpoonup> int"

definition initial_pipeline :: pipeline where
  "initial_pipeline =
     \<lparr>pl_walk = Map.empty, pl_slow = True, pl_pausedAt = None, pl_arrival = Map.empty, pl_settled = Map.empty\<rparr>"

definition paced :: "bool \<Rightarrow> pipeline \<Rightarrow> bool" where
  "paced reduce p \<longleftrightarrow> pl_slow p \<and> \<not> reduce"

definition togglePause :: "int \<Rightarrow> pipeline \<Rightarrow> pipeline" where
  "togglePause now p =
     (case pl_pausedAt p of
        None \<Rightarrow> p\<lparr>pl_pausedAt := Some now\<rparr>
      | Some since \<Rightarrow>
          p\<lparr>pl_walk := (\<lambda>i. map_option (\<lambda>e. e\<lparr>wk_at := wk_at e + (now - since)\<rparr>) (pl_walk p i)),
            pl_pausedAt := None\<rparr>)"

definition dwell :: "node_key \<Rightarrow> int" where
  "dwell n = nullish (RETRY_BOX_MS n) HOP_MS"

definition stepped :: "(rat \<Rightarrow> string) \<Rightarrow> bool \<Rightarrow> int \<Rightarrow> walk_entry option \<Rightarrow> token \<Rightarrow> walk_entry" where
  "stepped fraction forward stamp old t =
     (let target = length (pathOf fraction t) - 1; e = nullish old \<lparr>wk_index = 0, wk_at = stamp\<rparr>
      in \<lparr>wk_index = min (if forward then wk_index e + 1 else wk_index e - 1) target, wk_at = stamp\<rparr>)"

definition step_walk ::
  "(rat \<Rightarrow> string) \<Rightarrow> token list \<Rightarrow> string option \<Rightarrow> bool \<Rightarrow> int \<Rightarrow> pipeline \<Rightarrow> pipeline"
where
  "step_walk fraction tokens selectedId forward now p =
     (let stamp = nullish (pl_pausedAt p) now;
          selected = filter (\<lambda>t. Some (tk_correlationId t) = selectedId) tokens;
          stepping = (if selected \<noteq> [] then selected else tokens);
          p1 = (if \<not> forward \<and> pl_pausedAt p = None then p\<lparr>pl_pausedAt := Some stamp\<rparr> else p)
      in p1\<lparr>pl_walk := foldl (\<lambda>next t. next(tk_correlationId t \<mapsto>
                 stepped fraction forward stamp (pl_walk p (tk_correlationId t)) t)) (pl_walk p) stepping\<rparr>)"

definition ticked :: "(rat \<Rightarrow> string) \<Rightarrow> int \<Rightarrow> walk_entry option \<Rightarrow> token \<Rightarrow> walk_entry" where
  "ticked fraction nowMs old t =
     (let path = pathOf fraction t; target = length path - 1;
          e = nullish old \<lparr>wk_index = 0, wk_at = nowMs\<rparr>;
          index = min (wk_index e) target
      in if index < target \<and> dwell (ps_node (path ! index)) \<le> nowMs - wk_at e
         then \<lparr>wk_index = index + 1, wk_at = nowMs\<rparr>
         else \<lparr>wk_index = index, wk_at = wk_at e\<rparr>)"

definition walk_tick :: "(rat \<Rightarrow> string) \<Rightarrow> token list \<Rightarrow> int \<Rightarrow> (string \<rightharpoonup> walk_entry) \<Rightarrow> (string \<rightharpoonup> walk_entry)" where
  "walk_tick fraction tokens nowMs prev =
     foldl (\<lambda>next t. let i = tk_correlationId t; e = ticked fraction nowMs (prev i) t
                     in if prev i = Some e then next else next(i \<mapsto> e)) prev tokens"

text \<open>The interval runs only while the walk is paced and not paused.\<close>

definition interval_tick :: "(rat \<Rightarrow> string) \<Rightarrow> bool \<Rightarrow> token list \<Rightarrow> int \<Rightarrow> pipeline \<Rightarrow> pipeline" where
  "interval_tick fraction reduce tokens nowMs p =
     (if \<not> paced reduce p \<or> pl_pausedAt p \<noteq> None then p
      else p\<lparr>pl_walk := walk_tick fraction tokens nowMs (pl_walk p)\<rparr>)"

subsection \<open>A render\<close>

record visual =
  vi_node :: node_key
  vi_color :: string
  vi_caption :: string
  vi_atEnd :: bool

definition shown_index :: "(rat \<Rightarrow> string) \<Rightarrow> bool \<Rightarrow> pipeline \<Rightarrow> token \<Rightarrow> nat" where
  "shown_index fraction reduce p t =
     (let end = length (pathOf fraction t) - 1 in
      if paced reduce p
      then min (case pl_walk p (tk_correlationId t) of Some e \<Rightarrow> wk_index e | None \<Rightarrow> 0) end
      else end)"

definition visual_of :: "(rat \<Rightarrow> string) \<Rightarrow> bool \<Rightarrow> pipeline \<Rightarrow> token \<Rightarrow> visual" where
  "visual_of fraction reduce p t =
     (let path = pathOf fraction t; index = shown_index fraction reduce p t; st = path ! index
      in \<lparr>vi_node = ps_node st, vi_color = ps_color st, vi_caption = ps_caption st,
          vi_atEnd = (index = length path - 1)\<rparr>)"

definition note_arrival :: "(rat \<Rightarrow> string) \<Rightarrow> bool \<Rightarrow> int \<Rightarrow> pipeline \<Rightarrow> token \<Rightarrow> pipeline" where
  "note_arrival fraction reduce now p t =
     (let key = vi_node (visual_of fraction reduce p t); i = tk_correlationId t in
      if \<not> paced reduce p \<and> is_retry_node key \<and> map_option fst (pl_arrival p i) \<noteq> Some key
      then p\<lparr>pl_arrival := (pl_arrival p)(i \<mapsto> (key, now))\<rparr> else p)"

text \<open>The balls of one box, in the order of the tokens\<close>

definition group_at :: "(rat \<Rightarrow> string) \<Rightarrow> bool \<Rightarrow> pipeline \<Rightarrow> token list \<Rightarrow> node_key \<Rightarrow> token list" where
  "group_at fraction reduce p tokens key =
     filter (\<lambda>t. vi_node (visual_of fraction reduce p t) = key) tokens"

record position =
  po_x :: rat
  po_y :: rat
  po_token :: token
  po_visual :: visual
  po_captionRow :: nat

definition group_positions :: "(rat \<Rightarrow> string) \<Rightarrow> bool \<Rightarrow> pipeline \<Rightarrow> node_key \<Rightarrow> token list \<Rightarrow> position list" where
  "group_positions fraction reduce p key here =
     map (\<lambda>index.
       \<lparr>po_x = fst (the (nodeCenter key)) + (of_nat index - (of_nat (length here) - 1) / 2) * 16,
        po_y = snd (the (nodeCenter key)) - 34,
        po_token = here ! index, po_visual = visual_of fraction reduce p (here ! index), po_captionRow = index\<rparr>)
     [0..<length here]"

text \<open>The boxes in the order a token first stands in them, as the insertion order of the \<open>Map\<close>\<close>

fun remdups_first :: "'a list \<Rightarrow> 'a list" where
  "remdups_first [] = []"
| "remdups_first (x # xs) = x # remdups_first (filter (\<lambda>y. y \<noteq> x) xs)"

definition positions :: "(rat \<Rightarrow> string) \<Rightarrow> bool \<Rightarrow> pipeline \<Rightarrow> token list \<Rightarrow> position list" where
  "positions fraction reduce p tokens =
     concat (map (\<lambda>key. group_positions fraction reduce p key (group_at fraction reduce p tokens key))
               (remdups_first (map (\<lambda>t. vi_node (visual_of fraction reduce p t)) tokens)))"

definition elapsed :: "bool \<Rightarrow> int \<Rightarrow> pipeline \<Rightarrow> token \<Rightarrow> node_key \<Rightarrow> int option" where
  "elapsed reduce now p t n =
     (let i = tk_correlationId t;
          arrivedAt = (if paced reduce p then map_option wk_at (pl_walk p i)
                       else case pl_arrival p i of Some (k, stamp) \<Rightarrow> if k = n then Some stamp else None | None \<Rightarrow> None);
          clockNow = (if paced reduce p then nullish (pl_pausedAt p) now else now)
      in if is_retry_node n then map_option (\<lambda>stamp. max 0 ((clockNow - stamp) div 1000)) arrivedAt else None)"

definition show_caption :: "bool \<Rightarrow> int \<Rightarrow> pipeline \<Rightarrow> token \<Rightarrow> visual \<Rightarrow> bool" where
  "show_caption reduce now p t v =
     (let captionExpired =
            vi_atEnd v \<and> pl_pausedAt p = None
            \<and> (case pl_settled p (tk_correlationId t) of Some stamp \<Rightarrow> CAPTION_LINGER_MS \<le> now - stamp | None \<Rightarrow> False)
      in paced reduce p \<and> vi_caption v \<noteq> [] \<and> \<not> captionExpired)"

definition captionX :: "rat \<Rightarrow> string \<Rightarrow> rat" where
  "captionX x caption =
     (let halfW = of_nat (js_length caption) * 27 / 10
      in min (max x (halfW + 6)) (of_int VIEWBOX_W - halfW - 6) - x)"

definition captionY :: "nat \<Rightarrow> int" where
  "captionY row = - 30 - int row * 11"

text \<open>The tokens that have visibly settled, and the effect that signals them\<close>

definition settledNow :: "(rat \<Rightarrow> string) \<Rightarrow> bool \<Rightarrow> pipeline \<Rightarrow> token list \<Rightarrow> string list" where
  "settledNow fraction reduce p tokens =
     map tk_correlationId
       (filter (\<lambda>t. tk_terminal t \<and> vi_atEnd (visual_of fraction reduce p t)
                 \<and> pl_settled p (tk_correlationId t) = None) tokens)"

definition settle_effect :: "int \<Rightarrow> string list \<Rightarrow> pipeline \<Rightarrow> pipeline" where
  "settle_effect now ids p = foldl (\<lambda>q i. q\<lparr>pl_settled := (pl_settled q)(i \<mapsto> now)\<rparr>) p ids"

text \<open>A render with its effect: the new state and the ids passed to \<open>onSettled\<close>\<close>

definition render ::
  "(rat \<Rightarrow> string) \<Rightarrow> bool \<Rightarrow> int \<Rightarrow> token list \<Rightarrow> pipeline \<Rightarrow> pipeline \<times> string list"
where
  "render fraction reduce now tokens p =
     (let p1 = foldl (note_arrival fraction reduce now) p tokens; ids = settledNow fraction reduce p1 tokens
      in (settle_effect now ids p1, ids))"

subsection \<open>Playing\<close>

text \<open>The interval's ticks, one every \<open>TICK_MS\<close>, while nothing else happens\<close>

fun play :: "(rat \<Rightarrow> string) \<Rightarrow> bool \<Rightarrow> token list \<Rightarrow> nat \<Rightarrow> int \<Rightarrow> pipeline \<Rightarrow> pipeline" where
  "play fraction reduce tokens 0 now p = p"
| "play fraction reduce tokens (Suc n) now p =
     play fraction reduce tokens n (now + TICK_MS) (interval_tick fraction reduce tokens now p)"

text \<open>The same for one ball\<close>

fun ticks :: "(rat \<Rightarrow> string) \<Rightarrow> token \<Rightarrow> nat \<Rightarrow> int \<Rightarrow> walk_entry option \<Rightarrow> walk_entry option" where
  "ticks fraction t 0 now old = old"
| "ticks fraction t (Suc n) now old = ticks fraction t n (now + TICK_MS) (Some (ticked fraction now old t))"

text \<open>What the user and the clock do to the drawing\<close>

datatype view_event =
    Tick "token list" int
  | StepClicked "token list" "string option" bool int
  | PauseClicked int
  | PlaybackClicked bool
  | Rendered "token list" int

fun view_step :: "(rat \<Rightarrow> string) \<Rightarrow> bool \<Rightarrow> view_event \<Rightarrow> pipeline \<Rightarrow> pipeline \<times> string list" where
  "view_step fraction reduce (Tick tokens now) p = (interval_tick fraction reduce tokens now p, [])"
| "view_step fraction reduce (StepClicked tokens selectedId forward now) p =
     (step_walk fraction tokens selectedId forward now p, [])"
| "view_step fraction reduce (PauseClicked now) p = (togglePause now p, [])"
| "view_step fraction reduce (PlaybackClicked slow) p = (p\<lparr>pl_slow := slow\<rparr>, [])"
| "view_step fraction reduce (Rendered tokens now) p = render fraction reduce now tokens p"

text \<open>The ids a sequence of events signals\<close>

fun signals :: "(rat \<Rightarrow> string) \<Rightarrow> bool \<Rightarrow> view_event list \<Rightarrow> pipeline \<Rightarrow> string list" where
  "signals fraction reduce [] p = []"
| "signals fraction reduce (e # es) p =
     (case view_step fraction reduce e p of (p', ids) \<Rightarrow> ids @ signals fraction reduce es p')"

subsection \<open>Paths\<close>

text \<open>From one box to the next the walk stays on the edges of the main row: it never skips a box of it.\<close>

definition row_step :: "node_key \<Rightarrow> node_key \<Rightarrow> bool" where
  "row_step a b \<longleftrightarrow> a \<noteq> b \<and> (0 \<le> mainIndex a \<and> mainIndex a < mainIndex b \<longrightarrow> mainIndex b = mainIndex a + 1)"

lemma mainIndex_simps [simp]:
  "mainIndex NPost = 0" "mainIndex NGuard = 1" "mainIndex NValidate = 2" "mainIndex NExchange = 3"
  "mainIndex NWork = 4" "mainIndex NWorker = 5" "mainIndex NPostgres = 6"
  "mainIndex NRetry5s = - 1" "mainIndex NRetry30s = - 1" "mainIndex NRetry2min = - 1" "mainIndex NDlq = - 1"
  by (simp_all add: mainIndex_def MAIN_ROW_def)

lemma spliced_row:
  assumes "ps_node (last path) \<noteq> n" and "path \<noteq> []"
  shows "successively row_step (ps_node (last path) # map ps_node (spliced t path n) @ [n])"
proof -
  have upt: "[Suc 0..<2] = [1::nat]" "[Suc 0..<3] = [1::nat,2]" "[Suc 0..<4] = [1::nat,2,3]" "[Suc 0..<5] = [1::nat,2,3,4]"
    "[Suc 0..<6] = [1::nat,2,3,4,5]" "[2..<3] = [2::nat]" "[2..<4] = [2::nat,3]" "[2..<5] = [2::nat,3,4]"
    "[2..<6] = [2::nat,3,4,5]" "[3..<4] = [3::nat]" "[3..<5] = [3::nat,4]" "[3..<6] = [3::nat,4,5]"
    "[4..<5] = [4::nat]" "[4..<6] = [4::nat,5]" "[5..<6] = [5::nat]"
    by (simp_all add: upt_rec)
  show ?thesis using assms
    by (cases "ps_node (last path)"; cases n)
       (simp_all add: spliced_def row_step_def Let_def is_retry_node_def MAIN_ROW_def upt)
qed

lemma add_event_row:
  assumes "successively row_step (map ps_node path)"
  shows "successively row_step (map ps_node (add_event fraction t path e))"
proof (cases "path = []")
  case True
  then show ?thesis by (simp add: add_event_def spliced_def Let_def)
next
  case False
  then obtain front x where path: "path = front @ [x]" by (metis append_butlast_last_id)
  show ?thesis
  proof (cases "ps_node x = event_node e")
    case True
    with assms path show ?thesis by (simp add: add_event_def Let_def)
  next
    case False
    with spliced_row [of path "event_node e" t] path assms show ?thesis
      by (auto simp: add_event_def Let_def successively_append_iff)
  qed
qed

lemma add_event_last:
  "add_event fraction t path e \<noteq> []" "ps_node (last (add_event fraction t path e)) = event_node e"
  "ps_color (last (add_event fraction t path e)) = sm_color (STAGE_META (se_stage e))"
  by (simp_all add: add_event_def Let_def)

lemma path_events:
  assumes "successively row_step (map ps_node path)"
  shows "successively row_step (map ps_node (foldl (add_event fraction t) path es))"
    and "es \<noteq> [] \<Longrightarrow> foldl (add_event fraction t) path es \<noteq> []
       \<and> ps_node (last (foldl (add_event fraction t) path es)) = event_node (last es)
       \<and> ps_color (last (foldl (add_event fraction t) path es)) = sm_color (STAGE_META (se_stage (last es)))"
  using assms by (induction es arbitrary: path rule: rev_induct) (simp_all add: add_event_row add_event_last)

lemma pathOf_not_Nil [simp]: "pathOf fraction t \<noteq> []"
  by (simp add: pathOf_def Let_def)

lemma path_ends:
  assumes "token_ok collate t"
  shows "ps_color (last (pathOf fraction t)) = sm_color (STAGE_META (tk_currentStage t))"
    and "ps_node (last (pathOf fraction t)) = event_node (last (tk_stages t))"
proof -
  have "tk_stages t \<noteq> []" "tk_currentStage t = se_stage (last (tk_stages t))"
    using assms by (simp_all add: token_ok_def)
  with path_events [where path = "[]" and fraction = fraction and t = t and es = "tk_stages t"]
  show "ps_color (last (pathOf fraction t)) = sm_color (STAGE_META (tk_currentStage t))"
    and "ps_node (last (pathOf fraction t)) = event_node (last (tk_stages t))"
    by (auto simp: pathOf_def Let_def)
qed

lemma path_row: "successively row_step (map ps_node (pathOf fraction t))"
  using path_events(1) [where path = "[]"] by (simp add: pathOf_def Let_def)


definition sample_token :: "stage list \<Rightarrow> token" where
  "sample_token sts =
     (new_token (started_by happy_scenario (plain_spec ''1'' None EVENT_TYPE (JObj []) ''Happy path'') []))
       \<lparr>tk_stages := map (\<lambda>st. \<lparr>se_stage = st, se_ts = [], se_status = None, se_attempts = None\<rparr>) sts,
        tk_currentStage := last sts, tk_terminal := isTerminal (last sts)\<rparr>"

lemma sample_token_fields [simp]:
  "tk_correlationId (sample_token sts) = ''1''" "map se_stage (tk_stages (sample_token sts)) = sts"
  "tk_terminal (sample_token sts) = isTerminal (last sts)"
  by (simp_all add: sample_token_def new_token_def started_by_def Let_def comp_def)


subsection \<open>The walk arrives\<close>

text \<open>How many ticks a ball stands in a box\<close>

definition box_ticks :: "node_key \<Rightarrow> nat" where
  "box_ticks n = nat ((dwell n + TICK_MS - 1) div TICK_MS)"

definition walk_ticks :: "(rat \<Rightarrow> string) \<Rightarrow> token \<Rightarrow> nat" where
  "walk_ticks fraction t = sum_list (map (\<lambda>st. box_ticks (ps_node st)) (butlast (pathOf fraction t)))"

lemma box_ticks_dwell: "dwell n \<le> TICK_MS * int (box_ticks n)" "0 < box_ticks n" "0 < dwell n"
  by (cases n; simp add: box_ticks_def dwell_def TICK_MS_def HOP_MS_def)+

lemma ticks_add: "ticks fraction t (m + n) now old = ticks fraction t n (now + TICK_MS * int m) (ticks fraction t m now old)"
  by (induction m arbitrary: now old) (simp_all add: algebra_simps)

text \<open>The end of the path\<close>

definition goal :: "(rat \<Rightarrow> string) \<Rightarrow> token \<Rightarrow> nat" where
  "goal fraction t = length (pathOf fraction t) - 1"

lemma ticked_simps:
  "wk_index e = goal fraction t \<Longrightarrow> ticked fraction now (Some e) t = e"
  "wk_index e < goal fraction t \<Longrightarrow> now - wk_at e < dwell (ps_node (pathOf fraction t ! wk_index e)) \<Longrightarrow>
     ticked fraction now (Some e) t = e"
  "wk_index e < goal fraction t \<Longrightarrow> dwell (ps_node (pathOf fraction t ! wk_index e)) \<le> now - wk_at e \<Longrightarrow>
     ticked fraction now (Some e) t = \<lparr>wk_index = wk_index e + 1, wk_at = now\<rparr>"
  by (simp_all add: ticked_def goal_def Let_def)

lemma ticks_arrived: "wk_index e = goal fraction t \<Longrightarrow> ticks fraction t n now (Some e) = Some e"
  by (induction n arbitrary: now) (simp_all add: ticked_simps)

lemma ticks_stand:
  assumes "wk_index e < goal fraction t"
    and "\<And>j. j < n \<Longrightarrow> now + TICK_MS * int j - wk_at e < dwell (ps_node (pathOf fraction t ! wk_index e))"
  shows "ticks fraction t n now (Some e) = Some e"
  using assms(2)
proof (induction n arbitrary: now)
  case (Suc n)
  have "now + TICK_MS + TICK_MS * int j - wk_at e < dwell (ps_node (pathOf fraction t ! wk_index e))" if "j < n" for j
    using Suc.prems [of "Suc j"] that by (simp add: algebra_simps)
  with Suc.IH Suc.prems [of 0] assms(1) show ?case by (simp add: ticked_simps)
qed simp

text \<open>A ball whose last tick was before now leaves its box within the box's ticks.\<close>

lemma ticks_leave:
  assumes "wk_index e < goal fraction t" and "wk_at e + TICK_MS \<le> now"
  obtains m where "m \<le> box_ticks (ps_node (pathOf fraction t ! wk_index e))"
    and "ticks fraction t m now (Some e) = Some \<lparr>wk_index = wk_index e + 1, wk_at = now + TICK_MS * int m - TICK_MS\<rparr>"
proof -
  let ?d = "dwell (ps_node (pathOf fraction t ! wk_index e))"
  let ?b = "box_ticks (ps_node (pathOf fraction t ! wk_index e))"
  let ?P = "\<lambda>j. ?d \<le> now + TICK_MS * int j - wk_at e"
  have last: "?P (?b - 1)"
  proof -
    have "TICK_MS * int (?b - 1) = TICK_MS * int ?b - TICK_MS"
      using box_ticks_dwell(2) [of "ps_node (pathOf fraction t ! wk_index e)"] by (simp add: of_nat_diff algebra_simps)
    with box_ticks_dwell(1) [of "ps_node (pathOf fraction t ! wk_index e)"] assms(2) show ?thesis by linarith
  qed
  define j where "j = (LEAST j. ?P j)"
  have j: "?P j" "j \<le> ?b - 1" "\<And>i. i < j \<Longrightarrow> \<not> ?P i"
    using LeastI [of ?P, OF last] Least_le [of ?P, OF last] not_less_Least [of _ ?P] by (auto simp: j_def)
  have "ticks fraction t j now (Some e) = Some e" by (rule ticks_stand [OF assms(1)]) (use j(3) in force)
  then have "ticks fraction t (j + 1) now (Some e) = Some \<lparr>wk_index = wk_index e + 1, wk_at = now + TICK_MS * int j\<rparr>"
    using assms(1) j(1) by (simp only: ticks_add) (simp add: ticked_simps)
  moreover have "j + 1 \<le> ?b" using j(2) box_ticks_dwell(2) [of "ps_node (pathOf fraction t ! wk_index e)"] by linarith
  ultimately show ?thesis using that [of "j + 1"] by (simp add: algebra_simps)
qed

lemma ticks_reach_goal:
  assumes "wk_index e \<le> goal fraction t" and "wk_at e + TICK_MS \<le> now"
    and "sum_list (map (\<lambda>st. box_ticks (ps_node st)) (drop (wk_index e) (butlast (pathOf fraction t)))) \<le> n"
  shows "\<exists>e'. ticks fraction t n now (Some e) = Some e' \<and> wk_index e' = goal fraction t"
  using assms
proof (induction "goal fraction t - wk_index e" arbitrary: e now n rule: less_induct)
  case less
  show ?case
  proof (cases "wk_index e = goal fraction t")
    case True
    with ticks_arrived show ?thesis by blast
  next
    case False
    with less.prems(1) have lt: "wk_index e < goal fraction t" by simp
    let ?boxes = "butlast (pathOf fraction t)"
    obtain m where m: "m \<le> box_ticks (ps_node (pathOf fraction t ! wk_index e))"
      "ticks fraction t m now (Some e) = Some \<lparr>wk_index = wk_index e + 1, wk_at = now + TICK_MS * int m - TICK_MS\<rparr>"
      using ticks_leave [OF lt less.prems(2)] .
    have "drop (wk_index e) ?boxes = (pathOf fraction t ! wk_index e) # drop (wk_index e + 1) ?boxes"
      using lt by (simp add: goal_def Cons_nth_drop_Suc [symmetric] nth_butlast)
    with less.prems(3) m(1)
    have n: "sum_list (map (\<lambda>st. box_ticks (ps_node st)) (drop (wk_index e + 1) ?boxes)) \<le> n - m" "m \<le> n" by simp_all
    let ?e = "\<lparr>wk_index = wk_index e + 1, wk_at = now + TICK_MS * int m - TICK_MS\<rparr>"
    have "\<exists>e'. ticks fraction t (n - m) (now + TICK_MS * int m) (Some ?e) = Some e' \<and> wk_index e' = goal fraction t"
      by (rule less.hyps) (use lt n in simp_all)
    moreover have "ticks fraction t n now (Some e) = ticks fraction t (n - m) (now + TICK_MS * int m) (Some ?e)"
      using ticks_add [of fraction t m "n - m" now "Some e"] m(2) n(2) by simp
    ultimately show ?thesis by simp
  qed
qed

text \<open>From any earlier state of the walk\<close>

lemma walk_arrives:
  assumes "\<And>e. old = Some e \<Longrightarrow> wk_at e \<le> now" and "walk_ticks fraction t < n"
  shows "\<exists>e. ticks fraction t n now old = Some e \<and> wk_index e = goal fraction t"
proof -
  obtain m where n: "n = Suc m" "walk_ticks fraction t \<le> m" using assms(2) by (cases n) auto
  let ?e = "ticked fraction now old t"
  have "wk_index ?e \<le> goal fraction t" "wk_at ?e \<le> now"
    using assms(1) by (cases old; auto simp: ticked_def goal_def Let_def)+
  moreover have "sum_list (map f (drop k xs)) \<le> sum_list (map f xs)" for f :: "path_step \<Rightarrow> nat" and k xs
    by (induction xs arbitrary: k) (auto simp: drop_Cons split: nat.split intro: trans_le_add2)
  then have "sum_list (map (\<lambda>st. box_ticks (ps_node st)) (drop (wk_index ?e) (butlast (pathOf fraction t)))) \<le> m"
    using n(2) by (auto simp: walk_ticks_def intro: le_trans)
  ultimately show ?thesis using ticks_reach_goal [of ?e fraction t "now + TICK_MS" m] n(1) by simp
qed

subsection \<open>What the store hears\<close>

lemma walk_tick_one:
  assumes "distinct (map tk_correlationId tokens)" and "t \<in> set tokens"
  shows "walk_tick fraction tokens now prev (tk_correlationId t) = Some (ticked fraction now (prev (tk_correlationId t)) t)"
proof -
  let ?f = "\<lambda>next t. let i = tk_correlationId t; e = ticked fraction now (prev i) t
                     in if prev i = Some e then next else next(i \<mapsto> e)"
  have other: "foldl ?f m ts i = m i" if "i \<notin> tk_correlationId ` set ts" for m ts i
    using that by (induction ts arbitrary: m) (auto simp: Let_def)
  have "foldl ?f m tokens (tk_correlationId t) = Some (ticked fraction now (prev (tk_correlationId t)) t)"
    if "m (tk_correlationId t) = prev (tk_correlationId t)" for m
    using assms that
  proof (induction tokens arbitrary: m)
    case (Cons u us)
    show ?case
    proof (cases "u = t")
      case True
      with Cons.prems other [of "tk_correlationId t" us] show ?thesis by (auto simp: Let_def)
    next
      case False
      with Cons.prems have "t \<in> set us" "tk_correlationId u \<noteq> tk_correlationId t" by (auto simp: image_iff)
      with Cons show ?thesis by (simp add: Let_def)
    qed
  qed simp
  then show ?thesis by (simp add: walk_tick_def)
qed

lemma play_walk:
  assumes "distinct (map tk_correlationId tokens)" and "t \<in> set tokens" and "paced reduce p" and "pl_pausedAt p = None"
  shows "pl_walk (play fraction reduce tokens n now p) (tk_correlationId t)
           = ticks fraction t n now (pl_walk p (tk_correlationId t))
       \<and> paced reduce (play fraction reduce tokens n now p)
       \<and> pl_settled (play fraction reduce tokens n now p) = pl_settled p"
  using assms(3,4)
proof (induction n arbitrary: now p)
  case (Suc n)
  then show ?case by (simp add: interval_tick_def paced_def walk_tick_one [OF assms(1,2)])
qed simp

lemma note_arrivals:
  "pl_walk (foldl (note_arrival fraction reduce now) p tokens) = pl_walk p"
  "pl_slow (foldl (note_arrival fraction reduce now) p tokens) = pl_slow p"
  "pl_settled (foldl (note_arrival fraction reduce now) p tokens) = pl_settled p"
  by (induction tokens arbitrary: p) (simp_all add: note_arrival_def Let_def)

lemma visual_of_cong:
  "pl_walk q = pl_walk p \<Longrightarrow> pl_slow q = pl_slow p \<Longrightarrow> visual_of fraction reduce q t = visual_of fraction reduce p t"
  by (simp add: visual_of_def shown_index_def paced_def Let_def)

lemma render_ids: "snd (render fraction reduce now tokens p) = settledNow fraction reduce p tokens"
  by (simp add: render_def Let_def settledNow_def note_arrivals visual_of_cong [OF note_arrivals(1,2)])

lemma settle_effect_settled:
  "pl_settled (settle_effect now ids p) = (\<lambda>i. if i \<in> set ids then Some now else pl_settled p i)"
  unfolding settle_effect_def by (induction ids arbitrary: p) (auto simp: fun_eq_iff)

lemma render_settled:
  "pl_settled (fst (render fraction reduce now tokens p)) =
     (\<lambda>i. if i \<in> set (settledNow fraction reduce p tokens) then Some now else pl_settled p i)"
  using render_ids [of fraction reduce now tokens p]
  by (auto simp: render_def Let_def settle_effect_settled note_arrivals)

text \<open>C34. A settled token is signalled to the store: with the slow walk playing, once a token has reached a terminal
  stage and its history stays as it is, then after \<open>walk_ticks\<close> ticks and one more of the 200 ms interval
  (boxes hold 4 ticks, the retry boxes 25, 150 and 600), wherever its ball stood before, the ball is at the end
  of its path, and the next render passes its correlation id to \<open>onSettled\<close> unless it did so before.\<close>

theorem settled_token_is_signalled:
  assumes "distinct (map tk_correlationId tokens)" and "t \<in> set tokens" and "tk_terminal t"
    and "paced reduce p" and "pl_pausedAt p = None" and "pl_settled p (tk_correlationId t) = None"
    and "\<And>e. pl_walk p (tk_correlationId t) = Some e \<Longrightarrow> wk_at e \<le> now"
    and "walk_ticks fraction t < n"
  shows "tk_correlationId t \<in> set (snd (render fraction reduce later tokens (play fraction reduce tokens n now p)))"
proof -
  let ?p = "play fraction reduce tokens n now p"
  obtain e where "ticks fraction t n now (pl_walk p (tk_correlationId t)) = Some e" "wk_index e = goal fraction t"
    using walk_arrives [OF assms(7,8)] by blast
  with play_walk [OF assms(1,2,4,5), of fraction n now]
  have "vi_atEnd (visual_of fraction reduce ?p t)" "pl_settled ?p (tk_correlationId t) = None"
    using assms(6) by (simp_all add: visual_of_def shown_index_def goal_def Let_def)
  with assms(2,3) show ?thesis by (auto simp: render_ids settledNow_def)
qed

text \<open>A token that went through every box without a retry\<close>

definition straight :: "stage list" where
  "straight = [SReceived, SSignatureVerified, SPublished, SConsuming, SProcessingDecision, SProcessed]"

text \<open>The signal is in time: an event that was accepted and processed at the first attempt walks seven boxes, which
  takes 25 ticks (5 s), well before the 15 s after which the duplicate scenario stops waiting.\<close>

lemma straight_walk_in_time:
  assumes "map se_stage (tk_stages t) = straight"
  shows "walk_ticks fraction t = 24" and "TICK_MS * int (walk_ticks fraction t + 1) < SETTLE_TIMEOUT_MS"
proof -
  obtain a b c d e f where es: "tk_stages t = [a, b, c, d, e, f]" "se_stage a = SReceived" "se_stage b = SSignatureVerified"
    "se_stage c = SPublished" "se_stage d = SConsuming" "se_stage e = SProcessingDecision" "se_stage f = SProcessed"
    using assms by (auto simp: straight_def map_eq_Cons_conv)
  have "map ps_node (pathOf fraction t) = MAIN_ROW"
    by (simp add: pathOf_def es add_event_def spliced_def event_node_def meta_def is_retry_node_def MAIN_ROW_def upt_rec)
  then have "map ps_node (butlast (pathOf fraction t)) = butlast MAIN_ROW" by (simp add: map_butlast)
  moreover have "walk_ticks fraction t = sum_list (map box_ticks (map ps_node (butlast (pathOf fraction t))))"
    by (simp add: walk_ticks_def comp_def)
  ultimately show "walk_ticks fraction t = 24"
    by (simp add: MAIN_ROW_def box_ticks_def dwell_def TICK_MS_def HOP_MS_def)
  then show "TICK_MS * int (walk_ticks fraction t + 1) < SETTLE_TIMEOUT_MS" by (simp add: TICK_MS_def SETTLE_TIMEOUT_MS_def)
qed

lemma view_ids: "i \<in> set (snd (view_step fraction reduce e p)) \<Longrightarrow> pl_settled p i = None"
  by (cases e) (auto simp: render_ids settledNow_def)

theorem settled_token_is_signalled_witness:
  "''1'' \<in> set (snd (render (\<lambda>_. []) False 5000 [sample_token straight]
                        (play (\<lambda>_. []) False [sample_token straight] 25 0 initial_pipeline)))"
proof -
  let ?t = "sample_token straight"
  have "walk_ticks (\<lambda>_. []) ?t < 25" using straight_walk_in_time(1) [of ?t] by simp
  moreover have "tk_terminal ?t" by (simp add: straight_def isTerminal_def TERMINAL_STAGES_def)
  ultimately show ?thesis
    using settled_token_is_signalled [of "[?t]" ?t False initial_pipeline 0 "\<lambda>_. []" 25 5000]
    by (simp add: paced_def initial_pipeline_def)
qed

text \<open>No event settles twice on the dashboard: in any sequence of ticks, steps, pauses, playback changes and renders,
  with tokens arriving and changing in between, no correlation id is passed to \<open>onSettled\<close> a second time.\<close>

theorem signalled_once:
  assumes "\<forall>tokens now. Rendered tokens now \<in> set es \<longrightarrow> distinct (map tk_correlationId tokens)"
  shows "distinct (signals fraction reduce es p)"
proof -
  have keeps: "pl_settled (fst (view_step fraction reduce e p)) =
      (\<lambda>i. if i \<in> set (snd (view_step fraction reduce e p)) then Some (case e of Rendered ts now \<Rightarrow> now | _ \<Rightarrow> 0) else pl_settled p i)"
    for e p
  proof (cases e)
    case (Rendered ts now)
    then show ?thesis by (simp add: render_settled render_ids fun_eq_iff cong: if_cong)
  qed (auto simp: interval_tick_def step_walk_def togglePause_def Let_def split: option.split)
  have new: "i \<in> set (signals fraction reduce es p) \<Longrightarrow> pl_settled p i = None" for i es p
  proof (induction es arbitrary: p)
    case (Cons e es)
    obtain p' ids where st: "view_step fraction reduce e p = (p', ids)" by fastforce
    have "i \<in> set ids \<Longrightarrow> pl_settled p i = None" using view_ids [of i fraction reduce e p] st by simp
    moreover have "pl_settled p i = None" if "i \<notin> set ids"
      using Cons.IH [of p'] Cons.prems st keeps [of e p] that by simp
    ultimately show ?case by blast
  qed simp
  show ?thesis using assms
  proof (induction es arbitrary: p)
    case (Cons e es)
    obtain p' ids where st: "view_step fraction reduce e p = (p', ids)" by fastforce
    have "distinct ids"
    proof (cases e)
      case (Rendered ts now)
      with st have "ids = settledNow fraction reduce p ts" using render_ids [of fraction reduce now ts p] by simp
      with Cons.prems Rendered show ?thesis
        by (auto simp: settledNow_def distinct_map intro: inj_on_subset)
    qed (use st in auto)
    moreover have "i \<notin> set (signals fraction reduce es p')" if "i \<in> set ids" for i
      using new [of i es p'] keeps [of e p] st that by auto
    ultimately show ?case using Cons st by auto
  qed simp
qed

theorem signalled_once_witness:
  "distinct (signals (\<lambda>_. []) False
     [Rendered [sample_token straight] 0, PlaybackClicked False, Rendered [sample_token straight] 100,
      PlaybackClicked True, Tick [sample_token straight] 200, Rendered [sample_token straight] 200] initial_pipeline)"
  by (rule signalled_once) simp

end
