(* ===== verification/WebPanels.thy ===== *)
theory WebPanels
  imports WebPipeline
begin

text \<open>
  What the rest of the dashboard computes around its markup, \<open>src/web/src/App.tsx\<close> and
  \<open>src/web/src/components/\<close>: the application's derived values and handlers, the dead-letter panel with its
  calls, the texts and colours of the other panels, and the asynchronous signature of \<open>SignaturePanel.tsx\<close>.
\<close>

subsection \<open>The application (\<open>App.tsx\<close>)\<close>

definition EXAMPLE_TIMESTAMP :: string where "EXAMPLE_TIMESTAMP = ''1700000000''"

definition EXAMPLE_BODY :: string where
  "EXAMPLE_BODY = stringify (JObj
     [(''event_id'', JStr ''evt_demo''), (''event_type'', JStr ''order.created''),
      (''payload'', JObj [(''amount'', JNum (Fin (of_int 4200))), (''currency'', JStr ''BRL'')])])"

record app =
  ap_selectedId :: "string option"
  ap_busy :: bool

definition initial_app :: app where
  "initial_app = \<lparr>ap_selectedId = None, ap_busy = False\<rparr>"

text \<open>\<open>None\<close> when an id of the order has no token: an \<open>undefined\<close> in the list would throw in every child.\<close>

definition app_tokens :: "demo_state \<Rightarrow> token list option" where
  "app_tokens d = those (map (ds_tokens d) (ds_order d))"

definition latest_token :: "token list \<Rightarrow> token option" where
  "latest_token tokens = (if tokens \<noteq> [] then Some (last tokens) else None)"

text \<open>An empty selection is falsy; an id from a dead letter can hit what the plain object inherits.\<close>

definition selected_token :: "demo_state \<Rightarrow> string option \<Rightarrow> slot" where
  "selected_token d selectedId = (if truthy_str selectedId then lookup_token d (the selectedId) else Missing)"

definition groupSize :: "slot \<Rightarrow> token list \<Rightarrow> nat" where
  "groupSize selection tokens =
     (case selection of
        Own t \<Rightarrow> if truthy_str (tk_eventId t) then length (filter (\<lambda>u. tk_eventId u = tk_eventId t) tokens) else 1
      | _ \<Rightarrow> 1)"

definition signed_sample :: "token option \<Rightarrow> string \<times> string" where
  "signed_sample latest =
     (case latest of
        Some t \<Rightarrow> if truthy_str (tk_rawBody t) then (nullish (tk_signedTimestamp t) [], the (tk_rawBody t))
                  else (EXAMPLE_TIMESTAMP, EXAMPLE_BODY)
      | None \<Rightarrow> (EXAMPLE_TIMESTAMP, EXAMPLE_BODY))"

text \<open>\<open>handleRun\<close> around its \<open>await\<close>; the buttons are disabled while \<open>busy\<close>.\<close>

definition run_begin :: "app \<Rightarrow> app option" where
  "run_begin a = (if ap_busy a then None else Some (a\<lparr>ap_busy := True\<rparr>))"

definition run_end :: "app \<Rightarrow> app" where
  "run_end a = a\<lparr>ap_busy := False\<rparr>"

definition handleReset :: "(string \<Rightarrow> string \<Rightarrow> int) \<Rightarrow> app \<Rightarrow> store \<Rightarrow> app \<times> store" where
  "handleReset collate a s = (a\<lparr>ap_selectedId := None\<rparr>, reset_store collate s)"

definition handleSelect :: "string \<Rightarrow> app \<Rightarrow> app" where
  "handleSelect i a = a\<lparr>ap_selectedId := (if ap_selectedId a = Some i then None else Some i)\<rparr>"

definition unknown_note :: "nat \<Rightarrow> string option" where
  "unknown_note n =
     (if 0 < n then Some (''ignored '' @ digits n @ '' telemetry envelope'' @ (if 1 < n then ''s'' else []) @
        '' of an unsupported version'') else None)"

subsection \<open>Text of numbers and values\<close>

text \<open>\<open>x.toFixed(0)\<close> and \<open>x.toFixed(2)\<close>: the nearest, the larger of two as near\<close>

definition nearest :: "rat \<Rightarrow> nat" where
  "nearest q = nat \<lfloor>q + 1 / 2\<rfloor>"

definition toFixed0 :: "rat \<Rightarrow> string" where
  "toFixed0 q = (if q < 0 then CHR ''-'' # digits (nearest (- q)) else digits (nearest q))"

definition toFixed2 :: "rat \<Rightarrow> string" where
  "toFixed2 q =
     (let n = nearest (100 * \<bar>q\<bar>); t = digits (n div 100) @ ''.'' @ [digit_char (n div 10 mod 10), digit_char (n mod 10)]
      in if q < 0 then CHR ''-'' # t else t)"

text \<open>\<open>JSON.stringify(j, null, 2)\<close>; \<open>None\<close> for a fraction, whose digits are not modelled\<close>

definition indented :: "nat \<Rightarrow> string \<Rightarrow> string" where
  "indented n s = CHR 0x0A # replicate n (CHR '' '') @ s"

fun json_pretty :: "nat \<Rightarrow> json \<Rightarrow> string option" where
  "json_pretty n (JArr js) =
     (if js = [] then Some ''[]''
      else map_option (\<lambda>ts. ''['' @ js_join '','' (map (indented (n + 2)) ts) @ indented n '']'')
             (those (map (json_pretty (n + 2)) js)))"
| "json_pretty n (JObj kvs) =
     (if kvs = [] then Some ''{}''
      else map_option (\<lambda>ts. ''{'' @ js_join '','' (map (indented (n + 2)) ts) @ indented n ''}'')
             (those (map (\<lambda>(k, v). map_option (\<lambda>t. quote k @ '': '' @ t) (json_pretty (n + 2) v)) kvs)))"
| "json_pretty n j = json_text j"

subsection \<open>Dead letters (\<open>DlqPanel.tsx\<close>)\<close>

record dlq_entry =
  de_id :: string
  de_messageId :: "string option"
  de_correlationId :: string
  de_eventId :: "string option"
  de_reason :: string
  de_attempts :: jsnum
  de_payload :: "string option"
  de_createdAt :: string
  de_replayedAt :: "string option"

definition formatPayload :: "string option \<Rightarrow> string option" where
  "formatPayload payload =
     (case payload of
        None \<Rightarrow> Some ''(no payload captured)''
      | Some p \<Rightarrow> (case json_parse p of Some j \<Rightarrow> json_pretty 0 j | None \<Rightarrow> Some p))"

definition PANEL_MAX_ATTEMPTS :: int where "PANEL_MAX_ATTEMPTS = 4"

text \<open>
  \<open>toLowerCase()\<close> as far as \<open>includes\<close> of an ASCII text can see: ASCII letters, and the two characters
  outside ASCII whose lower case has an ASCII letter (U+0130 and U+212A).
\<close>

fun toLowerCase :: "string \<Rightarrow> string" where
  "toLowerCase [] = []"
| "toLowerCase (c # s) =
     (if s \<noteq> [] \<and> c = CHR 0xC4 \<and> hd s = CHR 0xB0 then CHR ''i'' # CHR 0xCC # CHR 0x87 # toLowerCase (tl s)
      else if take 2 s = [CHR 0x84, CHR 0xAA] \<and> c = CHR 0xE2 then CHR ''k'' # toLowerCase (drop 2 s)
      else (if 65 \<le> code c \<and> code c \<le> 90 then char_of (code c + 32) else c) # toLowerCase s)"

record diagnosis =
  dg_badge :: string
  dg_color :: string
  dg_summary :: string

definition diagnose :: "(rat \<Rightarrow> string) \<Rightarrow> dlq_entry \<Rightarrow> diagnosis" where
  "diagnose fraction e =
     (let reason = toLowerCase (de_reason e) in
      if js_includes reason ''unparseable'' \<or> js_includes reason ''missing event_id'' then
        \<lparr>dg_badge = ''poison message'', dg_color = ''var(--color-stage-dead)'',
         dg_summary = ''The body could not even be parsed into an event, so there was nothing to retry.''\<rparr>
      else if js_includes reason ''permanent'' then
        \<lparr>dg_badge = ''permanent error'', dg_color = ''var(--color-stage-dead)'',
         dg_summary = ''The handler flagged this failure as unfixable, so it skipped the retry ladder and came straight here.''\<rparr>
      else if js_less (Fin 1) (de_attempts e) \<or> js_includes reason ''transient'' \<or> js_includes reason ''attempt'' then
        \<lparr>dg_badge = ''retries exhausted'', dg_color = ''var(--color-stage-retry)'',
         dg_summary = ''Failed '' @ number_string fraction (de_attempts e) @ '' times across the retry ladder (5s, 30s, 2min) and gave up.''\<rparr>
      else
        \<lparr>dg_badge = ''unknown'', dg_color = ''var(--text-faint)'',
         dg_summary = ''Dead-lettered without a reason the worker recognizes.''\<rparr>)"

text \<open>Which of the dots are lit\<close>

definition attempt_dots :: "jsnum \<Rightarrow> bool list" where
  "attempt_dots attempts = map (\<lambda>slot. js_less (Fin (of_int slot)) attempts) [0..PANEL_MAX_ATTEMPTS - 1]"

definition attempt_title :: "(rat \<Rightarrow> string) \<Rightarrow> jsnum \<Rightarrow> string" where
  "attempt_title fraction attempts = number_string fraction attempts @ '' of '' @ int_to_string PANEL_MAX_ATTEMPTS @ '' attempts used''"

text \<open>\<open>as DlqPage\<close>: the fields of an entry as the server's JSON has them; a missing number compares as \<open>NaN\<close> does\<close>

definition read_entry :: "json \<Rightarrow> dlq_entry" where
  "read_entry j =
     \<lparr>de_id = the_string (field j ''id''), de_messageId = as_string (field j ''messageId''),
      de_correlationId = the_string (field j ''correlationId''), de_eventId = as_string (field j ''eventId''),
      de_reason = the_string (field j ''reason''),
      de_attempts = nullish (as_number (field j ''attempts'')) NaN,
      de_payload = as_string (field j ''payload''), de_createdAt = the_string (field j ''createdAt''),
      de_replayedAt = as_string (field j ''replayedAt'')\<rparr>"

record dlq_panel =
  dp_entries :: "dlq_entry list option"
  dp_error :: "string option"
  dp_loading :: bool
  dp_updatedAt :: "int option"
  dp_replayingId :: "string option"
  dp_replayNote :: "string option"

definition initial_panel :: dlq_panel where
  "initial_panel =
     \<lparr>dp_entries = Some [], dp_error = None, dp_loading = False, dp_updatedAt = None, dp_replayingId = None,
      dp_replayNote = None\<rparr>"

text \<open>\<open>page.data\<close>: \<open>None\<close> is a value that is no array, on which the next render throws.\<close>

definition page_entries :: "json \<Rightarrow> dlq_entry list option result" where
  "page_entries page =
     bind_res (get_prop page ''data'') (\<lambda>v. Inr (case v of Some (JArr js) \<Rightarrow> Some (map read_entry js) | _ \<Rightarrow> None))"

definition refresh :: "web_config \<Rightarrow> fetch \<Rightarrow> int \<Rightarrow> dlq_panel \<Rightarrow> dlq_panel" where
  "refresh cfg fetch now p =
     (case bind_res (fetchDlq cfg fetch) page_entries of
        Inr es \<Rightarrow> p\<lparr>dp_entries := es, dp_error := None, dp_loading := False, dp_updatedAt := Some now\<rparr>
      | Inl e \<Rightarrow> p\<lparr>dp_error := Some ''GET /dlq unreachable. Is the backend up?'', dp_loading := False\<rparr>)"

definition entry_name :: "dlq_entry \<Rightarrow> string" where
  "entry_name e = nullish (de_eventId e) (de_id e)"

definition panel_discard :: "web_config \<Rightarrow> fetch \<Rightarrow> fetch \<Rightarrow> int \<Rightarrow> dlq_entry \<Rightarrow> dlq_panel \<Rightarrow> dlq_panel" where
  "panel_discard cfg fetch fetch' now e p =
     (case discardDlq cfg fetch (de_id e) of
        Inr u \<Rightarrow> refresh cfg fetch' now (p\<lparr>dp_replayNote := None\<rparr>)
      | Inl cause \<Rightarrow> p\<lparr>dp_replayNote := Some (''could not discard '' @ entry_name e)\<rparr>)"

fun is_error :: "exn \<Rightarrow> bool" where
  "is_error (NonError m) = False"
| "is_error _ = True"

definition panel_replay :: "web_config \<Rightarrow> fetch \<Rightarrow> fetch \<Rightarrow> int \<Rightarrow> dlq_entry \<Rightarrow> dlq_panel \<Rightarrow> dlq_panel" where
  "panel_replay cfg fetch fetch' now e p =
     (let p1 = p\<lparr>dp_replayingId := Some (de_id e), dp_replayNote := None\<rparr>;
          p2 = (case replayDlq cfg fetch (de_id e) of
                  Inr receipt \<Rightarrow>
                    refresh cfg fetch' now (p1\<lparr>dp_replayNote := Some (''replayed '' @ entry_name e @
                      '': state reset, message republished, retry budget restarted'')\<rparr>)
                | Inl cause \<Rightarrow>
                    p1\<lparr>dp_replayNote := Some (if is_error cause
                        then error_message cause @ '' (already processed, in flight, or missing event_id)''
                        else ''replay failed'')\<rparr>)
      in p2\<lparr>dp_replayingId := None\<rparr>)"

subsection \<open>The other panels\<close>

definition dash :: string where "dash = [CHR 0xE2, CHR 0x80, CHR 0x94]"

definition COUNTER_META :: "((counters \<Rightarrow> nat) \<times> string \<times> string) list" where
  "COUNTER_META =
     [(ct_processed, ''processed'', ''var(--color-stage-processed)''),
      (ct_duplicate, ''duplicate'', ''var(--color-stage-duplicate)''),
      (ct_retry, ''retry'', ''var(--color-stage-retry)''),
      (ct_dead, ''dead'', ''var(--color-stage-dead)''),
      (ct_rejected, ''rejected'', ''var(--color-stage-rejected)'')]"

definition format_latency :: "rat option \<Rightarrow> string" where
  "format_latency v = (case v of None \<Rightarrow> dash | Some q \<Rightarrow> toFixed0 q @ '' ms'')"

definition metrics_lines :: "rat list \<Rightarrow> string \<times> string \<times> nat" where
  "metrics_lines latencies =
     (format_latency (percentile latencies 50), format_latency (percentile latencies 95), length latencies)"

definition formatMs :: "rat \<Rightarrow> string" where
  "formatMs v = (if 1000 \<le> v then toFixed2 (v / 1000) @ '' s'' else toFixed0 v @ '' ms'')"

definition formatBody :: "json \<Rightarrow> string option" where
  "formatBody body = (case body of JStr s \<Rightarrow> Some s | _ \<Rightarrow> json_pretty 0 body)"

definition processing_label :: "(string \<Rightarrow> rat option) \<Rightarrow> token \<Rightarrow> string" where
  "processing_label date t =
     (case processingMs date t of
        Some v \<Rightarrow> formatMs v
      | None \<Rightarrow> if tk_httpStatus t = Some 202 then ''pending'' else ''not queued'')"

definition response_label :: "token \<Rightarrow> string" where
  "response_label t = (case tk_latencyMs t of Some q \<Rightarrow> formatMs q | None \<Rightarrow> dash)"

fun CONNECTION_LABEL :: "connection_state \<Rightarrow> string" where
  "CONNECTION_LABEL Connecting = ''connecting to telemetry feed'' @ [CHR 0xE2, CHR 0x80, CHR 0xA6]"
| "CONNECTION_LABEL Connected = ''live''"
| "CONNECTION_LABEL Disconnected = ''backend offline''"

fun CONNECTION_COLOR :: "connection_state \<Rightarrow> string" where
  "CONNECTION_COLOR Connecting = ''var(--color-stage-consuming)''"
| "CONNECTION_COLOR Connected = ''var(--color-stage-processed)''"
| "CONNECTION_COLOR Disconnected = ''var(--color-stage-dead)''"

definition offline_banner :: "connection_state \<Rightarrow> bool" where
  "offline_banner c \<longleftrightarrow> c = Disconnected"

fun TONE_COLOR :: "story_tone \<Rightarrow> string" where
  "TONE_COLOR TInfo = ''var(--text-faint)''"
| "TONE_COLOR TOk = ''var(--color-stage-processed)''"
| "TONE_COLOR TRetry = ''var(--color-stage-retry)''"
| "TONE_COLOR TFail = ''var(--color-stage-dead)''"

text \<open>\<open>parseInt(s, 10)\<close> of a text without sign or leading white space, \<open>NaN\<close> as \<open>None\<close>\<close>

definition parseInt :: "string \<Rightarrow> nat option" where
  "parseInt s = (let ds = takeWhile is_digit s in if ds = [] then None else Some (nat (digits_val ds)))"

definition accent :: "scenario_def \<Rightarrow> string" where
  "accent scenario = statusColor (nullish (parseInt (sd_expected scenario)) 0)"

definition badge_text :: "nat \<Rightarrow> string" where
  "badge_text status = (if status = 0 then ''no response'' else digits status)"

definition shares_note :: "token \<Rightarrow> nat \<Rightarrow> string option" where
  "shares_note t n =
     (if truthy_str (tk_eventId t) \<and> 1 < n
      then Some (''shares event_id with '' @ digits (n - 1) @ '' other token'' @ (if 2 < n then ''s'' else []))
      else None)"

datatype theme = Dark | Light

definition toggle_theme :: "theme \<Rightarrow> theme" where
  "toggle_theme current = (if current = Dark then Light else Dark)"

text \<open>The effect of \<open>useTheme\<close> on the classes of the document's root element.\<close>

definition theme_effect :: "theme \<Rightarrow> string set \<Rightarrow> string set" where
  "theme_effect theme classes = (if theme = Dark then insert ''dark'' classes else classes - {''dark''})"

subsection \<open>The signature panel (\<open>SignaturePanel.tsx\<close>)\<close>

text \<open>
  Every change of the secret or the canonical string ends the effect before and starts one, whose promise
  resolves later, in any order; only the active effect may set the signature.
\<close>

record signature_panel =
  sp_effect :: nat
  sp_pending :: "(nat \<times> string) list"
  sp_signature :: string

definition initial_signature :: signature_panel where
  "initial_signature = \<lparr>sp_effect = 0, sp_pending = [], sp_signature = []\<rparr>"

text \<open>A rejected digest leaves nothing pending.\<close>

definition inputs_changed :: "string \<Rightarrow> string \<Rightarrow> string \<Rightarrow> signature_panel \<Rightarrow> signature_panel" where
  "inputs_changed secret timestamp rawBody p =
     (let i = sp_effect p + 1 in
      p\<lparr>sp_effect := i,
        sp_pending := sp_pending p @ (case hmacSha256Hex secret (canonicalString timestamp rawBody) of
                                        Inr hex \<Rightarrow> [(i, hex)] | Inl e \<Rightarrow> [])\<rparr>)"

definition digest_ready :: "nat \<Rightarrow> string \<Rightarrow> signature_panel \<Rightarrow> signature_panel" where
  "digest_ready i hex p =
     (let p1 = p\<lparr>sp_pending := filter (\<lambda>x. x \<noteq> (i, hex)) (sp_pending p)\<rparr>
      in if i = sp_effect p then p1\<lparr>sp_signature := hex\<rparr> else p1)"

definition signature_text :: "signature_panel \<Rightarrow> string" where
  "signature_text p = (if sp_signature p \<noteq> [] then sp_signature p else ''computing...'')"

subsection \<open>The states the store shows\<close>

text \<open>A feed read from JSON has no \<open>NaN\<close> in it.\<close>

fun feed_ok :: "store_event \<Rightarrow> bool" where
  "feed_ok (Socket (SockFeed raw) now) = (as_number (candidate raw ''attempts'') \<noteq> Some NaN)"
| "feed_ok _ = True"

definition demo_ok :: "(string \<Rightarrow> string \<Rightarrow> int) \<Rightarrow> store \<Rightarrow> bool" where
  "demo_ok collate s \<longleftrightarrow> (\<forall>d. so_state s = Inr d \<longrightarrow> state_ok collate d)"

lemma feed_attempts:
  "socket_deliver raw = OnEnvelope e \<Longrightarrow> as_number (candidate raw ''attempts'') \<noteq> Some NaN \<Longrightarrow> we_attempts e \<noteq> NaN"
  by (auto simp: socket_deliver_def read_envelope_def isTelemetryEnvelope_def split: if_splits)

context collation
begin

lemma demo_dispatch: "action_ok a \<Longrightarrow> demo_ok collate s \<Longrightarrow> demo_ok collate (dispatch collate a s)"
  by (auto simp: demo_ok_def bind_res_Inr intro: reducer_ok)

lemma demo_fire:
  "demo_ok collate s \<Longrightarrow> demo_ok collate (fire_begin collate scenario ts spec s)"
  "demo_ok collate s \<Longrightarrow> demo_ok collate (fire_end collate cfg w scenario ts spec s)"
  by (simp_all add: fire_begin_def fire_end_def demo_dispatch started_by_def)

lemma demo_fires: "demo_ok collate s \<Longrightarrow> demo_ok collate (fold (fire_begin collate scenario ts) specs s)"
  by (induction specs arbitrary: s) (simp_all add: demo_fire)

lemma demo_quiet:
  "demo_ok collate s \<Longrightarrow> demo_ok collate (snd (waitForSettle c s))"
  "demo_ok collate s \<Longrightarrow> demo_ok collate (notifySettled c s)"
  "demo_ok collate s \<Longrightarrow> demo_ok collate (settle_timeout p c s)"
  "demo_ok collate s \<Longrightarrow> demo_ok collate (s\<lparr>so_runs := rs\<rparr>)"
  by (simp_all add: demo_ok_def waitForSettle_def notifySettled_def settle_timeout_def resolve_waiter_def Let_def
      split: option.split)

lemma demo_fields:
  "demo_ok collate (s\<lparr>so_connection := c\<rparr>) = demo_ok collate s"
  "demo_ok collate (s\<lparr>so_unknownVersions := n\<rparr>) = demo_ok collate s"
  by (simp_all add: demo_ok_def)

lemma demo_iterate: "demo_ok collate s \<Longrightarrow> demo_ok collate (snd (iterate collate ts r i s))"
  by (simp add: iterate_snd demo_fire demo_quiet(1))

lemma demo_next: "demo_ok collate s \<Longrightarrow> demo_ok collate (snd (next_iteration collate ts r s))"
  by (simp add: next_iteration_def demo_iterate)

lemma demo_called: "demo_ok collate s \<Longrightarrow> demo_ok collate (snd (called collate ts scenario specs s))"
  using demo_fires [of s scenario ts specs] by (auto simp: called_def Let_def demo_iterate)

lemma demo_step:
  assumes "store_step collate cfg e s = Some s'" and "store_ok s" and "demo_ok collate s" and "feed_ok e"
  shows "demo_ok collate s'"
  using assms(1,2)
proof (cases rule: store_stepE)
  case quiet
  show ?thesis
  proof (cases e)
    case (Socket ev now)
    show ?thesis
    proof (cases ev)
      case (SockFeed raw)
      with assms Socket demo_dispatch [OF _ assms(3)] feed_attempts [of raw] show ?thesis
        by (auto simp: demo_fields split: socket_call.splits)
    qed (use assms Socket in \<open>auto simp: demo_fields\<close>)
  next
    case ResetClicked
    with assms(1) show ?thesis
      by (auto simp: reset_store_def demo_ok_def bind_res_Inr initialState_ok)
  qed (use quiet assms(1,3) demo_quiet in \<open>auto split: if_splits\<close>)
next
  case (call i ids now ts scenario r s1)
  have "demo_ok collate s1" using demo_called [OF assms(3), of ts scenario] call(3) by (metis snd_conv)
  with call(4) show ?thesis by (simp add: demo_quiet(4))
next
  case (answer k i w ts r' s1)
  let ?s0 = "fire_end collate cfg w (rn_scenario (so_runs s ! k)) ts (rn_specs (so_runs s ! k) ! i) s"
  have ok0: "demo_ok collate ?s0" using assms(3) by (rule demo_fire(2))
  from answer(4) have "demo_ok collate s1"
  proof (cases rule: request_doneE)
    case last
    with demo_next [OF ok0, of ts] show ?thesis by (metis snd_conv)
  qed (use ok0 in simp_all)
  with answer(5) show ?thesis by (simp add: put_run_def demo_quiet(4))
next
  case (resume k ts p r' s1)
  with demo_next [OF assms(3), of ts] have "demo_ok collate s1" by (metis snd_conv)
  with resume(6) show ?thesis by (simp add: put_run_def demo_quiet(4))
qed

lemma demo_run:
  assumes "store_run collate cfg s es s'" and "store_ok s" and "demo_ok collate s" and "list_all feed_ok es"
  shows "demo_ok collate s'"
  using assms
proof (induction rule: store_run.induct)
  case (turn es s1 e s2)
  with store_run_ok [OF turn.hyps(1)] demo_step [OF turn.hyps(2)] show ?case by simp
qed simp

end

lemma those_Some: "(\<And>x. x \<in> set xs \<Longrightarrow> f x \<noteq> None) \<Longrightarrow> those (map f xs) = Some (map (\<lambda>x. the (f x)) xs)"
  by (induction xs) (auto split: option.splits)

text \<open>Whatever happens, the dashboard has something sound to draw: after any sequence of clicks, answers, timeouts
  and telemetry (sent as JSON), unless the reducer threw, every id in the store's order has its token, so no
  panel meets an undefined one, and each token drawn sits under its own id with a sorted history and a
  path that ends in the colour of its current stage.\<close>

theorem dashboard_always_draws:
  assumes "collation collate" and "store_run collate cfg initial_store es s" and "list_all feed_ok es"
    and "so_state s = Inr d"
  shows "\<exists>tokens. app_tokens d = Some tokens \<and> map tk_correlationId tokens = ds_order d
       \<and> (\<forall>t \<in> set tokens. token_ok collate t
            \<and> ps_color (last (pathOf fraction t)) = sm_color (STAGE_META (tk_currentStage t)))"
proof -
  have "demo_ok collate initial_store" using initialState_ok by (simp add: demo_ok_def initial_store_def)
  then have ok: "state_ok collate d"
    using collation.demo_run [OF assms(1,2) initial_store_ok _ assms(3)] assms(4) by (simp add: demo_ok_def)
  let ?tokens = "map (\<lambda>i. the (ds_tokens d i)) (ds_order d)"
  have "app_tokens d = Some ?tokens"
    unfolding app_tokens_def by (rule those_Some) (use ok in \<open>auto simp: state_ok_def\<close>)
  moreover have "map tk_correlationId ?tokens = ds_order d"
    using ok by (auto simp: state_ok_def intro!: map_idI)
  moreover have "token_ok collate t" if "t \<in> set ?tokens" for t
    using ok that by (auto simp: state_ok_def)
  ultimately show ?thesis using path_ends by blast
qed

theorem dashboard_always_draws_witness:
  "\<exists>s d tokens. store_run iso_collate (web_config Map.empty) initial_store [RunScenario Happy letter_ids 0 []] s
     \<and> so_state s = Inr d \<and> app_tokens d = Some tokens \<and> length tokens = length (ds_order d)"
proof -
  let ?s = "runScenario iso_collate Happy letter_ids 0 [] initial_store"
  have run: "store_run iso_collate (web_config Map.empty) initial_store [RunScenario Happy letter_ids 0 []] ?s"
    by (rule store_run_one) simp
  obtain d where d: "so_state ?s = Inr d"
    by (simp add: runScenario_def find_scenario_cases called_def initial_store_def build_happy_def Let_def
        happy_scenario_def fire_begin_def)
  from dashboard_always_draws [OF iso.collation_axioms run _ d] obtain tokens
    where "app_tokens d = Some tokens" "map tk_correlationId tokens = ds_order d" by auto
  moreover have "length tokens = length (ds_order d)" using calculation(2) by (metis length_map)
  ultimately show ?thesis using run d by blast
qed

subsection \<open>The panel reads the worker's reasons\<close>

lemma includes_skip: "sub \<noteq> [] \<Longrightarrow> hd sub \<notin> set xs \<Longrightarrow> js_includes (xs @ ys) sub = js_includes ys sub"
proof (induction xs)
  case (Cons x xs)
  then have "take (length sub) (x # xs @ ys) \<noteq> sub" by (cases sub) auto
  with Cons show ?case by simp
qed simp

lemma includes_absent: "sub \<noteq> [] \<Longrightarrow> hd sub \<notin> set xs \<Longrightarrow> \<not> js_includes xs sub"
  using includes_skip [of sub xs "[]"] by simp

definition lower_ascii :: "char \<Rightarrow> bool" where
  "lower_ascii c \<longleftrightarrow> code c < 128 \<and> \<not> (65 \<le> code c \<and> code c \<le> 90)"

lemma toLowerCase_lower: "list_all lower_ascii s \<Longrightarrow> toLowerCase s = s"
proof (induction s rule: toLowerCase.induct)
  case (2 c s)
  have "c \<noteq> CHR 0xC4" "c \<noteq> CHR 0xE2" using 2(4) by (auto simp: lower_ascii_def code_def)
  with 2 show ?case by (auto simp: lower_ascii_def)
qed simp

text \<open>An event id as the dashboard makes them, from \<open>crypto.randomUUID()\<close>\<close>

definition uuid_chars :: string where "uuid_chars = ''0123456789abcdef-''"

lemma uuid_lower: "list_all (\<lambda>c. c \<in> set uuid_chars) u \<Longrightarrow> list_all lower_ascii u"
  by (rule list.pred_mono_strong, assumption) (auto simp: uuid_chars_def lower_ascii_def code_def)

lemma digit_lower: "is_digit c \<Longrightarrow> lower_ascii c"
  by (simp add: is_digit_def lower_ascii_def)

lemma int_to_string_chars: "c \<in> set (int_to_string i) \<Longrightarrow> is_digit c \<or> c = CHR ''-''"
  using digits_all by (auto simp: int_to_string_def split: if_splits)

lemma int_to_string_lower: "list_all lower_ascii (int_to_string i)"
proof -
  have "lower_ascii (CHR ''-'')" by code_simp
  then show ?thesis using int_to_string_chars digit_lower by (force simp: list_all_iff)
qed

definition demo_reason :: "string \<Rightarrow> string \<Rightarrow> string \<Rightarrow> string" where
  "demo_reason kind middle u = ''demo scenario '' @ [CHR 0x22] @ kind @ [CHR 0x22] @ middle @ '' for '' @ ''evt_'' @ u"

lemma demo_reason_lower:
  assumes "list_all lower_ascii kind" and "list_all lower_ascii middle" and "list_all (\<lambda>c. c \<in> set uuid_chars) u"
  shows "toLowerCase (demo_reason kind middle u) = demo_reason kind middle u"
proof -
  have "list_all lower_ascii (''demo scenario '' @ [CHR 0x22])" "list_all lower_ascii ([CHR 0x22])"
    "list_all lower_ascii '' for ''" "list_all lower_ascii ''evt_''"
    by code_simp+
  with assms uuid_lower show ?thesis by (intro toLowerCase_lower) (simp add: demo_reason_def)
qed

text \<open>A text whose letters never start the needle, looking at two letters\<close>

fun no_pair :: "char \<Rightarrow> char \<Rightarrow> string \<Rightarrow> bool" where
  "no_pair a b [] = True"
| "no_pair a b [x] = (x \<noteq> a)"
| "no_pair a b (x # y # xs) = (\<not> (x = a \<and> y = b) \<and> no_pair a b (y # xs))"

lemma includes_no_pair: "no_pair a b xs \<Longrightarrow> js_includes (xs @ ys) (a # b # sub) = js_includes ys (a # b # sub)"
  by (induction a b xs rule: no_pair.induct) auto

lemma includes_append: "js_includes xs sub \<or> js_includes ys sub \<Longrightarrow> js_includes (xs @ ys) sub"
proof (induction xs)
  case Nil
  then show ?case by (cases ys) auto
next
  case (Cons x xs)
  have "take (length sub) (x # xs) = sub \<Longrightarrow> take (length sub) ((x # xs) @ ys) = sub"
    by (metis append_eq_conv_conj append_take_drop_id append.assoc)
  with Cons show ?case by auto
qed

lemma uuid_skip:
  assumes "list_all (\<lambda>c. c \<in> set uuid_chars) u" and "a \<in> {CHR ''u'', CHR ''m'', CHR ''p''}"
  shows "\<not> js_includes u (a # sub)" and "js_includes (int_to_string n @ ys) (a # sub) = js_includes ys (a # sub)"
proof -
  have "a \<notin> set uuid_chars" using assms(2) by (elim insertE emptyE) (simp_all add: uuid_chars_def)
  with assms(1) have "a \<notin> set u" by (auto simp: list_all_iff)
  with includes_absent [of "a # sub" u] show "\<not> js_includes u (a # sub)" by simp
  have "\<not> is_digit a" "a \<noteq> CHR ''-''" using assms(2) by (auto simp: is_digit_def code_def)
  then have "a \<notin> set (int_to_string n)" using int_to_string_chars [of a n] by blast
  with includes_skip [of "a # sub"] show "js_includes (int_to_string n @ ys) (a # sub) = js_includes ys (a # sub)" by simp
qed

definition demo_prefix :: "string \<Rightarrow> string" where
  "demo_prefix kind = ''demo scenario '' @ [CHR 0x22] @ kind @ [CHR 0x22]"

lemma demo_reason_prefix: "demo_reason kind middle u = demo_prefix kind @ middle @ '' for evt_'' @ u"
  by (simp add: demo_reason_def demo_prefix_def)

lemma no_pairs:
  "no_pair (CHR ''u'') (CHR ''n'') '' for evt_''" "no_pair (CHR ''m'') (CHR ''i'') '' for evt_''"
  "no_pair (CHR ''p'') (CHR ''e'') '' for evt_''"
  "no_pair (CHR ''u'') (CHR ''n'') '' failing attempt ''" "no_pair (CHR ''m'') (CHR ''i'') '' failing attempt ''"
  "no_pair (CHR ''p'') (CHR ''e'') '' failing attempt ''"
  "no_pair (CHR ''u'') (CHR ''n'') (demo_prefix ''permanent'')" "no_pair (CHR ''m'') (CHR ''i'') (demo_prefix ''permanent'')"
  "no_pair (CHR ''u'') (CHR ''n'') (demo_prefix ''exhaust'')" "no_pair (CHR ''m'') (CHR ''i'') (demo_prefix ''exhaust'')"
  "no_pair (CHR ''p'') (CHR ''e'') (demo_prefix ''exhaust'')"
  "no_pair (CHR ''u'') (CHR ''n'') (demo_prefix ''transient'')" "no_pair (CHR ''m'') (CHR ''i'') (demo_prefix ''transient'')"
  "no_pair (CHR ''p'') (CHR ''e'') (demo_prefix ''transient'')"
  by (simp_all add: demo_prefix_def)

lemma permanent_reason:
  assumes "list_all (\<lambda>c. c \<in> set uuid_chars) u"
  shows "\<not> js_includes (demo_reason ''permanent'' [] u) ''unparseable''"
    and "\<not> js_includes (demo_reason ''permanent'' [] u) ''missing event_id''"
    and "js_includes (demo_reason ''permanent'' [] u) ''permanent''"
proof -
  note skip = demo_reason_prefix uuid_skip(1) [OF assms] no_pairs [THEN includes_no_pair]
  show "\<not> js_includes (demo_reason ''permanent'' [] u) ''unparseable''"
    and "\<not> js_includes (demo_reason ''permanent'' [] u) ''missing event_id''"
    by (simp_all only: skip append_Nil insert_iff simp_thms)
  have "js_includes (demo_prefix ''permanent'') ''permanent''" by (simp add: demo_prefix_def)
  then show "js_includes (demo_reason ''permanent'' [] u) ''permanent''"
    unfolding demo_reason_prefix by (blast intro: includes_append)
qed

lemma attempt_reason:
  assumes "list_all (\<lambda>c. c \<in> set uuid_chars) u" and "kind \<in> {''exhaust'', ''transient''}"
  shows "\<not> js_includes (demo_reason kind ('' failing attempt '' @ int_to_string n) u) ''unparseable''"
    and "\<not> js_includes (demo_reason kind ('' failing attempt '' @ int_to_string n) u) ''missing event_id''"
    and "\<not> js_includes (demo_reason kind ('' failing attempt '' @ int_to_string n) u) ''permanent''"
    and "js_includes (demo_reason kind ('' failing attempt '' @ int_to_string n) u) ''attempt''"
proof -
  note skip = demo_reason_prefix uuid_skip [OF assms(1)] no_pairs [THEN includes_no_pair] append.assoc
  from assms(2) consider "kind = ''exhaust''" | "kind = ''transient''" by blast
  then show "\<not> js_includes (demo_reason kind ('' failing attempt '' @ int_to_string n) u) ''unparseable''"
    and "\<not> js_includes (demo_reason kind ('' failing attempt '' @ int_to_string n) u) ''missing event_id''"
    and "\<not> js_includes (demo_reason kind ('' failing attempt '' @ int_to_string n) u) ''permanent''"
    by (cases; simp only: skip insert_iff simp_thms)+
  have "js_includes '' failing attempt '' ''attempt''" by simp
  then show "js_includes (demo_reason kind ('' failing attempt '' @ int_to_string n) u) ''attempt''"
    unfolding demo_reason_prefix append.assoc by (blast intro: includes_append)
qed

text \<open>The demo handler's errors are these reasons.\<close>

lemma demo_handler_reason:
  assumes "he_eventId event = newEventId u" and "DemoOrderHandler_handle now event attempt = Inl error"
  shows "error = PermanentProcessingError (demo_reason ''permanent'' [] u)
       \<or> (\<exists>kind \<in> {''exhaust'', ''transient''}.
            error = TransientProcessingError (demo_reason kind ('' failing attempt '' @ int_to_string attempt) u))
       \<or> (\<exists>m. error = TypeError m)"
proof -
  note defs = DemoOrderHandler_handle_def demo_reason_def newEventId_def assms(1)
  show ?thesis
  proof (cases "scenarioOf event")
    case None
    with assms(2) show ?thesis by (simp add: DemoOrderHandler_handle_def)
  next
    case (Some sc)
    then show ?thesis
    proof (cases sc)
      case ScExhaust
      with Some assms(2) show ?thesis
        by (cases "js_number (field (he_payload event) OUTAGE_UNTIL_KEY)")
           (auto simp: defs js_number_def split: if_splits option.splits)
    qed (use Some assms(2) in \<open>auto simp: defs split: if_splits\<close>)
  qed
qed

text \<open>C40. The dead-letter panel reads what the worker writes: for the demo's events (ids made from a UUID), a dead
  letter whose reason is the message of the handler's permanent error is shown as a permanent error, one whose
  reason is the message of its transient error as exhausted retries, whatever the attempt, and the dead
  letter the work-queue consumer publishes for a body it cannot read as a poison message.\<close>

theorem diagnosis_matches_worker:
  assumes "list_all (\<lambda>c. c \<in> set uuid_chars) u" and "he_eventId event = newEventId u"
  shows "(\<forall>m. DemoOrderHandler_handle now event attempt = Inl (PermanentProcessingError m) \<longrightarrow>
            dg_badge (diagnose fraction (e\<lparr>de_reason := m\<rparr>)) = ''permanent error'')
       \<and> (\<forall>m. DemoOrderHandler_handle now event attempt = Inl (TransientProcessingError m) \<longrightarrow>
            dg_badge (diagnose fraction (e\<lparr>de_reason := m\<rparr>)) = ''retries exhausted'')
       \<and> (\<forall>p j. Published p \<in> set (snd (consume_unparseable publish c raw)) \<longrightarrow> pub_body p = JsonBody j \<longrightarrow>
            (\<exists>reason. field j ''reason'' = Some (JStr reason)
               \<and> dg_badge (diagnose fraction (e\<lparr>de_reason := reason\<rparr>)) = ''poison message''))"
proof (intro conjI)
  note lower = demo_reason_lower [OF _ _ assms(1)]
  have words: "list_all lower_ascii ''permanent''" "list_all lower_ascii ''exhaust''" "list_all lower_ascii ''transient''"
    "list_all lower_ascii '' failing attempt ''"
    by code_simp+
  show "\<forall>m. DemoOrderHandler_handle now event attempt = Inl (PermanentProcessingError m) \<longrightarrow>
            dg_badge (diagnose fraction (e\<lparr>de_reason := m\<rparr>)) = ''permanent error''"
  proof (intro allI impI)
    fix m
    assume "DemoOrderHandler_handle now event attempt = Inl (PermanentProcessingError m)"
    from demo_handler_reason [OF assms(2) this] have "m = demo_reason ''permanent'' [] u" by (auto simp del: insert_iff)
    with permanent_reason [OF assms(1)] lower [OF words(1), of "[]"]
    show "dg_badge (diagnose fraction (e\<lparr>de_reason := m\<rparr>)) = ''permanent error''" by (simp add: diagnose_def Let_def)
  qed
  show "\<forall>m. DemoOrderHandler_handle now event attempt = Inl (TransientProcessingError m) \<longrightarrow>
            dg_badge (diagnose fraction (e\<lparr>de_reason := m\<rparr>)) = ''retries exhausted''"
  proof (intro allI impI)
    fix m
    assume "DemoOrderHandler_handle now event attempt = Inl (TransientProcessingError m)"
    from demo_handler_reason [OF assms(2) this] obtain kind where kind: "kind \<in> {''exhaust'', ''transient''}"
      "m = demo_reason kind ('' failing attempt '' @ int_to_string attempt) u"
      by (auto simp del: insert_iff)
    have "list_all lower_ascii kind" using kind(1) words(2,3) by blast
    then have "toLowerCase m = m"
      using lower [of kind "'' failing attempt '' @ int_to_string attempt"] words(4) int_to_string_lower kind(2) by simp
    with attempt_reason [OF assms(1) kind(1), of attempt] kind(2)
    show "dg_badge (diagnose fraction (e\<lparr>de_reason := m\<rparr>)) = ''retries exhausted''"
      by (simp add: diagnose_def Let_def)
  qed
  have "js_includes (toLowerCase ''unparseable payload or missing event_id'') ''unparseable''" by code_simp
  then have "dg_badge (diagnose fraction (e\<lparr>de_reason := ''unparseable payload or missing event_id''\<rparr>)) = ''poison message''"
    by (simp add: diagnose_def Let_def)
  then show "\<forall>p j. Published p \<in> set (snd (consume_unparseable publish c raw)) \<longrightarrow> pub_body p = JsonBody j \<longrightarrow>
            (\<exists>reason. field j ''reason'' = Some (JStr reason)
               \<and> dg_badge (diagnose fraction (e\<lparr>de_reason := reason\<rparr>)) = ''poison message'')"
    by (auto simp: consume_unparseable_def await_publish_def stage_of_def toDeadLetter_def split: sum.splits)
qed

definition sample_entry :: dlq_entry where
  "sample_entry =
     \<lparr>de_id = ''1'', de_messageId = None, de_correlationId = ''c-1'', de_eventId = Some ''evt_0'', de_reason = [],
      de_attempts = Fin 1, de_payload = None, de_createdAt = [], de_replayedAt = None\<rparr>"

theorem diagnosis_matches_worker_witness:
  "\<exists>m. DemoOrderHandler_handle 0 ((sample_event (JObj [(''__scenario'', JStr ''permanent'')]))\<lparr>he_eventId := ''evt_0''\<rparr>) 1
        = Inl (PermanentProcessingError m)
     \<and> dg_badge (diagnose (\<lambda>_. []) (sample_entry\<lparr>de_reason := m\<rparr>)) = ''permanent error''"
proof -
  let ?event = "(sample_event (JObj [(''__scenario'', JStr ''permanent'')]))\<lparr>he_eventId := ''evt_0''\<rparr>"
  have u: "list_all (\<lambda>c. c \<in> set uuid_chars) ''0''" by code_simp
  have i: "he_eventId ?event = newEventId ''0''" by (simp add: newEventId_def)
  have "scenarioOf ?event = Some ScPermanent"
    by (simp add: scenarioOf_def sample_event_def DEMO_SCENARIO_KEY_def Let_def)
  then obtain m where "DemoOrderHandler_handle 0 ?event 1 = Inl (PermanentProcessingError m)"
    by (simp add: DemoOrderHandler_handle_def)
  with diagnosis_matches_worker [OF u i, of 0 1 "\<lambda>_. []" sample_entry] show ?thesis by blast
qed

end
