(* ===== verification/WebView.thy ===== *)
theory WebView
  imports WebPanels
begin

text \<open>
  The markup of the dashboard's panels, \<open>src/web/src/components/\<close>: what each component returns for its
  props and state, as a tree of elements with their attributes, texts and click handlers. A conditional
  child that is \<open>null\<close> is left out of the list of children, and texts that stand next to each other are
  one. Class names and React keys, and the animation framer-motion adds, are not part of the tree. Texts
  of dates in the browser's locale and of JSON values with fractions are the parameter \<open>locale\<close>.
\<close>

subsection \<open>Trees\<close>

datatype attr_value = AText string | ANumber rat | AFlag bool

datatype 'a markup =
    Text string
  | Element string "(string \<times> attr_value) list" "'a option" "'a markup list"

text \<open>What a click does, named after the handler the source passes.\<close>

datatype ui_action =
    OnRun scenario_id
  | OnReset
  | OnToggleTheme
  | OnSelect string
  | OnStep bool
  | OnTogglePause
  | OnPlayback bool
  | OnRefresh
  | OnDiscard dlq_entry
  | OnReplay dlq_entry

type_synonym view = "ui_action markup"

abbreviation el :: "string \<Rightarrow> (string \<times> attr_value) list \<Rightarrow> view list \<Rightarrow> view" where
  "el tag attrs children \<equiv> Element tag attrs None children"

abbreviation click :: "(string \<times> attr_value) list \<Rightarrow> ui_action \<Rightarrow> view list \<Rightarrow> view" where
  "click attrs act children \<equiv> Element ''button'' ((''type'', AText ''button'') # attrs) (Some act) children"

abbreviation div_el :: "view list \<Rightarrow> view" where "div_el \<equiv> el ''div'' []"
abbreviation span_el :: "view list \<Rightarrow> view" where "span_el \<equiv> el ''span'' []"
abbreviation p_el :: "view list \<Rightarrow> view" where "p_el \<equiv> el ''p'' []"

definition when_shown :: "bool \<Rightarrow> view \<Rightarrow> view list" where
  "when_shown b v = (if b then [v] else [])"

text \<open>The handlers a user can reach: a disabled button does not answer to clicks.\<close>

fun controls :: "'a markup \<Rightarrow> 'a list" where
  "controls (Text s) = []"
| "controls (Element tag attrs act children) =
     (case act of
        None \<Rightarrow> []
      | Some a \<Rightarrow> if map_of attrs ''disabled'' = Some (AFlag True) then [] else [a])
     @ concat (map controls children)"

text \<open>The text of a tree, from left to right.\<close>

fun texts :: "'a markup \<Rightarrow> string list" where
  "texts (Text s) = [s]"
| "texts (Element tag attrs act children) = concat (map texts children)"

record locale_texts =
  lc_time :: "string \<Rightarrow> string"
  lc_time24 :: "string \<Rightarrow> string"
  lc_millis :: "string \<Rightarrow> string"
  lc_dateTime :: "string \<Rightarrow> string"
  lc_clock :: "int \<Rightarrow> string"
  lc_fraction :: "rat \<Rightarrow> string"
  lc_json :: "json \<Rightarrow> string"
  lc_payload :: "string \<Rightarrow> string"
  lc_date :: "string \<Rightarrow> rat option"

subsection \<open>Shared pieces (\<open>ui.tsx\<close>)\<close>

definition InfoTip :: "string \<Rightarrow> view list \<Rightarrow> view" where
  "InfoTip label body =
     span_el
       [el ''button'' [(''type'', AText ''button''),
           (''aria-label'', AText (''What does '' @ [CHR 0x22] @ label @ [CHR 0x22] @ '' mean?''))] [Text ''?''],
        el ''span'' [(''role'', AText ''tooltip'')] body]"

definition Panel :: "string \<Rightarrow> string option \<Rightarrow> view list \<Rightarrow> view list \<Rightarrow> view" where
  "Panel title info act children =
     el ''section'' []
       [el ''header'' []
          (div_el
             (el ''h2'' [] [Text title]
              # (if truthy_str info then [InfoTip title [Text (the info)]] else []))
           # act),
        div_el children]"

definition StageDot :: "stage \<Rightarrow> view" where
  "StageDot stage =
     span_el
       [el ''span'' [(''style.backgroundColor'', AText (sm_color (STAGE_META stage)))] [],
        span_el [Text (sm_label (STAGE_META stage))]]"

definition StatusBadge :: "nat \<Rightarrow> view" where
  "StatusBadge status =
     el ''span'' [(''style.backgroundColor'', AText ''var(--surface-2)''),
                  (''style.color'', AText (statusColor status))]
       [Text (badge_text status)]"

definition Empty :: "view list \<Rightarrow> view" where
  "Empty children = p_el children"

subsection \<open>Connection (\<open>ConnectionBanner.tsx\<close>)\<close>

definition ConnectionIndicator :: "connection_state \<Rightarrow> view" where
  "ConnectionIndicator c =
     span_el
       [el ''span'' [(''style.backgroundColor'', AText (CONNECTION_COLOR c))] [],
        span_el [Text (CONNECTION_LABEL c)]]"

definition OfflineBanner :: "connection_state \<Rightarrow> view list" where
  "OfflineBanner c = when_shown (offline_banner c)
     (el ''div'' [(''role'', AText ''status'')]
       [el ''span'' [(''style.color'', AText ''var(--color-stage-dead)'')] [Text ''Backend offline.''],
        Text '' '',
        span_el
          [Text ''Start it with '',
           el ''code'' [] [Text ''docker compose -f docker-compose.yml -f docker-compose.demo.yml up''],
           Text ''. Scenario triggers still run over HTTP, but the pipeline stops animating until the feed returns.'']])"

subsection \<open>Scenarios (\<open>ScenarioBar.tsx\<close>)\<close>

definition story_line :: "story_step \<Rightarrow> view" where
  "story_line st =
     span_el
       [el ''span'' [(''style.backgroundColor'', AText (TONE_COLOR (st_tone st)))] [],
        span_el [Text (st_text st)]]"

definition scenario_card :: "bool \<Rightarrow> scenario_def \<Rightarrow> view" where
  "scenario_card busy sd =
     div_el
       [click [(''disabled'', AFlag busy), (''title'', AText (sd_description sd)),
               (''style.borderLeftColor'', AText (accent sd)), (''style.borderLeftWidth'', ANumber 3)]
          (OnRun (sd_id sd))
          [span_el
             [span_el [Text (sd_label sd)],
              el ''span'' [(''style.backgroundColor'', AText ''var(--surface-2)''), (''style.color'', AText (accent sd))]
                [Text (sd_expected sd)]],
           span_el [Text (sd_description sd)]],
        span_el [InfoTip (sd_label sd) [span_el (map story_line (sd_story sd))]]]"

definition ScenarioBar :: "bool \<Rightarrow> view" where
  "ScenarioBar busy =
     div_el (map (scenario_card busy) SCENARIOS @ [click [] OnReset [Text ''Reset'']])"

subsection \<open>The timeline (\<open>TokenDetail.tsx\<close>)\<close>

definition Row :: "string \<Rightarrow> string \<Rightarrow> string option \<Rightarrow> view" where
  "Row label v color =
     div_el
       [span_el [Text label],
        el ''span'' (if truthy_str color then [(''style.color'', AText (the color))] else []) [Text v]]"

definition padStart3 :: "string \<Rightarrow> string" where
  "padStart3 s = replicate (3 - js_length s) (CHR ''0'') @ s"

text \<open>\<open>event.attempts ? ... : null\<close>: neither absent, nor zero, nor \<open>NaN\<close>.\<close>

definition truthy_attempts :: "jsnum option \<Rightarrow> bool" where
  "truthy_attempts a \<longleftrightarrow> a \<noteq> None \<and> a \<noteq> Some (Fin 0) \<and> a \<noteq> Some NaN"

definition timeline_item :: "locale_texts \<Rightarrow> stage_event \<Rightarrow> view" where
  "timeline_item lc event =
     el ''li'' []
       ([el ''span'' [(''style.backgroundColor'', AText (sm_color (STAGE_META (se_stage event))))] [],
         div_el
           [span_el [Text (sm_label (STAGE_META (se_stage event)))],
            span_el [Text (lc_time24 lc (se_ts event) @ ''.'' @ padStart3 (lc_millis lc (se_ts event)))]]]
        @ when_shown (truthy_attempts (se_attempts event))
            (span_el [Text (''attempt '' @ number_string (lc_fraction lc) (the (se_attempts event)))]))"

text \<open>
  \<open>None\<close> is a render that throws: what the plain object inherits under an id is no token, and its
  \<open>stages\<close> is undefined.
\<close>

fun TokenDetail :: "locale_texts \<Rightarrow> slot \<Rightarrow> nat \<Rightarrow> view option" where
  "TokenDetail lc Inherited n = None"
| "TokenDetail lc Missing n =
     Some (Panel ''Event timeline''
       (Some ''Stage-by-stage trace of the selected event as it moved through the pipeline (received, signature checked, published, consumed, and its final outcome), with timings.'')
       [] [Empty [Text ''Select a token in the pipeline to inspect its journey.'']])"
| "TokenDetail lc (Own t) n =
     Some (Panel ''Event timeline''
       (Some ''Stage-by-stage trace of the selected event as it moved through the pipeline (received, signature checked, published, consumed, and its final outcome), with timings.'')
       []
       [div_el
          [div_el
             ([Row ''correlation_id'' (tk_correlationId t) (Some (tk_color t)),
               Row ''event_id'' (nullish (tk_eventId t) ''(none)'') None,
               Row ''event_type'' (tk_eventType t) None]
              @ (case shares_note t n of Some note \<Rightarrow> [span_el [Text note]] | None \<Rightarrow> [])),
           el ''ol'' [] (map (timeline_item lc) (tk_stages t))]])"

subsection \<open>Counters (\<open>MetricsPanel.tsx\<close>)\<close>

definition middle_dot :: string where "middle_dot = [CHR 0xC2, CHR 0xB7]"

definition counter_box :: "counters \<Rightarrow> (counters \<Rightarrow> nat) \<times> string \<times> string \<Rightarrow> view" where
  "counter_box counters m =
     (case m of (key, label, color) \<Rightarrow>
        div_el [el ''div'' [(''style.color'', AText color)] [Text (digits (key counters))],
                div_el [Text label]])"

definition MetricsPanel :: "counters \<Rightarrow> rat list \<Rightarrow> view" where
  "MetricsPanel counters latencies =
     (case metrics_lines latencies of (p50, p95, n) \<Rightarrow>
        Panel ''Live counters''
          (Some ''Running tally of how each event ended up: processed OK, skipped as duplicate, retried, dead-lettered, or rejected. Below, the percentiles show how fast the API returned its 202 acknowledgement (measured in your browser).'')
          []
          [div_el (map (counter_box counters) COUNTER_META),
           div_el
             [div_el [Text ''202 latency''], div_el [Text ''client-side''],
              div_el [span_el [Text (middle_dot @ '' p50 '' @ p50)],
                      span_el [Text (middle_dot @ '' p95 '' @ p95)],
                      span_el [Text (middle_dot @ '' n '' @ digits n)]]]])"

subsection \<open>The HTTP response (\<open>ResponsePanel.tsx\<close>)\<close>

definition Timing :: "string \<Rightarrow> string \<Rightarrow> view" where
  "Timing label v = div_el [span_el [Text label], span_el [Text v]]"

text \<open>The body's text; an absent body shows nothing.\<close>

definition body_text :: "locale_texts \<Rightarrow> json option \<Rightarrow> view list" where
  "body_text lc body = (case body of
       None \<Rightarrow> []
     | Some b \<Rightarrow> [Text (nullish (formatBody b) (lc_json lc b))])"

definition response_body :: "locale_texts \<Rightarrow> slot \<Rightarrow> view" where
  "response_body lc s =
     (let empty = Empty [Text ''Fire a scenario to see the real HTTP response.''] in
      case s of
        Own t \<Rightarrow>
          (case tk_httpStatus t of
             None \<Rightarrow> empty
           | Some status \<Rightarrow>
               div_el
                 [div_el [StatusBadge status],
                  div_el [Timing ''response'' (response_label t),
                          Timing ''processing'' (processing_label (lc_date lc) t)],
                  div_el [span_el [Text ''correlation_id''], Text '' '',
                          el ''span'' [(''style.color'', AText (tk_color t))] [Text (tk_correlationId t)]],
                  el ''pre'' [] (body_text lc (tk_httpBody t))])
      | _ \<Rightarrow> empty)"

definition ResponsePanel :: "locale_texts \<Rightarrow> slot \<Rightarrow> view" where
  "ResponsePanel lc s =
     Panel ''HTTP response''
       (Some ''The real reply the API sent for this webhook: status code, response time, and the JSON body. 202 = accepted and queued for async processing; 4xx/5xx = rejected at the door.'')
       [] [response_body lc s]"

subsection \<open>The signature (\<open>SignaturePanel.tsx\<close>)\<close>

definition Step :: "nat \<Rightarrow> string \<Rightarrow> string \<Rightarrow> (string \<times> attr_value) list \<Rightarrow> string \<Rightarrow> view" where
  "Step n title hint rest body =
     el ''li'' []
       [div_el [span_el [Text (digits n)], span_el [Text title]],
        p_el [Text hint],
        el ''div'' rest [Text body]]"

definition Connector :: "string \<Rightarrow> view" where
  "Connector label =
     el ''li'' [(''aria-hidden'', AText ''true'')]
       [span_el [Text [CHR 0xE2, CHR 0x86, CHR 0x93]], span_el [Text label]]"

definition SignaturePanel :: "string \<Rightarrow> string \<Rightarrow> string \<Rightarrow> signature_panel \<Rightarrow> view" where
  "SignaturePanel timestamp rawBody secret p =
     Panel ''What the API demands from senders''
       (Some ''The signing contract this API enforces at its boundary. A real partner (a marketplace, a payment provider) runs this recipe on their servers before every delivery. In this demo the browser plays the partner, so you can watch the ingredients of the request that was just fired.'')
       []
       [el ''ol'' []
          [Step 1 ''x-timestamp''
             ''The sender stamps Unix seconds. The API refuses anything older than 5 minutes, which kills captured-and-resent deliveries.''
             [] timestamp,
           Connector ''take the exact request bytes'',
           Step 2 ''raw body''
             (''Byte for byte as shipped on the wire. If a single character changes in transit, the API'' @ [CHR 0x27] @ ''s check fails.'')
             [] rawBody,
           Connector ''join them with a dot'',
           Step 3 ''canonical string''
             ''The one string that gets hashed. Binding timestamp to body means neither can be swapped on its own.''
             [] (canonicalString timestamp rawBody),
           Connector (''hash with HMAC-SHA256 + shared secret '' @ [CHR 0x22] @ secret @ [CHR 0x22]),
           Step 4 ''x-signature header''
             (''The sender'' @ [CHR 0x27] @ ''s proof of identity. The API rebuilds this from the same ingredients and compares: match means a real partner, mismatch means 401 at the door.'')
             [(''data-testid'', AText ''signature'')] (signature_text p)]]"

subsection \<open>Dead letters (\<open>DlqPanel.tsx\<close>)\<close>

definition AttemptDots :: "locale_texts \<Rightarrow> jsnum \<Rightarrow> view" where
  "AttemptDots lc attempts =
     el ''span'' [(''title'', AText (attempt_title (lc_fraction lc) attempts))]
       (map (\<lambda>lit. el ''span'' [(''style.backgroundColor'', AText ''var(--color-stage-retry)''),
                               (''style.opacity'', ANumber (if lit then 1 else 1 / 4))] [])
          (attempt_dots attempts)
        @ [span_el [Text (number_string (lc_fraction lc) attempts @ ''/'' @ int_to_string PANEL_MAX_ATTEMPTS)]])"

definition DetailRow :: "string \<Rightarrow> string \<Rightarrow> view" where
  "DetailRow label v = div_el [el ''dt'' [] [Text label], el ''dd'' [] [Text v]]"

definition refresh_button :: "dlq_panel \<Rightarrow> view" where
  "refresh_button p =
     click [(''disabled'', AFlag (dp_loading p)), (''aria-busy'', AFlag (dp_loading p))] OnRefresh
       [el ''svg'' [(''viewBox'', AText ''0 0 24 24''), (''width'', AText ''12''), (''height'', AText ''12''),
                   (''fill'', AText ''none''), (''stroke'', AText ''currentColor''), (''strokeWidth'', AText ''2.2''),
                   (''strokeLinecap'', AText ''round''), (''strokeLinejoin'', AText ''round''),
                   (''aria-hidden'', AText ''true'')]
          [el ''path'' [(''d'', AText ''M21 12a9 9 0 1 1-3-6.7'')] [],
           el ''path'' [(''d'', AText ''M21 3v5h-5'')] []],
        Text ''refresh'']"

definition discard_button :: "dlq_entry \<Rightarrow> view" where
  "discard_button e =
     click [(''title'', AText ''Discard this dead letter (DELETE /dlq/:id)''),
            (''aria-label'', AText (''Discard dead letter '' @ entry_name e))]
       (OnDiscard e) [Text [CHR 0xC3, CHR 0x97]]"

definition select_button :: "locale_texts \<Rightarrow> dlq_entry \<Rightarrow> view" where
  "select_button lc e =
     (let diag = diagnose (lc_fraction lc) e in
      click [(''style.borderLeftColor'', AText (dg_color diag)), (''style.borderLeftWidth'', ANumber 3)]
        (OnSelect (de_correlationId e))
        [div_el
           [el ''span'' [(''style.backgroundColor'', AText ''var(--surface-2)''), (''style.color'', AText (dg_color diag))]
              [Text (dg_badge diag)],
            AttemptDots lc (de_attempts e)],
         div_el [Text (dg_summary diag)],
         div_el
           ([span_el [Text (nullish (de_eventId e) (de_correlationId e))],
             span_el [Text (middle_dot @ '' '' @ lc_time lc (de_createdAt e))]]
            @ when_shown (truthy_str (de_replayedAt e))
                (el ''span'' [(''style.backgroundColor'', AText ''var(--surface-2)''),
                              (''style.color'', AText ''var(--color-stage-published)'')] [Text ''replayed'']))])"

definition payload_text :: "locale_texts \<Rightarrow> string option \<Rightarrow> string" where
  "payload_text lc payload = nullish (formatPayload payload) (lc_payload lc (nullish payload []))"

definition entry_detail :: "locale_texts \<Rightarrow> dlq_panel \<Rightarrow> dlq_entry \<Rightarrow> view" where
  "entry_detail lc p e =
     div_el
       [el ''dl'' []
          ([DetailRow ''event_id'' (nullish (de_eventId e) ''(none)''),
            DetailRow ''message_id'' (nullish (de_messageId e) ''(none)''),
            DetailRow ''raw reason'' (de_reason e),
            DetailRow ''failed_at'' (lc_dateTime lc (de_createdAt e))]
           @ (if truthy_str (de_replayedAt e)
              then [DetailRow ''replayed_at'' (lc_dateTime lc (the (de_replayedAt e)))] else [])),
        click [(''disabled'', AFlag (dp_replayingId p \<noteq> None)),
               (''aria-busy'', AFlag (dp_replayingId p = Some (de_id e)))]
          (OnReplay e)
          [Text (if dp_replayingId p = Some (de_id e) then ''replaying...'' else ''replay via POST /dlq/:id/replay'')],
        div_el [Text ''payload''],
        el ''pre'' [] [Text (payload_text lc (de_payload e))]]"

definition entry_item :: "locale_texts \<Rightarrow> string option \<Rightarrow> dlq_panel \<Rightarrow> dlq_entry \<Rightarrow> view" where
  "entry_item lc selectedId p e =
     el ''li'' []
       ([discard_button e, select_button lc e]
        @ when_shown (selectedId = Some (de_correlationId e)) (entry_detail lc p e))"

definition entries_view :: "locale_texts \<Rightarrow> string option \<Rightarrow> dlq_panel \<Rightarrow> dlq_entry list \<Rightarrow> view" where
  "entries_view lc selectedId p es =
     (if truthy_str (dp_error p) then Empty [Text (the (dp_error p))]
      else if es = [] then Empty [Text ''No dead-lettered messages yet.'']
      else el ''ul'' [] (map (entry_item lc selectedId p) es))"

definition replay_note :: "dlq_panel \<Rightarrow> view list" where
  "replay_note p = (if truthy_str (dp_replayNote p) then [p_el [Text (the (dp_replayNote p))]] else [])"

definition updated_line :: "locale_texts \<Rightarrow> dlq_panel \<Rightarrow> dlq_entry list \<Rightarrow> view list" where
  "updated_line lc p es =
     (case dp_updatedAt p of
        Some stamp \<Rightarrow> when_shown (\<not> truthy_str (dp_error p))
          (p_el [Text (digits (length es) @ '' shown '' @ middle_dot @ '' updated '' @ lc_clock lc stamp)])
      | None \<Rightarrow> [])"

text \<open>\<open>None\<close>: \<open>entries\<close> is no array, so the render throws where it reads it, which it does unless there is an error.\<close>

definition DlqPanel :: "locale_texts \<Rightarrow> string option \<Rightarrow> dlq_panel \<Rightarrow> view option" where
  "DlqPanel lc selectedId p =
     (let panel = Panel ''Dead letter queue''
            (Some ''Events that failed for good, with every retry exhausted. Click one to see why it landed here. Refresh re-reads GET /dlq from the API.'')
            [refresh_button p]
      in case dp_entries p of
           Some es \<Rightarrow> Some (panel (entries_view lc selectedId p es # replay_note p @ updated_line lc p es))
         | None \<Rightarrow>
             if truthy_str (dp_error p)
             then Some (panel (Empty [Text (the (dp_error p))] # replay_note p)) else None)"

end
