(* ===== verification/WebPage.thy ===== *)
theory WebPage
  imports WebView "HOL-Library.Multiset"
begin

text \<open>
  The whole page: the markup of the pipeline drawing (\<open>src/web/src/components/Pipeline.tsx\<close>) and of the
  application (\<open>src/web/src/App.tsx\<close>), composed of the panels of theory \<open>WebView\<close>, and what a click on one of
  its controls changes at once. The lemmas say which controls a page offers, that the drawing and its
  legend number the same tokens alike, that the things that must not run twice cannot be started twice,
  when a page cannot be drawn, and that captions stay inside the picture.
\<close>

subsection \<open>Playback controls\<close>

definition step_title :: "string option \<Rightarrow> string \<Rightarrow> string \<Rightarrow> string" where
  "step_title selectedId chosen plain = (if truthy_str selectedId then chosen else plain)"

definition walk_buttons :: "string option \<Rightarrow> pipeline \<Rightarrow> view" where
  "walk_buttons selectedId p =
     (let paused = pl_pausedAt p \<noteq> None;
          back = step_title selectedId ''Step selected ball backward'' ''Step backward'';
          pause = (if paused then ''Resume'' else ''Pause'')
      in div_el
        [click [(''title'', AText back), (''aria-label'', AText back)] (OnStep False)
           [Text [CHR 0xE2, CHR 0x80, CHR 0xB9]],
         click [(''title'', AText pause), (''aria-label'', AText pause)] OnTogglePause
           [Text (if paused then [CHR 0xE2, CHR 0x96, CHR 0xB6] else [CHR 0xE2, CHR 0x8F, CHR 0xB8])],
         click
           [(''title'', AText (step_title selectedId ''Skip selected ball forward (jumps retry waits)''
                                ''Skip forward (jumps retry waits)'')),
            (''aria-label'', AText (step_title selectedId ''Skip selected ball forward'' ''Skip forward''))]
           (OnStep True) [Text [CHR 0xE2, CHR 0x80, CHR 0xBA]]])"

definition playback_bar :: "bool \<Rightarrow> string option \<Rightarrow> pipeline \<Rightarrow> view" where
  "playback_bar reduce selectedId p =
     div_el
       (when_shown (paced reduce p) (walk_buttons selectedId p)
        @ [span_el [Text ''Playback''],
           div_el (map (\<lambda>(v, label). click [] (OnPlayback v) [Text label])
                     [(True, ''Slow demo''), (False, ''Real-time'')])])"

subsection \<open>The drawing\<close>

abbreviation num :: "string \<Rightarrow> rat \<Rightarrow> string \<times> attr_value" where "num k q \<equiv> (k, ANumber q)"
abbreviation str :: "string \<Rightarrow> string \<Rightarrow> string \<times> attr_value" where "str k v \<equiv> (k, AText v)"

definition edge_line :: "node_key \<times> node_key \<Rightarrow> view" where
  "edge_line e =
     (let a = the (nodeCenter (fst e)); b = the (nodeCenter (snd e)) in
      el ''line''
        [num ''x1'' (fst a), num ''y1'' (snd a), num ''x2'' (fst b), num ''y2'' (snd b),
         str ''stroke'' ''var(--border-strong)'', num ''strokeWidth'' (3 / 2), str ''strokeDasharray'' ''4 4''] [])"

definition node_box :: "node_spec \<Rightarrow> view" where
  "node_box n =
     (let x = of_int (ns_x n); y = of_int (ns_y n); w = of_int (ns_w n); h = of_int (ns_h n) in
      el ''g'' []
        ([el ''rect'' [num ''x'' x, num ''y'' y, num ''width'' w, num ''height'' h, num ''rx'' 8,
                      str ''fill'' ''var(--surface-2)'', str ''stroke'' ''var(--border-strong)''] [],
          el ''text'' [num ''x'' (x + w / 2), num ''y'' (y + h / 2 - 2), str ''textAnchor'' ''middle'',
                      str ''fill'' ''var(--text)'', num ''fontSize'' 12, num ''fontWeight'' 600] [Text (ns_label n)]]
         @ when_shown (ns_sub n \<noteq> [])
             (el ''text'' [num ''x'' (x + w / 2), num ''y'' (y + h / 2 + 13), str ''textAnchor'' ''middle'',
                         str ''fill'' ''var(--text-faint)'', num ''fontSize'' 9] [Text (ns_sub n)])))"

text \<open>The number of a token, the last one under its id.\<close>

definition seqOf :: "token list \<Rightarrow> string \<Rightarrow> nat option" where
  "seqOf tokens =
     foldl (\<lambda>m (index, t). m(tk_correlationId t \<mapsto> index + 1)) Map.empty (enumerate 0 tokens)"

definition seq_text :: "nat option \<Rightarrow> string" where
  "seq_text n = (case n of Some k \<Rightarrow> digits k | None \<Rightarrow> [])"

definition ball_view ::
  "bool \<Rightarrow> string option \<Rightarrow> int \<Rightarrow> token list \<Rightarrow> pipeline \<Rightarrow> position \<Rightarrow> view" where
  "ball_view reduce selectedId now tokens p po =
     (let t = po_token po; i = tk_correlationId t; v = po_visual po; chosen = selectedId = Some i;
          caption = vi_caption v
      in Element ''g''
           [num ''animate.x'' (po_x po), num ''animate.y'' (po_y po), str ''style.cursor'' ''pointer'']
           (Some (OnSelect i))
           ([el ''circle'' [num ''r'' (if chosen then 12 else 9), str ''fill'' (vi_color v),
                           str ''stroke'' (if chosen then ''var(--text)'' else ''transparent''), num ''strokeWidth'' 2] []]
            @ when_shown (tk_terminal t \<and> vi_atEnd v)
                (el ''circle'' [num ''r'' 14, str ''fill'' ''none'', str ''stroke'' (vi_color v), num ''strokeWidth'' 1] [])
            @ [el ''text'' [str ''textAnchor'' ''middle'', str ''dominantBaseline'' ''central'', str ''fill'' ''#0b0f1a'',
                           num ''fontSize'' 10, num ''fontWeight'' 700, str ''style.pointerEvents'' ''none'']
                 [Text (seq_text (seqOf tokens i))]]
            @ (case elapsed reduce now p t (vi_node v) of
                 Some s \<Rightarrow> [el ''text'' [num ''y'' (- 17), str ''textAnchor'' ''middle'', str ''fill'' ''var(--text-muted)'',
                                       num ''fontSize'' 10]
                              [Text ([CHR 0xE2, CHR 0x8F, CHR 0xB1] @ '' '' @ int_to_string s @ ''s'')]]
               | None \<Rightarrow> [])
            @ when_shown (show_caption reduce now p t v)
                (el ''text'' [num ''x'' (captionX (po_x po) caption), num ''y'' (of_int (captionY (po_captionRow po))),
                            str ''textAnchor'' ''middle'', str ''fill'' ''var(--text-muted)'', num ''fontSize'' 12,
                            str ''style.pointerEvents'' ''none'', str ''style.paintOrder'' ''stroke'',
                            str ''style.stroke'' ''var(--surface)'', num ''style.strokeWidth'' 3]
                   [Text caption])))"

definition drawing ::
  "(rat \<Rightarrow> string) \<Rightarrow> bool \<Rightarrow> string option \<Rightarrow> int \<Rightarrow> token list \<Rightarrow> pipeline \<Rightarrow> view" where
  "drawing fraction reduce selectedId now tokens p =
     div_el
       [el ''svg'' [str ''viewBox'' (''0 0 '' @ int_to_string VIEWBOX_W @ '' '' @ int_to_string VIEWBOX_H),
                   str ''role'' ''img'', str ''aria-label'' ''Webhook ingestion pipeline'']
          (map edge_line EDGES @ map node_box NODES
           @ map (ball_view reduce selectedId now tokens p) (positions fraction reduce p tokens))]"

definition tokenColor :: "token \<Rightarrow> string" where
  "tokenColor t = sm_color (STAGE_META (tk_currentStage t))"

definition legend_entry :: "nat \<times> token \<Rightarrow> view" where
  "legend_entry e =
     (case e of (index, t) \<Rightarrow>
        click [] (OnSelect (tk_correlationId t))
          [el ''span'' [str ''style.backgroundColor'' (tokenColor t), str ''style.color'' ''#0b0f1a''] [Text (digits (index + 1))],
           span_el [Text (tk_label t)],
           span_el [Text (sm_label (STAGE_META (tk_currentStage t)))]])"

definition legend :: "token list \<Rightarrow> view" where
  "legend tokens = div_el (map legend_entry (enumerate 0 tokens))"

text \<open>The arrivals in retry boxes are noted while the component renders, before it draws.\<close>

definition Pipeline ::
  "(rat \<Rightarrow> string) \<Rightarrow> bool \<Rightarrow> string option \<Rightarrow> int \<Rightarrow> token list \<Rightarrow> pipeline \<Rightarrow> view" where
  "Pipeline fraction reduce selectedId now tokens p =
     div_el
       [playback_bar reduce selectedId p,
        drawing fraction reduce selectedId now tokens (foldl (note_arrival fraction reduce now) p tokens),
        legend tokens]"

subsection \<open>The application\<close>

record page =
  pg_app :: app
  pg_store :: store
  pg_pipeline :: pipeline
  pg_panel :: dlq_panel
  pg_signature :: signature_panel
  pg_theme :: theme
  pg_now :: int

definition page_header :: "connection_state \<Rightarrow> theme \<Rightarrow> view" where
  "page_header c theme =
     el ''header'' []
       [div_el
          [el ''h1'' [] [Text (''Webhook Ingestion '' @ dash @ '' Live Demo'')],
           p_el [Text (''Real events through HMAC '' @ arrow @ '' RabbitMQ '' @ arrow @ '' idempotent worker '' @ arrow
             @ '' PostgreSQL, each stage streamed over WebSocket telemetry.'')]],
        div_el
          [ConnectionIndicator c,
           click [] OnToggleTheme [Text (if theme = Dark then ''Light'' else ''Dark'')]]]"

text \<open>\<open>selected ?? latest\<close>\<close>

definition shown_response :: "slot \<Rightarrow> token list \<Rightarrow> slot" where
  "shown_response selection tokens =
     (case selection of
        Missing \<Rightarrow> (case latest_token tokens of Some t \<Rightarrow> Own t | None \<Rightarrow> Missing)
      | _ \<Rightarrow> selection)"

definition page_body ::
  "locale_texts \<Rightarrow> web_config \<Rightarrow> bool \<Rightarrow> page \<Rightarrow> demo_state \<Rightarrow> token list \<Rightarrow> view \<Rightarrow> view \<Rightarrow> view" where
  "page_body lc cfg reduce pg d tokens detail dead =
     (let s = pg_store pg; selectedId = ap_selectedId (pg_app pg); signed = signed_sample (latest_token tokens)
      in div_el
        ([page_header (so_connection s) (pg_theme pg)]
         @ OfflineBanner (so_connection s)
         @ [ScenarioBar (ap_busy (pg_app pg)),
            Pipeline (lc_fraction lc) reduce selectedId (pg_now pg) tokens (pg_pipeline pg)]
         @ when_shown (tokens = [])
             (p_el [Text ''No events yet. Fire a scenario above to watch it travel the pipeline.''])
         @ [div_el
              [ResponsePanel lc (shown_response (selected_token d selectedId) tokens),
               MetricsPanel (ds_counters d) (ds_latencies d), detail],
            div_el [SignaturePanel (fst signed) (snd signed) (wc_hmacSecret cfg) (pg_signature pg), dead]]
         @ (case unknown_note (so_unknownVersions s) of Some note \<Rightarrow> [p_el [Text note]] | None \<Rightarrow> [])))"

text \<open>\<open>None\<close>: a component throws while rendering, so React removes the whole page.\<close>

definition App :: "locale_texts \<Rightarrow> web_config \<Rightarrow> bool \<Rightarrow> page \<Rightarrow> view option" where
  "App lc cfg reduce pg =
     (case so_state (pg_store pg) of
        Inl e \<Rightarrow> None
      | Inr d \<Rightarrow>
          (case app_tokens d of
             None \<Rightarrow> None
           | Some tokens \<Rightarrow>
               (let selectedId = ap_selectedId (pg_app pg); selection = selected_token d selectedId in
                case (TokenDetail lc selection (groupSize selection tokens), DlqPanel lc selectedId (pg_panel pg)) of
                  (Some detail, Some dead) \<Rightarrow> Some (page_body lc cfg reduce pg d tokens detail dead)
                | _ \<Rightarrow> None)))"

text \<open>
  What a click changes in the page at once; the runs, reads and calls it starts are the steps of theories
  \<open>WebStore\<close> and \<open>WebPanels\<close>.
\<close>

fun on_click ::
  "(string \<Rightarrow> string \<Rightarrow> int) \<Rightarrow> (rat \<Rightarrow> string) \<Rightarrow> token list \<Rightarrow> int \<Rightarrow> ui_action \<Rightarrow> page \<Rightarrow> page" where
  "on_click collate fraction tokens now (OnRun i) pg = pg\<lparr>pg_app := nullish (run_begin (pg_app pg)) (pg_app pg)\<rparr>"
| "on_click collate fraction tokens now OnReset pg =
     (case handleReset collate (pg_app pg) (pg_store pg) of (a, s) \<Rightarrow> pg\<lparr>pg_app := a, pg_store := s\<rparr>)"
| "on_click collate fraction tokens now OnToggleTheme pg = pg\<lparr>pg_theme := toggle_theme (pg_theme pg)\<rparr>"
| "on_click collate fraction tokens now (OnSelect i) pg = pg\<lparr>pg_app := handleSelect i (pg_app pg)\<rparr>"
| "on_click collate fraction tokens now (OnStep forward) pg =
     pg\<lparr>pg_pipeline := step_walk fraction tokens (ap_selectedId (pg_app pg)) forward now (pg_pipeline pg)\<rparr>"
| "on_click collate fraction tokens now OnTogglePause pg = pg\<lparr>pg_pipeline := togglePause now (pg_pipeline pg)\<rparr>"
| "on_click collate fraction tokens now (OnPlayback slow) pg =
     pg\<lparr>pg_pipeline := (pg_pipeline pg)\<lparr>pl_slow := slow\<rparr>\<rparr>"
| "on_click collate fraction tokens now OnRefresh pg = pg\<lparr>pg_panel := (pg_panel pg)\<lparr>dp_loading := True\<rparr>\<rparr>"
| "on_click collate fraction tokens now (OnDiscard e) pg = pg"
| "on_click collate fraction tokens now (OnReplay e) pg =
     pg\<lparr>pg_panel := (pg_panel pg)\<lparr>dp_replayingId := Some (de_id e), dp_replayNote := None\<rparr>\<rparr>"

subsection \<open>The controls of each part\<close>

lemma when_shown_simps [simp]:
  "when_shown True v = [v]" "when_shown False v = []"
  "set (when_shown b v) = (if b then {v} else {})"
  "concat (map f (when_shown b v)) = (if b then f v else [])"
  by (simp_all add: when_shown_def)

lemma controls_InfoTip [simp]: "controls (InfoTip label body) = concat (map controls body)"
  by (simp add: InfoTip_def)

lemma controls_Panel [simp]:
  "controls (Panel title info act children) = concat (map controls act) @ concat (map controls children)"
  by (simp add: Panel_def)

lemma controls_Empty [simp]: "controls (Empty children) = concat (map controls children)"
  by (simp add: Empty_def)

lemma no_controls: "(\<And>x. x \<in> set xs \<Longrightarrow> controls (f x) = []) \<Longrightarrow> concat (map controls (map f xs)) = []"
  by (induction xs) auto

lemma story_line_controls [simp]: "controls (story_line st) = []"
  by (simp add: story_line_def)

lemma scenario_card_controls [simp]:
  "controls (scenario_card busy sd) = (if busy then [] else [OnRun (sd_id sd)])"
  by (simp add: scenario_card_def no_controls del: map_map)

lemma all_scenario_ids: "set (map sd_id SCENARIOS) = UNIV"
proof -
  have "i \<in> set (map sd_id SCENARIOS)" for i
    by (cases i) (simp_all add: SCENARIOS_def scenario_defs)
  thus ?thesis by blast
qed

lemma ScenarioBar_controls:
  "set (controls (ScenarioBar busy)) = (if busy then {} else range OnRun) \<union> {OnReset}"
  using all_scenario_ids by (auto simp: ScenarioBar_def image_image[symmetric] simp flip: all_scenario_ids)

lemma TokenDetail_controls: "TokenDetail lc selection n = Some v \<Longrightarrow> controls v = []"
proof -
  have row: "controls (Row label x color) = []" for label x color by (simp add: Row_def)
  have item: "controls (timeline_item lc event) = []" for event by (simp add: timeline_item_def)
  show "TokenDetail lc selection n = Some v \<Longrightarrow> controls v = []"
    by (cases selection) (auto simp: row item no_controls simp del: map_map split: option.splits)
qed

lemma quiet_parts:
  "controls (ResponsePanel lc sl) = []"
  "controls (MetricsPanel counters latencies) = []"
  "controls (SignaturePanel timestamp rawBody secret sg) = []"
  "concat (map controls (OfflineBanner c)) = []"
  "controls (page_header c theme) = [OnToggleTheme]"
proof -
  have body: "concat (map controls (body_text lc b)) = []" for b
    by (cases b) (simp_all add: body_text_def)
  show "controls (ResponsePanel lc sl) = []"
    by (simp add: ResponsePanel_def response_body_def Let_def Timing_def StatusBadge_def body
        split: slot.splits option.splits)
  show "controls (MetricsPanel counters latencies) = []"
    by (simp add: MetricsPanel_def counter_box_def COUNTER_META_def split: prod.splits)
  show "controls (SignaturePanel timestamp rawBody secret sg) = []"
    by (simp add: SignaturePanel_def Step_def Connector_def)
  show "concat (map controls (OfflineBanner c)) = []"
    by (simp add: OfflineBanner_def)
  show "controls (page_header c theme) = [OnToggleTheme]"
    by (simp add: page_header_def ConnectionIndicator_def)
qed

lemma ball_controls [simp]:
  "controls (ball_view reduce selectedId now tokens p po) = [OnSelect (tk_correlationId (po_token po))]"
  by (cases "elapsed reduce now p (po_token po) (vi_node (po_visual po))") (simp_all add: ball_view_def Let_def)

lemma drawing_parts [simp]: "controls (edge_line e) = []" "controls (node_box n) = []"
  by (simp_all add: edge_line_def node_box_def Let_def)

lemma legend_entry_controls [simp]:
  "controls (legend_entry (index, t)) = [OnSelect (tk_correlationId t)]"
  by (simp add: legend_entry_def)

text \<open>Every token has one ball.\<close>

lemma set_remdups_first: "set (remdups_first xs) = set xs"
  by (induction xs rule: remdups_first.induct) auto

lemma distinct_remdups_first: "distinct (remdups_first xs)"
  by (induction xs rule: remdups_first.induct) (auto simp: set_remdups_first)

lemma mset_groups:
  assumes "distinct ks" and "f ` set xs \<subseteq> set ks"
  shows "mset (concat (map (\<lambda>k. filter (\<lambda>x. f x = k) xs) ks)) = mset xs"
  using assms(2)
proof (induction xs)
  case Nil
  show ?case by (induction ks) simp_all
next
  case (Cons x xs)
  have add: "mset (concat (map (\<lambda>k. filter (\<lambda>y. f y = k) (x # xs)) ls)) =
      (if f x \<in> set ls then {#x#} else {#}) + mset (concat (map (\<lambda>k. filter (\<lambda>y. f y = k) xs) ls))"
    if "distinct ls" for ls
    using that by (induction ls) auto
  from Cons add[OF assms(1)] show ?case by simp
qed

lemma group_tokens: "map po_token (group_positions fraction reduce p key here) = here"
  by (simp add: group_positions_def comp_def map_nth)

lemma positions_tokens: "mset (map po_token (positions fraction reduce p tokens)) = mset tokens"
proof -
  let ?f = "\<lambda>t. vi_node (visual_of fraction reduce p t)"
  have "map po_token (positions fraction reduce p tokens) =
      concat (map (\<lambda>k. filter (\<lambda>t. ?f t = k) tokens) (remdups_first (map ?f tokens)))"
    by (simp add: positions_def map_concat comp_def group_tokens group_at_def)
  thus ?thesis
    using mset_groups[where ks="remdups_first (map ?f tokens)" and f="?f" and xs=tokens]
    by (simp add: set_remdups_first distinct_remdups_first)
qed

lemma positions_set: "po_token ` set (positions fraction reduce p tokens) = set tokens"
  using positions_tokens[where fraction=fraction and reduce=reduce and p=p and tokens=tokens, THEN mset_eq_setD] by simp

lemma Pipeline_controls:
  "set (controls (Pipeline fraction reduce selectedId now tokens p)) =
     (if paced reduce p then {OnStep False, OnStep True, OnTogglePause} else {})
     \<union> {OnPlayback True, OnPlayback False} \<union> OnSelect ` tk_correlationId ` set tokens"
proof -
  have bar: "set (controls (playback_bar reduce selectedId p)) =
     (if paced reduce p then {OnStep False, OnStep True, OnTogglePause} else {}) \<union> {OnPlayback True, OnPlayback False}"
    by (auto simp: playback_bar_def walk_buttons_def Let_def)
  have draw: "set (controls (drawing fraction reduce selectedId now tokens q)) = OnSelect ` tk_correlationId ` set tokens" for q
    unfolding drawing_def positions_set[where fraction=fraction and reduce=reduce and p=q and tokens=tokens, symmetric]
    by (auto simp: no_controls simp del: map_map)
  have "concat (map controls (map legend_entry (enumerate n tokens))) = map (OnSelect \<circ> tk_correlationId) tokens" for n
    by (induction tokens arbitrary: n) simp_all
  hence "set (controls (legend tokens)) = OnSelect ` tk_correlationId ` set tokens"
    by (simp add: legend_def image_image del: map_map)
  with bar draw show ?thesis by (auto simp: Pipeline_def)
qed

lemma small_parts [simp]:
  "controls (DetailRow label x) = []" "controls (AttemptDots lc n) = []"
  "concat (map controls (replay_note q)) = []" "concat (map controls (updated_line lc q es)) = []"
proof -
  show "concat (map controls (updated_line lc q es)) = []"
    by (cases "dp_updatedAt q") (simp_all add: updated_line_def)
qed (simp_all add: DetailRow_def AttemptDots_def replay_note_def no_controls del: map_map)

lemma refresh_controls [simp]: "controls (refresh_button q) = (if dp_loading q then [] else [OnRefresh])"
  by (simp add: refresh_button_def)

definition entry_controls :: "string option \<Rightarrow> dlq_panel \<Rightarrow> dlq_entry \<Rightarrow> ui_action set" where
  "entry_controls selectedId q e =
     {OnDiscard e, OnSelect (de_correlationId e)}
     \<union> (if selectedId = Some (de_correlationId e) \<and> dp_replayingId q = None then {OnReplay e} else {})"

lemma entry_item_controls: "set (controls (entry_item lc selectedId q e)) = entry_controls selectedId q e"
  by (auto simp: entry_item_def entry_controls_def discard_button_def select_button_def entry_detail_def Let_def)

definition panel_controls :: "string option \<Rightarrow> dlq_panel \<Rightarrow> ui_action set" where
  "panel_controls selectedId q =
     (if dp_loading q then {} else {OnRefresh})
     \<union> (if truthy_str (dp_error q) then {} else \<Union> (entry_controls selectedId q ` set (nullish (dp_entries q) [])))"

lemma DlqPanel_controls:
  "DlqPanel lc selectedId q = Some v \<Longrightarrow> set (controls v) = panel_controls selectedId q"
  by (auto simp: DlqPanel_def Let_def panel_controls_def entries_view_def entry_item_controls
      split: option.splits if_splits)

subsection \<open>The page\<close>

lemma AppE:
  assumes "App lc cfg reduce pg = Some v"
  obtains d tokens detail dead where "so_state (pg_store pg) = Inr d" and "app_tokens d = Some tokens"
    and "controls detail = []"
    and "DlqPanel lc (ap_selectedId (pg_app pg)) (pg_panel pg) = Some dead"
    and "v = page_body lc cfg reduce pg d tokens detail dead"
  using assms by (auto simp: App_def Let_def dest: TokenDetail_controls split: sum.splits option.splits)

lemma unknown_note_controls: "concat (map controls (case unknown_note n of Some note \<Rightarrow> [p_el [Text note]] | None \<Rightarrow> [])) = []"
  by (cases "unknown_note n") simp_all

definition page_controls :: "bool \<Rightarrow> page \<Rightarrow> token list \<Rightarrow> ui_action set" where
  "page_controls reduce pg tokens =
     {OnToggleTheme, OnReset, OnPlayback True, OnPlayback False}
     \<union> (if ap_busy (pg_app pg) then {} else range OnRun)
     \<union> (if paced reduce (pg_pipeline pg) then {OnStep False, OnStep True, OnTogglePause} else {})
     \<union> OnSelect ` tk_correlationId ` set tokens
     \<union> panel_controls (ap_selectedId (pg_app pg)) (pg_panel pg)"

lemma page_body_controls:
  assumes "controls detail = []" and "DlqPanel lc (ap_selectedId (pg_app pg)) (pg_panel pg) = Some dead"
  shows "set (controls (page_body lc cfg reduce pg d tokens detail dead)) = page_controls reduce pg tokens"
  using DlqPanel_controls[OF assms(2)] assms(1)
  by (auto simp: page_body_def Let_def quiet_parts unknown_note_controls ScenarioBar_controls Pipeline_controls
        page_controls_def)


text \<open>What must run alone is not offered again at once: the render after a click on a scenario offers no
  scenario, the one after a click on a replay no replay, the one after a click on refresh no refresh.
\<close>

theorem click_starts_one_at_a_time:
  assumes page: "App lc cfg reduce pg = Some v" and a: "a \<in> set (controls v)"
    and after: "App lc cfg reduce (on_click collate fraction tokens now a pg) = Some v'"
  shows "(case a of
       OnRun i \<Rightarrow> \<forall>j. OnRun j \<notin> set (controls v')
     | OnReplay e \<Rightarrow> \<forall>f. OnReplay f \<notin> set (controls v')
     | OnRefresh \<Rightarrow> OnRefresh \<notin> set (controls v')
     | _ \<Rightarrow> True)"
proof -
  let ?pg = "on_click collate fraction tokens now a pg"
  from after obtain ts where c': "set (controls v') = page_controls reduce ?pg ts"
    by (rule AppE) (use page_body_controls in blast)
  from page obtain us where c: "set (controls v) = page_controls reduce pg us"
    by (rule AppE) (use page_body_controls in blast)
  show ?thesis
  proof (cases a)
    case (OnRun i)
    have "\<not> ap_busy (pg_app pg)"
      using a OnRun unfolding c
      by (auto simp: page_controls_def panel_controls_def entry_controls_def split: if_splits)
    hence "ap_busy (pg_app ?pg)" by (simp add: OnRun run_begin_def)
    thus ?thesis unfolding OnRun ui_action.case c'[unfolded OnRun]
      by (auto simp: OnRun page_controls_def panel_controls_def entry_controls_def)
  qed (auto simp: c' page_controls_def panel_controls_def entry_controls_def)
qed

definition initial_page :: page where
  "initial_page =
     \<lparr>pg_app = initial_app, pg_store = initial_store, pg_pipeline = initial_pipeline, pg_panel = initial_panel,
      pg_signature = initial_signature, pg_theme = Dark, pg_now = 0\<rparr>"

lemma App_iff:
  "App lc cfg reduce pg = None \<longleftrightarrow>
     (case so_state (pg_store pg) of
        Inl e \<Rightarrow> True
      | Inr d \<Rightarrow> app_tokens d = None \<or> selected_token d (ap_selectedId (pg_app pg)) = Inherited \<or>
          (dp_entries (pg_panel pg) = None \<and> \<not> truthy_str (dp_error (pg_panel pg))))"
proof (cases "so_state (pg_store pg)")
  case (Inr d)
  let ?selection = "selected_token d (ap_selectedId (pg_app pg))"
  have dead: "DlqPanel lc i q = None \<longleftrightarrow> dp_entries q = None \<and> \<not> truthy_str (dp_error q)" for i q
    by (simp add: DlqPanel_def Let_def split: option.splits)
  have detail: "TokenDetail lc ?selection n = None \<longleftrightarrow> ?selection = Inherited" for n
    by (cases ?selection) simp_all
  have "App lc cfg reduce pg = None \<longleftrightarrow> (\<forall>ts. app_tokens d = Some ts \<longrightarrow>
      TokenDetail lc ?selection (groupSize ?selection ts) = None
      \<or> DlqPanel lc (ap_selectedId (pg_app pg)) (pg_panel pg) = None)"
    by (auto simp: App_def Inr Let_def split: option.splits)
  thus ?thesis
    unfolding dead detail by (cases "app_tokens d") (simp_all add: Inr)
qed (simp add: App_def)

lemma page_draws: "App lc cfg reduce pg \<noteq> None \<Longrightarrow> \<exists>v. App lc cfg reduce pg = Some v"
  by blast

lemma initial_page_draws:
  "\<exists>v. App lc cfg reduce (initial_page\<lparr>pg_app := \<lparr>ap_selectedId = None, ap_busy = b\<rparr>\<rparr>) = Some v"
  by (rule page_draws)
     (simp add: App_iff initial_page_def initial_store_def initialState_def app_tokens_def initial_panel_def
        selected_token_def)

lemma initial_app_page: "initial_page\<lparr>pg_app := \<lparr>ap_selectedId = None, ap_busy = False\<rparr>\<rparr> = initial_page"
  by (simp add: initial_page_def initial_app_def)


lemma click_starts_one_at_a_time_witness:
  "\<forall>lc cfg fraction. \<exists>v v'. App lc cfg False initial_page = Some v \<and> OnRun Happy \<in> set (controls v) \<and>
     App lc cfg False (on_click iso_collate fraction [] 0 (OnRun Happy) initial_page) = Some v' \<and>
     (\<forall>j. OnRun j \<notin> set (controls v'))"
proof (intro allI)
  fix lc cfg fraction
  obtain v where v: "App lc cfg False initial_page = Some v"
    using initial_page_draws[of lc cfg False False] unfolding initial_app_page by blast
  obtain v' where v': "App lc cfg False (on_click iso_collate fraction [] 0 (OnRun Happy) initial_page) = Some v'"
    using initial_page_draws[of lc cfg False True] by (auto simp: run_begin_def initial_page_def initial_app_def)
  from v have run: "OnRun Happy \<in> set (controls v)"
    by (rule AppE) (simp add: page_body_controls page_controls_def initial_page_def initial_app_def)
  from click_starts_one_at_a_time[OF v run v'] v v' run show "\<exists>v v'. App lc cfg False initial_page = Some v \<and> OnRun Happy \<in> set (controls v) \<and>
      App lc cfg False (on_click iso_collate fraction [] 0 (OnRun Happy) initial_page) = Some v' \<and>
      (\<forall>j. OnRun j \<notin> set (controls v'))" by auto
qed



subsection \<open>Numbers\<close>

text \<open>What selects a token on the page, with the first text it shows.\<close>

fun marks :: "view \<Rightarrow> (string \<times> string) list" where
  "marks (Text s) = []"
| "marks (Element tag attrs act children) =
     (case act of Some (OnSelect i) \<Rightarrow> [(i, hd (concat (map texts children)))] | _ \<Rightarrow> [])
     @ concat (map marks children)"

lemma seqOf_other:
  "i \<notin> tk_correlationId ` set ts \<Longrightarrow>
     foldl (\<lambda>m (index, t). m(tk_correlationId t \<mapsto> index + 1)) m (enumerate n ts) i = m i"
  by (induction ts arbitrary: m n) auto

lemma seqOf_enumerate:
  "distinct (map tk_correlationId ts) \<Longrightarrow> (k, t) \<in> set (enumerate n ts) \<Longrightarrow>
     foldl (\<lambda>m (index, t). m(tk_correlationId t \<mapsto> index + 1)) m (enumerate n ts) (tk_correlationId t) = Some (k + 1)"
proof (induction ts arbitrary: m n)
  case (Cons u ts)
  show ?case
  proof (cases "(k, t) = (n, u)")
    case True
    with Cons.prems(1) show ?thesis
      using seqOf_other[of "tk_correlationId u" ts "m(tk_correlationId u \<mapsto> n + 1)" "Suc n"]
      by (simp del: fun_upd_apply) simp
  next
    case False
    with Cons show ?thesis by auto
  qed
qed simp

lemma ball_marks:
  "marks (ball_view reduce selectedId now tokens p po) =
     [(tk_correlationId (po_token po), seq_text (seqOf tokens (tk_correlationId (po_token po))))]"
  by (cases "elapsed reduce now p (po_token po) (vi_node (po_visual po))")
     (simp_all add: ball_view_def Let_def when_shown_def)

lemma quiet_marks [simp]: "marks (edge_line e) = []" "marks (node_box n) = []"
  by (simp_all add: edge_line_def node_box_def Let_def)

lemma legend_marks:
  "marks (legend tokens) = map (\<lambda>(k, t). (tk_correlationId t, digits (k + 1))) (enumerate 0 tokens)"
proof -
  have "marks (legend_entry e) = (case e of (k, t) \<Rightarrow> [(tk_correlationId t, digits (k + 1))])" for e
    by (cases e) (simp add: legend_entry_def)
  thus ?thesis by (simp add: legend_def comp_def split_def)
qed

lemma drawing_marks:
  "marks (drawing fraction reduce selectedId now tokens p) =
     map (\<lambda>po. (tk_correlationId (po_token po), seq_text (seqOf tokens (tk_correlationId (po_token po)))))
       (positions fraction reduce p tokens)"
  by (simp add: drawing_def comp_def ball_marks)

text \<open>The drawing and its legend number the tokens alike: whatever the walk shows and wherever the balls
  stand, every token has exactly one ball and one legend entry, both select it, and both carry its place
  in the order of the tokens, counted from one.
\<close>

theorem balls_match_legend:
  assumes "distinct (map tk_correlationId tokens)"
  shows "marks (legend tokens) = map (\<lambda>(k, t). (tk_correlationId t, digits (k + 1))) (enumerate 0 tokens) \<and>
    mset (marks (drawing fraction reduce selectedId now tokens p)) = mset (marks (legend tokens))"
proof
  let ?mark = "\<lambda>t. (tk_correlationId t, seq_text (seqOf tokens (tk_correlationId t)))"
  have seq: "seqOf tokens (tk_correlationId t) = Some (k + 1)" if "(k, t) \<in> set (enumerate 0 tokens)" for k t
    unfolding seqOf_def by (rule seqOf_enumerate[OF assms that])
  have "mset (marks (drawing fraction reduce selectedId now tokens p)) =
      image_mset ?mark (mset (map po_token (positions fraction reduce p tokens)))"
    by (simp add: drawing_marks image_mset.compositionality comp_def)
  also have "\<dots> = mset (map ?mark (map snd (enumerate 0 tokens)))"
    unfolding positions_tokens by simp
  also have "map ?mark (map snd (enumerate 0 tokens)) = marks (legend tokens)"
    unfolding legend_marks map_map
    by (rule map_cong[OF refl]) (auto simp: seq seq_text_def)
  finally show "mset (marks (drawing fraction reduce selectedId now tokens p)) = mset (marks (legend tokens))" .
qed (rule legend_marks)

lemma balls_match_legend_witness:
  "mset (marks (drawing (\<lambda>_. []) False None 0
       [(sample_token [SReceived])\<lparr>tk_correlationId := ''a''\<rparr>, (sample_token [SReceived, SDead])\<lparr>tk_correlationId := ''b''\<rparr>]
       initial_pipeline)) = {#(''a'', ''1''), (''b'', ''2'')#}"
proof -
  have one: "digits (Suc 0) = ''1''" by code_simp
  have two: "digits (Suc (Suc 0)) = ''2''" by code_simp
  show ?thesis
    using balls_match_legend[of "[(sample_token [SReceived])\<lparr>tk_correlationId := ''a''\<rparr>,
      (sample_token [SReceived, SDead])\<lparr>tk_correlationId := ''b''\<rparr>]" "\<lambda>_. []" False None 0 initial_pipeline]
    by (simp add: one two del: digits.simps)
qed

end
