(* ===== verification/WebDlq.thy ===== *)
theory WebDlq
  imports WebPage
begin

text \<open>
  The dead-letter panel in time (\<open>components/DlqPanel.tsx\<close>). \<open>WebPanels\<close> has the three handlers as if each
  request were answered at once; here each request is in flight until its answer arrives, requests overlap,
  and answers come in any order: a click or a change of the number of dead tokens runs a handler up to its
  first \<open>await\<close>, an answer runs it on from there. The lemmas say that without an overlap the two agree,
  that the panel's progress marks (\<open>loading\<close>, \<open>replayingId\<close>) match what is in flight, that every handler
  comes to its end, and what an overlap can do to the list.
\<close>

subsection \<open>The handlers, cut at their awaits\<close>

text \<open>
  What is in flight: \<open>GET /dlq\<close>, with the entry whose replay waits for this listing, if one does; a replay; a
  discard. A listing that a discard waits for has nothing left to do for the discard.
\<close>

datatype panel_job =
    Listing "dlq_entry option"
  | Replaying dlq_entry
  | Discarding dlq_entry

record panel_run =
  pn_panel :: dlq_panel
  pn_jobs :: "panel_job list"

definition start_job :: "panel_job \<Rightarrow> panel_run \<Rightarrow> panel_run" where
  "start_job j r = r\<lparr>pn_jobs := pn_jobs r @ [j]\<rparr>"

definition refresh_begin :: "dlq_entry option \<Rightarrow> panel_run \<Rightarrow> panel_run" where
  "refresh_begin awaiter r = start_job (Listing awaiter) (r\<lparr>pn_panel := (pn_panel r)\<lparr>dp_loading := True\<rparr>\<rparr>)"

definition refresh_end :: "web_config \<Rightarrow> fetch \<Rightarrow> int \<Rightarrow> dlq_entry option \<Rightarrow> panel_run \<Rightarrow> panel_run" where
  "refresh_end cfg fetch now awaiter r =
     (let p = refresh cfg fetch now (pn_panel r)
      in r\<lparr>pn_panel := (case awaiter of Some e \<Rightarrow> p\<lparr>dp_replayingId := None\<rparr> | None \<Rightarrow> p)\<rparr>)"

definition discard_begin :: "dlq_entry \<Rightarrow> panel_run \<Rightarrow> panel_run" where
  "discard_begin e r = start_job (Discarding e) r"

definition discard_end :: "web_config \<Rightarrow> fetch \<Rightarrow> dlq_entry \<Rightarrow> panel_run \<Rightarrow> panel_run" where
  "discard_end cfg fetch e r =
     (case discardDlq cfg fetch (de_id e) of
        Inr u \<Rightarrow> refresh_begin None (r\<lparr>pn_panel := (pn_panel r)\<lparr>dp_replayNote := None\<rparr>\<rparr>)
      | Inl cause \<Rightarrow>
          r\<lparr>pn_panel := (pn_panel r)\<lparr>dp_replayNote := Some (''could not discard '' @ entry_name e)\<rparr>\<rparr>)"

definition replay_begin :: "dlq_entry \<Rightarrow> panel_run \<Rightarrow> panel_run" where
  "replay_begin e r =
     start_job (Replaying e) (r\<lparr>pn_panel := (pn_panel r)\<lparr>dp_replayingId := Some (de_id e), dp_replayNote := None\<rparr>\<rparr>)"

definition replay_end :: "web_config \<Rightarrow> fetch \<Rightarrow> dlq_entry \<Rightarrow> panel_run \<Rightarrow> panel_run" where
  "replay_end cfg fetch e r =
     (case replayDlq cfg fetch (de_id e) of
        Inr receipt \<Rightarrow>
          refresh_begin (Some e) (r\<lparr>pn_panel := (pn_panel r)\<lparr>dp_replayNote := Some (''replayed '' @ entry_name e @
            '': state reset, message republished, retry budget restarted'')\<rparr>\<rparr>)
      | Inl cause \<Rightarrow>
          r\<lparr>pn_panel := (pn_panel r)\<lparr>
              dp_replayNote := Some (if is_error cause
                then error_message cause @ '' (already processed, in flight, or missing event_id)''
                else ''replay failed''),
              dp_replayingId := None\<rparr>\<rparr>)"

subsection \<open>The panel as a machine\<close>

text \<open>
  \<open>CountChanged\<close> is the effect of the component: it runs when the panel is mounted and whenever the number of
  dead tokens has changed. A click happens only on a control the panel offers. An answer is that of the
  i-th request in flight, as the server and the network give it to that request.
\<close>

datatype panel_event =
    CountChanged
  | Clicked ui_action
  | Answered nat fetch int

definition offered :: "string option \<Rightarrow> ui_action \<Rightarrow> dlq_panel \<Rightarrow> bool" where
  "offered selectedId a p \<longleftrightarrow>
     (case a of
        OnRefresh \<Rightarrow> \<not> dp_loading p
      | OnDiscard e \<Rightarrow> \<not> truthy_str (dp_error p) \<and> e \<in> set (nullish (dp_entries p) [])
      | OnReplay e \<Rightarrow> \<not> truthy_str (dp_error p) \<and> e \<in> set (nullish (dp_entries p) [])
          \<and> selectedId = Some (de_correlationId e) \<and> dp_replayingId p = None
      | _ \<Rightarrow> False)"

definition drop_job :: "nat \<Rightarrow> 'a list \<Rightarrow> 'a list" where
  "drop_job i js = take i js @ drop (Suc i) js"

fun panel_answer :: "web_config \<Rightarrow> fetch \<Rightarrow> int \<Rightarrow> panel_job \<Rightarrow> panel_run \<Rightarrow> panel_run" where
  "panel_answer cfg fetch now (Listing awaiter) r = refresh_end cfg fetch now awaiter r"
| "panel_answer cfg fetch now (Discarding e) r = discard_end cfg fetch e r"
| "panel_answer cfg fetch now (Replaying e) r = replay_end cfg fetch e r"

fun panel_click :: "ui_action \<Rightarrow> panel_run \<Rightarrow> panel_run" where
  "panel_click OnRefresh r = refresh_begin None r"
| "panel_click (OnDiscard e) r = discard_begin e r"
| "panel_click (OnReplay e) r = replay_begin e r"
| "panel_click _ r = r"

inductive panel_step :: "web_config \<Rightarrow> panel_run \<Rightarrow> panel_event \<Rightarrow> panel_run \<Rightarrow> bool" for cfg where
  count_changed: "panel_step cfg r CountChanged (refresh_begin None r)"
| clicked: "offered selectedId a (pn_panel r) \<Longrightarrow> panel_step cfg r (Clicked a) (panel_click a r)"
| answered: "i < length (pn_jobs r) \<Longrightarrow>
    panel_step cfg r (Answered i fetch now)
      (panel_answer cfg fetch now (pn_jobs r ! i) (r\<lparr>pn_jobs := drop_job i (pn_jobs r)\<rparr>))"

inductive_cases panel_stepE: "panel_step cfg r ev r'"

inductive panel_trace :: "web_config \<Rightarrow> panel_run \<Rightarrow> panel_event list \<Rightarrow> panel_run \<Rightarrow> bool" for cfg where
  still: "panel_trace cfg r [] r"
| moves: "panel_trace cfg r evs r' \<Longrightarrow> panel_step cfg r' ev r'' \<Longrightarrow> panel_trace cfg r (evs @ [ev]) r''"

definition initial_run :: panel_run where
  "initial_run = \<lparr>pn_panel = initial_panel, pn_jobs = []\<rparr>"


subsection \<open>Without an overlap\<close>

lemma drop_job_simps [simp]: "drop_job 0 (j # js) = js" "drop_job (Suc i) (j # js) = j # drop_job i js"
  by (simp_all add: drop_job_def)

lemma trace_Cons: "panel_step cfg r ev r' \<Longrightarrow> panel_trace cfg r' evs r'' \<Longrightarrow> panel_trace cfg r (ev # evs) r''"
proof (induction evs arbitrary: r'' rule: rev_induct)
  case Nil
  then show ?case using panel_trace.moves[OF panel_trace.still] by (auto elim: panel_trace.cases)
next
  case (snoc x xs)
  from snoc.prems(2) obtain s where "panel_trace cfg r' xs s" "panel_step cfg s x r''"
    by (cases rule: panel_trace.cases) auto
  with snoc.IH[OF snoc.prems(1)] show ?case
    using panel_trace.moves[of cfg r "ev # xs" s x r''] by simp
qed

text \<open>The one request in flight is answered.\<close>

lemma answer_only:
  assumes "pn_jobs r = [j]"
  shows "panel_step cfg r (Answered 0 fetch now) (panel_answer cfg fetch now j (r\<lparr>pn_jobs := []\<rparr>))"
  using panel_step.answered[of 0 r cfg fetch now] assms by simp

lemmas handler_defs = start_job_def refresh_begin_def refresh_end_def discard_begin_def discard_end_def
  replay_begin_def replay_end_def

lemma refresh_ignores_loading [simp]: "refresh cfg fetch now (p\<lparr>dp_loading := b\<rparr>) = refresh cfg fetch now p"
  by (simp add: refresh_def split: sum.splits)

lemma lone_refresh:
  assumes "pn_jobs r = []"
  shows "\<exists>r'. panel_trace cfg r [CountChanged, Answered 0 fetch now] r' \<and> pn_jobs r' = []
    \<and> pn_panel r' = refresh cfg fetch now (pn_panel r)"
proof -
  let ?r1 = "refresh_begin None r"
  have "panel_step cfg ?r1 (Answered 0 fetch now) (panel_answer cfg fetch now (Listing None) (?r1\<lparr>pn_jobs := []\<rparr>))"
    by (rule answer_only) (simp add: handler_defs assms)
  with panel_step.count_changed[of cfg r]
  have "panel_trace cfg r [CountChanged, Answered 0 fetch now]
      (panel_answer cfg fetch now (Listing None) (?r1\<lparr>pn_jobs := []\<rparr>))"
    by (blast intro: trace_Cons panel_trace.still)
  then show ?thesis by (intro exI conjI) (auto simp: handler_defs Let_def)
qed

lemma lone_discard:
  assumes "pn_jobs r = []" and "offered sel (OnDiscard e) (pn_panel r)"
  shows "\<exists>evs r'. panel_trace cfg r ([Clicked (OnDiscard e), Answered 0 fetch now] @ evs) r' \<and> pn_jobs r' = []
    \<and> pn_panel r' = panel_discard cfg fetch fetch' now e (pn_panel r)"
proof -
  let ?r1 = "discard_begin e r"
  let ?r2 = "panel_answer cfg fetch now (Discarding e) (?r1\<lparr>pn_jobs := []\<rparr>)"
  have click: "panel_step cfg r (Clicked (OnDiscard e)) ?r1"
    using panel_step.clicked[OF assms(2)] by simp
  have first: "panel_step cfg ?r1 (Answered 0 fetch now) ?r2"
    by (rule answer_only) (simp add: handler_defs assms)
  show ?thesis
  proof (cases "discardDlq cfg fetch (de_id e)")
    case (Inl cause)
    from click first have "panel_trace cfg r ([Clicked (OnDiscard e), Answered 0 fetch now] @ []) ?r2"
      by (auto intro: trace_Cons panel_trace.still)
    with Inl show ?thesis
      by (intro exI[of _ "[]"] exI[of _ ?r2] conjI) (auto simp: handler_defs panel_discard_def assms(1))
  next
    case (Inr u)
    let ?r3 = "panel_answer cfg fetch' now (Listing None) (?r2\<lparr>pn_jobs := []\<rparr>)"
    have "panel_step cfg ?r2 (Answered 0 fetch' now) ?r3"
      by (rule answer_only) (simp add: handler_defs Inr assms)
    with click first
    have "panel_trace cfg r ([Clicked (OnDiscard e), Answered 0 fetch now] @ [Answered 0 fetch' now]) ?r3"
      by (auto intro: trace_Cons panel_trace.still)
    with Inr show ?thesis
      by (intro exI[of _ "[Answered 0 fetch' now]"] exI[of _ ?r3] conjI)
        (auto simp: handler_defs panel_discard_def assms(1) Let_def)
  qed
qed

lemma lone_replay:
  assumes "pn_jobs r = []" and "offered sel (OnReplay e) (pn_panel r)"
  shows "\<exists>evs r'. panel_trace cfg r ([Clicked (OnReplay e), Answered 0 fetch now] @ evs) r' \<and> pn_jobs r' = []
    \<and> pn_panel r' = panel_replay cfg fetch fetch' now e (pn_panel r)"
proof -
  let ?r1 = "replay_begin e r"
  let ?r2 = "panel_answer cfg fetch now (Replaying e) (?r1\<lparr>pn_jobs := []\<rparr>)"
  have click: "panel_step cfg r (Clicked (OnReplay e)) ?r1"
    using panel_step.clicked[OF assms(2)] by simp
  have first: "panel_step cfg ?r1 (Answered 0 fetch now) ?r2"
    by (rule answer_only) (simp add: handler_defs assms)
  show ?thesis
  proof (cases "replayDlq cfg fetch (de_id e)")
    case (Inl cause)
    from click first have "panel_trace cfg r ([Clicked (OnReplay e), Answered 0 fetch now] @ []) ?r2"
      by (auto intro: trace_Cons panel_trace.still)
    with Inl show ?thesis
      by (intro exI[of _ "[]"] exI[of _ ?r2] conjI) (auto simp: handler_defs panel_replay_def Let_def assms(1))
  next
    case (Inr u)
    let ?r3 = "panel_answer cfg fetch' now (Listing (Some e)) (?r2\<lparr>pn_jobs := []\<rparr>)"
    have "panel_step cfg ?r2 (Answered 0 fetch' now) ?r3"
      by (rule answer_only) (simp add: handler_defs Inr assms)
    with click first
    have "panel_trace cfg r ([Clicked (OnReplay e), Answered 0 fetch now] @ [Answered 0 fetch' now]) ?r3"
      by (auto intro: trace_Cons panel_trace.still)
    with Inr show ?thesis
      by (intro exI[of _ "[Answered 0 fetch' now]"] exI[of _ ?r3] conjI)
        (auto simp: handler_defs panel_replay_def assms(1) Let_def)
  qed
qed

subsection \<open>What the marks say\<close>

text \<open>The ids of the entries whose replay is not over, and whether a listing is in flight.\<close>

fun replay_of :: "panel_job \<Rightarrow> string list" where
  "replay_of (Replaying e) = [de_id e]"
| "replay_of (Listing (Some e)) = [de_id e]"
| "replay_of _ = []"

fun is_listing :: "panel_job \<Rightarrow> bool" where
  "is_listing (Listing awaiter) = True"
| "is_listing _ = False"

definition replays :: "panel_job list \<Rightarrow> string list" where
  "replays js = concat (map replay_of js)"

definition marks_truthful :: "panel_run \<Rightarrow> bool" where
  "marks_truthful r \<longleftrightarrow>
     replays (pn_jobs r) = (case dp_replayingId (pn_panel r) of Some i \<Rightarrow> [i] | None \<Rightarrow> [])
     \<and> (dp_loading (pn_panel r) \<longrightarrow> list_ex is_listing (pn_jobs r))"

lemma replays_simps [simp]:
  "replays [] = []" "replays (j # js) = replay_of j @ replays js" "replays (js @ ks) = replays js @ replays ks"
  by (simp_all add: replays_def)

lemma drop_job_split:
  assumes "i < length js"
  shows "js = take i js @ js ! i # drop (Suc i) js"
  using assms by (rule id_take_nth_drop)

text \<open>Taking out a request whose replay is the one in progress leaves no replay; any other leaves it.\<close>

lemma replays_drop_job:
  assumes "i < length js" and "replays js = (case m of Some k \<Rightarrow> [k] | None \<Rightarrow> [])"
  shows "replays (drop_job i js) = (if replay_of (js ! i) = [] then replays js else [])"
    and "replay_of (js ! i) \<noteq> [] \<Longrightarrow> m = Some (hd (replay_of (js ! i)))"
proof -
  have split: "replays js = replays (take i js) @ replay_of (js ! i) @ replays (drop (Suc i) js)"
    by (subst drop_job_split[OF assms(1)]) simp
  have out: "replays (drop_job i js) = replays (take i js) @ replays (drop (Suc i) js)"
    by (simp add: drop_job_def)
  have one: "length (replay_of (js ! i)) \<le> 1" by (cases "js ! i" rule: replay_of.cases) simp_all
  show "replays (drop_job i js) = (if replay_of (js ! i) = [] then replays js else [])"
    using assms(2) split out one by (cases m) (auto simp: append_eq_Cons_conv Cons_eq_append_conv)
  show "m = Some (hd (replay_of (js ! i)))" if "replay_of (js ! i) \<noteq> []"
    using assms(2) split that by (cases m) (auto simp: append_eq_Cons_conv Cons_eq_append_conv)
qed

lemma listing_drop_job:
  assumes "i < length js" and "list_ex is_listing js" and "\<not> is_listing (js ! i)"
  shows "list_ex is_listing (drop_job i js)"
proof -
  have "list_ex is_listing (take i js @ js ! i # drop (Suc i) js)"
    using assms(2) drop_job_split[OF assms(1)] by simp
  thus ?thesis using assms(3) by (auto simp: drop_job_def)
qed

lemma refresh_marks [simp]:
  "dp_loading (refresh cfg fetch now p) = False"
  "dp_replayingId (refresh cfg fetch now p) = dp_replayingId p"
  by (simp_all add: refresh_def split: sum.splits)

lemma initial_marks: "marks_truthful initial_run"
  by (simp add: marks_truthful_def initial_run_def initial_panel_def)

lemma marks_step:
  assumes "panel_step cfg r ev r'" and ok: "marks_truthful r"
  shows "marks_truthful r'"
  using assms(1)
proof (cases rule: panel_step.cases)
  case count_changed
  with ok show ?thesis by (simp add: marks_truthful_def handler_defs split: option.splits)
next
  case (clicked selectedId a)
  with ok show ?thesis
    by (cases a) (auto simp: marks_truthful_def handler_defs offered_def split: option.splits)
next
  case (answered i fetch now)
  note marks = ok[unfolded marks_truthful_def]
  note drop = replays_drop_job[OF answered(3) marks[THEN conjunct1]] and listing = listing_drop_job[OF answered(3)]
  show ?thesis
  proof (cases "pn_jobs r ! i")
    case (Listing awaiter)
    with answered drop marks show ?thesis
      by (cases awaiter) (auto simp: marks_truthful_def handler_defs Let_def split: option.splits)
  next
    case (Replaying e)
    with answered drop listing marks show ?thesis
      by (auto simp: marks_truthful_def handler_defs split: sum.splits option.splits)
  next
    case (Discarding e)
    with answered drop listing marks show ?thesis
      by (auto simp: marks_truthful_def handler_defs split: sum.splits option.splits)
  qed
qed

lemma marks_trace: "panel_trace cfg r evs r' \<Longrightarrow> marks_truthful r \<Longrightarrow> marks_truthful r'"
  by (induction rule: panel_trace.induct) (auto intro: marks_step)

text \<open>The answers the requests in flight can still lead to.\<close>

fun answers_due :: "panel_job \<Rightarrow> nat" where
  "answers_due (Listing awaiter) = 1"
| "answers_due (Replaying e) = 2"
| "answers_due (Discarding e) = 2"

definition work_left :: "panel_run \<Rightarrow> nat" where
  "work_left r = sum_list (map answers_due (pn_jobs r))"

fun is_answer :: "panel_event \<Rightarrow> bool" where
  "is_answer (Answered i fetch now) = True"
| "is_answer _ = False"

lemma work_drop_job:
  assumes "i < length js"
  shows "sum_list (map answers_due js) = answers_due (js ! i) + sum_list (map answers_due (drop_job i js))"
proof -
  have "sum_list (map answers_due js) = sum_list (map answers_due (take i js @ js ! i # drop (Suc i) js))"
    using drop_job_split[OF assms] by simp
  thus ?thesis by (simp add: drop_job_def)
qed

lemma answer_works:
  assumes "panel_step cfg r ev r'" and "is_answer ev"
  shows "work_left r' < work_left r"
  using assms
proof (cases rule: panel_step.cases)
  case (answered i fetch now)
  with work_drop_job[OF answered(3)] show ?thesis
    by (cases "pn_jobs r ! i") (auto simp: work_left_def handler_defs Let_def split: sum.splits)
qed simp_all

lemma answers_work: "panel_trace cfg r evs r' \<Longrightarrow> list_all is_answer evs \<Longrightarrow> length evs + work_left r' \<le> work_left r"
proof (induction rule: panel_trace.induct)
  case (moves r evs r' ev r'')
  with answer_works[OF moves.hyps(2)] show ?case by simp
qed simp

lemma offered_is_drawn:
  assumes "DlqPanel lc selectedId p = Some v" and "\<And>i. a \<noteq> OnSelect i"
  shows "a \<in> set (controls v) \<longleftrightarrow> offered selectedId a p"
  using assms(2) unfolding DlqPanel_controls[OF assms(1)]
  by (cases a) (auto simp: panel_controls_def entry_controls_def offered_def)

subsection \<open>Properties\<close>

text \<open>C38. Whatever the user clicks, however often the number of dead tokens changes and in whatever order and with
  whatever content the answers arrive, the dead-letter panel keeps its promises: the entry it marks as being
  replayed is exactly the one whose replay, or the listing after it, is in flight, so there is never more
  than one, and a replay button that can be clicked is drawn only when there is none; the refresh button
  spins only while a listing is in flight. And it comes to rest: without further clicks or dead tokens at
  most \<open>work_left\<close> answers follow, and once nothing is in flight nothing is marked as loading or replaying.
\<close>

theorem dead_letter_panel_comes_to_rest:
  assumes "panel_trace cfg initial_run evs r"
  shows "replays (pn_jobs r) = (case dp_replayingId (pn_panel r) of Some i \<Rightarrow> [i] | None \<Rightarrow> []) \<and>
    (dp_loading (pn_panel r) \<longrightarrow> list_ex is_listing (pn_jobs r)) \<and>
    (\<forall>lc selectedId v e. DlqPanel lc selectedId (pn_panel r) = Some v \<and> OnReplay e \<in> set (controls v) \<longrightarrow>
       replays (pn_jobs r) = []) \<and>
    (\<forall>answers r'. panel_trace cfg r answers r' \<and> list_all is_answer answers \<longrightarrow>
       length answers \<le> work_left r \<and>
       (pn_jobs r' = [] \<longrightarrow> \<not> dp_loading (pn_panel r') \<and> dp_replayingId (pn_panel r') = None))"
proof -
  have ok: "marks_truthful r" using assms initial_marks by (rule marks_trace)
  have button: "replays (pn_jobs r) = []"
    if "DlqPanel lc selectedId (pn_panel r) = Some v" "OnReplay e \<in> set (controls v)" for lc selectedId v e
    using ok that(2) offered_is_drawn[OF that(1), of "OnReplay e"] by (simp add: marks_truthful_def offered_def)
  have rest: "\<not> dp_loading (pn_panel r') \<and> dp_replayingId (pn_panel r') = None"
    if "panel_trace cfg r answers r'" "pn_jobs r' = []" for answers r'
    using marks_trace[OF that(1) ok] that(2) by (simp add: marks_truthful_def split: option.splits)
  have work: "length answers \<le> work_left r"
    if "panel_trace cfg r answers r'" "list_all is_answer answers" for answers r'
    using answers_work[OF that] by simp
  from ok show ?thesis
    unfolding marks_truthful_def using button rest work by blast
qed

definition empty_listing :: fetch where
  "empty_listing q = Inr \<lparr>fs_status = 200, fs_header = Map.empty, fs_text = Inr ''{\"data\":[]}''\<rparr>"

definition sample_listing :: fetch where
  "sample_listing q = Inr \<lparr>fs_status = 200, fs_header = Map.empty, fs_text = Inr ''{\"data\":[{\"id\":\"d-1\"}]}''\<rparr>"

lemma two_refreshes_started:
  "panel_trace cfg initial_run [CountChanged, CountChanged]
     \<lparr>pn_panel = initial_panel\<lparr>dp_loading := True\<rparr>, pn_jobs = [Listing None, Listing None]\<rparr>"
proof -
  have "panel_step cfg initial_run CountChanged (refresh_begin None initial_run)"
    "panel_step cfg (refresh_begin None initial_run) CountChanged (refresh_begin None (refresh_begin None initial_run))"
    by (rule panel_step.count_changed)+
  hence "panel_trace cfg initial_run [CountChanged, CountChanged] (refresh_begin None (refresh_begin None initial_run))"
    by (blast intro: trace_Cons panel_trace.still)
  thus ?thesis by (simp add: handler_defs initial_run_def)
qed

lemma dead_letter_panel_comes_to_rest_witness:
  "\<forall>cfg r'. \<not> panel_trace cfg \<lparr>pn_panel = initial_panel\<lparr>dp_loading := True\<rparr>, pn_jobs = [Listing None, Listing None]\<rparr>
     (replicate 3 (Answered 0 empty_listing 0)) r'"
proof (intro allI notI)
  fix cfg r'
  assume "panel_trace cfg \<lparr>pn_panel = initial_panel\<lparr>dp_loading := True\<rparr>, pn_jobs = [Listing None, Listing None]\<rparr>
    (replicate 3 (Answered 0 empty_listing 0)) r'"
  with dead_letter_panel_comes_to_rest[OF two_refreshes_started] show False
    by (fastforce simp: work_left_def list_all_iff)
qed



text \<open>
  A second click on a discard button before the first has answered: the button is never disabled, so the second
  request meets an entry that is gone, and the panel ends up saying that the entry could not be discarded
  above a list it is discarded from.
\<close>

lemma double_discard_reports_failure:
  assumes "pn_jobs r = []" and "offered sel (OnDiscard e) (pn_panel r)"
    and "discardDlq cfg discarded (de_id e) = Inr ()" and "discardDlq cfg gone (de_id e) = Inl cause"
    and "bind_res (fetchDlq cfg listing) page_entries = Inr entries"
  shows "\<exists>r'. panel_trace cfg r [Clicked (OnDiscard e), Clicked (OnDiscard e), Answered 0 discarded t, Answered 0 gone t,
      Answered 0 listing t] r' \<and> dp_entries (pn_panel r') = entries \<and>
    dp_replayNote (pn_panel r') = Some (''could not discard '' @ entry_name e) \<and> pn_jobs r' = []"
proof -
  let ?r1 = "discard_begin e r" let ?r2 = "discard_begin e ?r1"
  let ?r3 = "panel_answer cfg discarded t (Discarding e) (?r2\<lparr>pn_jobs := [Discarding e]\<rparr>)"
  let ?r4 = "panel_answer cfg gone t (Discarding e) (?r3\<lparr>pn_jobs := [Listing None]\<rparr>)"
  let ?r5 = "panel_answer cfg listing t (Listing None) (?r4\<lparr>pn_jobs := []\<rparr>)"
  have "panel_step cfg r (Clicked (OnDiscard e)) ?r1"
    using panel_step.clicked[OF assms(2)] by simp
  moreover have "panel_step cfg ?r1 (Clicked (OnDiscard e)) ?r2"
    using panel_step.clicked[of sel "OnDiscard e" ?r1] assms(2) by (simp add: handler_defs)
  moreover have "panel_step cfg ?r2 (Answered 0 discarded t) ?r3"
    using panel_step.answered[of 0 ?r2 cfg discarded t] assms(1) by (simp add: handler_defs)
  moreover have "panel_step cfg ?r3 (Answered 0 gone t) ?r4"
    using panel_step.answered[of 0 ?r3 cfg gone t] assms(1,3) by (simp add: handler_defs)
  moreover have "panel_step cfg ?r4 (Answered 0 listing t) ?r5"
    by (rule answer_only) (simp add: handler_defs assms)
  ultimately have "panel_trace cfg r [Clicked (OnDiscard e), Clicked (OnDiscard e), Answered 0 discarded t,
      Answered 0 gone t, Answered 0 listing t] ?r5"
    by (blast intro: trace_Cons panel_trace.still)
  then show ?thesis
    using assms by (intro exI[of _ ?r5] conjI) (auto simp: handler_defs refresh_def Let_def)
qed

end
