(* ===== verification/Bench.thy ===== *)
theory Bench
  imports WebClient WebState "HOL-Library.While_Combinator"
begin

text \<open>
  The load script \<open>src/bench/latency-smoke.mjs\<close>: the signed request it sends, the pump that keeps a bounded
  number of requests in flight, and the summary it prints. A run of the pump is the list of the
  replies in the order they arrive; a turn that would loop for ever is \<open>None\<close> (\<open>while_option\<close>).
\<close>

subsection \<open>Settings and requests\<close>

record smoke_settings =
  sm_target :: string
  sm_secret :: string
  sm_total :: jsnum
  sm_concurrency :: jsnum
  sm_warmup :: jsnum

definition smoke_settings_of :: "(string \<Rightarrow> string option) \<Rightarrow> smoke_settings" where
  "smoke_settings_of process_env =
     \<lparr>sm_target = nullish (process_env ''SMOKE_TARGET'') ''http://localhost:3000/webhooks/orders'',
      sm_secret = nullish (process_env ''WEBHOOK_HMAC_SECRET'') ''change-me'',
      sm_total = config_number process_env ''SMOKE_REQUESTS'' 2000,
      sm_concurrency = config_number process_env ''SMOKE_CONCURRENCY'' 20,
      sm_warmup = config_number process_env ''SMOKE_WARMUP'' 200\<rparr>"

definition bench_body :: "string \<Rightarrow> json" where
  "bench_body uuid =
     JObj [(''event_id'', JStr uuid), (''event_type'', JStr ''order.created''),
           (''payload'', JObj [(''amount'', JNum (Fin 4200)), (''currency'', JStr ''BRL'')])]"

text \<open>The headers and the body of one request; \<open>now\<close> is \<open>Date.now()\<close>.\<close>

definition bench_request :: "string \<Rightarrow> string \<Rightarrow> int \<Rightarrow> headers \<times> string" where
  "bench_request secret uuid now =
     (let body = stringify (bench_body uuid);
          timestamp = int_to_string (now div 1000);
          signature = digest_hex (hmac_sha256 (utf8_bytes secret) (utf8_bytes (timestamp @ ''.'' @ body)))
      in ([''content-type'' \<mapsto> Single ''application/json'',
           ''content-length'' \<mapsto> Single (int_to_string (int (length body))),
           ''x-timestamp'' \<mapsto> Single timestamp,
           ''x-signature'' \<mapsto> Single signature], body))"

record sample =
  sp_status :: int
  sp_ms :: rat

text \<open>What \<open>post\<close> resolves with: a response with its status and duration, or the request's \<open>error\<close> event.\<close>

definition post_sample :: "(int \<times> rat) option \<Rightarrow> sample" where
  "post_sample r = (case r of
       Some (status, ms) \<Rightarrow> \<lparr>sp_status = status, sp_ms = ms\<rparr>
     | None \<Rightarrow> \<lparr>sp_status = 0, sp_ms = 0\<rparr>)"

subsection \<open>The pump\<close>

record bench_run =
  br_done :: nat
  br_inFlight :: nat
  br_samples :: "sample list"
  br_resolved :: bool

definition wants_more :: "jsnum \<Rightarrow> jsnum \<Rightarrow> bench_run \<Rightarrow> bool" where
  "wants_more concurrency count s \<longleftrightarrow>
     js_less (Fin (of_nat (br_inFlight s))) concurrency \<and> js_less (Fin (of_nat (br_done s + br_inFlight s))) count"

definition pump :: "jsnum \<Rightarrow> jsnum \<Rightarrow> bench_run \<Rightarrow> bench_run option" where
  "pump concurrency count = while_option (wants_more concurrency count) (\<lambda>s. s\<lparr>br_inFlight := br_inFlight s + 1\<rparr>)"

definition on_reply :: "jsnum \<Rightarrow> jsnum \<Rightarrow> bool \<Rightarrow> sample \<Rightarrow> bench_run \<Rightarrow> bench_run option" where
  "on_reply concurrency count collect r s =
     (let s1 = s\<lparr>br_inFlight := br_inFlight s - 1, br_done := br_done s + 1,
                 br_samples := (if collect then br_samples s @ [r] else br_samples s)\<rparr>
      in if js_le count (Fin (of_nat (br_done s1))) then Some (s1\<lparr>br_resolved := True\<rparr>)
         else pump concurrency count s1)"

text \<open>Replies in order of arrival; with no request in flight none can arrive.\<close>

fun replies :: "jsnum \<Rightarrow> jsnum \<Rightarrow> bool \<Rightarrow> sample list \<Rightarrow> bench_run \<Rightarrow> bench_run option" where
  "replies concurrency count collect [] s = Some s"
| "replies concurrency count collect (r # rs) s =
     (if br_inFlight s = 0 then Some s
      else Option.bind (on_reply concurrency count collect r s) (replies concurrency count collect rs))"

definition bench_start :: bench_run where
  "bench_start = \<lparr>br_done = 0, br_inFlight = 0, br_samples = [], br_resolved = False\<rparr>"

definition run_bench :: "jsnum \<Rightarrow> jsnum \<Rightarrow> bool \<Rightarrow> sample list \<Rightarrow> bench_run option" where
  "run_bench concurrency count collect rs =
     Option.bind (pump concurrency count bench_start) (replies concurrency count collect rs)"

subsection \<open>The summary\<close>

text \<open>\<open>None\<close> is the \<open>undefined\<close> of an index out of range; the index is exact below the sizes doubles hold.\<close>

definition bench_percentile :: "rat list \<Rightarrow> rat \<Rightarrow> rat option" where
  "bench_percentile sorted_list p =
     (let idx = \<lceil>(p / 100) * of_nat (length sorted_list)\<rceil> - 1; i = nat (max 0 idx)
      in if i < length sorted_list then Some (sorted_list ! i) else None)"

text \<open>\<open>sort((a, b) => a - b)\<close>\<close>

definition sort_numbers :: "rat list \<Rightarrow> rat list" where
  "sort_numbers xs = js_sort (\<lambda>a b. a - b \<le> 0) xs"

record summary =
  su_requests :: nat
  su_accepted :: nat
  su_other :: int
  su_throughput :: rat
  su_percentiles :: "rat list"
  su_max :: rat
  su_exitCode :: "int option"

text \<open>\<open>x.toFixed(...)\<close> on \<open>undefined\<close>\<close>

definition to_fixed :: "rat option \<Rightarrow> rat result" where
  "to_fixed x = (case x of
       None \<Rightarrow> Inl (TypeError ''Cannot read properties of undefined (reading toFixed)'')
     | Some v \<Rightarrow> Inr v)"

definition last_of :: "'a list \<Rightarrow> 'a option" where
  "last_of xs = (if xs = [] then None else Some (xs ! (length xs - 1)))"

definition bench_summary :: "sample list \<Rightarrow> rat \<Rightarrow> summary result" where
  "bench_summary samples wallMs =
     (let accepted_samples = filter (\<lambda>s. sp_status s = 202) samples;
          latencies = sort_numbers (map sp_ms accepted_samples);
          nonAccepted = int (length samples) - int (length accepted_samples)
      in bind_res (to_fixed (bench_percentile latencies 50)) (\<lambda>p50.
         bind_res (to_fixed (bench_percentile latencies 95)) (\<lambda>p95.
         bind_res (to_fixed (bench_percentile latencies 99)) (\<lambda>p99.
         bind_res (to_fixed (last_of latencies)) (\<lambda>longest.
           Inr \<lparr>su_requests = length samples, su_accepted = length accepted_samples, su_other = nonAccepted,
                su_throughput = of_nat (length samples) / (wallMs / 1000), su_percentiles = [p50, p95, p99],
                su_max = longest, su_exitCode = (if 0 < nonAccepted then Some 1 else None)\<rparr>)))))"

text \<open>
  The script: the warm-up, then the measured run. \<open>None\<close>: an \<open>await\<close> that is never over (with nothing in
  flight the process ends there, without a summary).
\<close>

definition smoke_main :: "smoke_settings \<Rightarrow> sample list \<Rightarrow> sample list \<Rightarrow> rat \<Rightarrow> summary result option" where
  "smoke_main settings warm_replies measured_replies wallMs =
     (case run_bench (sm_concurrency settings) (sm_warmup settings) False warm_replies of
        None \<Rightarrow> None
      | Some w \<Rightarrow>
          if \<not> br_resolved w then None
          else (case run_bench (sm_concurrency settings) (sm_total settings) True measured_replies of
                  None \<Rightarrow> None
                | Some m \<Rightarrow> if br_resolved m then Some (bench_summary (br_samples m) wallMs) else None))"

subsection \<open>Lemmas\<close>

lemma js_less_nat [simp]: "js_less (Fin (of_nat a)) (Fin (of_nat b)) \<longleftrightarrow> a < b"
  by simp

lemma js_le_nat [simp]: "js_le (Fin (of_nat a)) (Fin (of_nat b)) \<longleftrightarrow> a \<le> b"
  by simp

text \<open>What a turn of the pump comes to.\<close>

lemma pump_run:
  "pump (Fin (of_nat c)) (Fin (of_nat n)) s = Some (s\<lparr>br_inFlight := max (br_inFlight s) (min c (n - br_done s))\<rparr>)"
proof (induction "min c (n - br_done s) - br_inFlight s" arbitrary: s)
  case 0
  then have "\<not> wants_more (Fin (of_nat c)) (Fin (of_nat n)) s"
    by (auto simp del: of_nat_add simp: wants_more_def)
  with 0 show ?case
    by (simp add: pump_def while_option_unfold [of _ _ s] max.absorb1)
next
  case (Suc k)
  let ?t = "s\<lparr>br_inFlight := br_inFlight s + 1\<rparr>"
  have "wants_more (Fin (of_nat c)) (Fin (of_nat n)) s"
    using Suc.hyps(2) by (auto simp del: of_nat_add simp: wants_more_def)
  then have "pump (Fin (of_nat c)) (Fin (of_nat n)) s = pump (Fin (of_nat c)) (Fin (of_nat n)) ?t"
    by (simp add: pump_def while_option_unfold [of _ _ s])
  also have "\<dots> = Some (?t\<lparr>br_inFlight := max (br_inFlight ?t) (min c (n - br_done ?t))\<rparr>)"
    by (rule Suc.hyps(1)) (use Suc.hyps(2) in auto)
  also have "\<dots> = Some (s\<lparr>br_inFlight := max (br_inFlight s) (min c (n - br_done s))\<rparr>)"
    using Suc.hyps(2) by auto
  finally show ?case .
qed

definition bench_after :: "nat \<Rightarrow> nat \<Rightarrow> bool \<Rightarrow> sample list \<Rightarrow> bench_run" where
  "bench_after c n collect rs =
     \<lparr>br_done = length rs, br_inFlight = min c (n - length rs), br_samples = (if collect then rs else []),
      br_resolved = (0 < length rs \<and> length rs = n)\<rparr>"

lemma on_reply_run:
  assumes "0 < c" and "length rs < n"
  shows "on_reply (Fin (of_nat c)) (Fin (of_nat n)) collect r (bench_after c n collect rs)
           = Some (bench_after c n collect (rs @ [r]))"
  using assms by (auto simp: on_reply_def Let_def bench_after_def pump_run simp del: js_le.simps)

lemma replies_snoc:
  "replies c n collect (rs @ [r]) s =
     Option.bind (replies c n collect rs s) (\<lambda>t. if br_inFlight t = 0 then Some t else on_reply c n collect r t)"
  by (induction rs arbitrary: s) (auto simp: bind_eq_Some_conv split: Option.bind_splits)

lemma run_bench_after:
  assumes "0 < c" and "length rs \<le> n"
  shows "run_bench (Fin (of_nat c)) (Fin (of_nat n)) collect rs = Some (bench_after c n collect rs)"
  using assms(2)
proof (induction rs rule: rev_induct)
  case Nil
  show ?case by (simp add: run_bench_def pump_run bench_start_def bench_after_def)
next
  case (snoc r rs)
  then have "run_bench (Fin (of_nat c)) (Fin (of_nat n)) collect (rs @ [r])
      = on_reply (Fin (of_nat c)) (Fin (of_nat n)) collect r (bench_after c n collect rs)"
    using assms(1) by (auto simp: run_bench_def replies_snoc bench_after_def split: Option.bind_splits)
  with snoc.prems show ?case by (simp add: on_reply_run [OF assms(1)])
qed

lemma bench_percentile_sorted:
  assumes "p \<le> 100" and "0 < p"
  shows "bench_percentile (sort_numbers values) p = percentile values p"
proof (cases "values = []")
  case True
  then show ?thesis by (simp add: bench_percentile_def percentile_def sort_numbers_def js_sort_def)
next
  case False
  let ?n = "length values" and ?c = "\<lceil>p / 100 * of_nat (length values)\<rceil>"
  have "p / 100 * of_nat ?n \<le> 1 * of_nat ?n" using assms(1) by (intro mult_right_mono) simp_all
  then have c: "?c \<le> int ?n" by (simp add: ceiling_le_iff)
  have n: "0 < ?n" using False by simp
  have "min (int ?n - 1) (max 0 (?c - 1)) = max 0 (?c - 1)" using c n by linarith
  moreover have "nat (max 0 (?c - 1)) < ?n" using c n by linarith
  ultimately show ?thesis
    using False unfolding sort_numbers_def bench_percentile_def percentile_def Let_def by (simp only: length_js_sort of_int_of_nat_eq if_False if_True)
qed

lemma bench_body_representable:
  assumes "\<forall>ch \<in> set uuid. code ch < 128"
  shows "representable (bench_body uuid)"
proof -
  have "join_surrogates uuid = uuid" using assms by (rule join_surrogates_ascii)
  moreover have "join_surrogates ''amount'' = ''amount''" "join_surrogates ''currency'' = ''currency''"
    "join_surrogates ''BRL'' = ''BRL''" "join_surrogates ''order.created'' = ''order.created''"
    by (rule ascii_plain, code_simp)+
  ultimately show ?thesis
    using representable_int [of 4200] by (simp add: bench_body_def representable_obj)
qed

subsection \<open>Properties\<close>

text \<open>The load script keeps its promise of bounded load: with a concurrency and a count of at least one, after any
  number of replies it never has more requests in flight than the concurrency, never sends more than the count,
  is never idle while replies are missing, keeps every reply in order, and resolves with the last one.\<close>

theorem bench_keeps_its_bounds:
  assumes "0 < c" and "0 < n" and "length rs \<le> n"
  shows "\<exists>s. run_bench (Fin (of_nat c)) (Fin (of_nat n)) True rs = Some s
           \<and> br_done s = length rs \<and> br_inFlight s \<le> c \<and> br_done s + br_inFlight s \<le> n
           \<and> (br_inFlight s = 0 \<longleftrightarrow> length rs = n) \<and> (br_resolved s \<longleftrightarrow> length rs = n) \<and> br_samples s = rs"
  using run_bench_after [OF assms(1,3), of True] assms by (auto simp: bench_after_def)

theorem bench_keeps_its_bounds_witness:
  "\<exists>s. run_bench (Fin (of_nat 2)) (Fin (of_nat 3)) True [post_sample None] = Some s \<and> br_inFlight s \<le> 2 \<and> \<not> br_resolved s"
  using bench_keeps_its_bounds [of 2 3 "[post_sample None]"] by auto

text \<open>A count of zero never ends: asked for no requests at all (\<open>SMOKE_WARMUP=0\<close> to skip the warm-up), for a number
  that is none, or for a concurrency of zero, the pump sends nothing, its promise is not resolved, and the script
  never reaches its summary, whatever the server does.\<close>

theorem empty_run_never_resolves:
  assumes "\<not> js_less (Fin 0) (sm_warmup settings) \<or> \<not> js_less (Fin 0) (sm_concurrency settings)"
  shows "run_bench (sm_concurrency settings) (sm_warmup settings) False ws = Some bench_start
         \<and> smoke_main settings ws rs wallMs = None"
proof -
  have "\<not> wants_more (sm_concurrency settings) (sm_warmup settings) bench_start"
    using assms by (auto simp: wants_more_def bench_start_def)
  then have "pump (sm_concurrency settings) (sm_warmup settings) bench_start = Some bench_start"
    by (simp add: pump_def while_option_unfold [of _ _ bench_start])
  then have "run_bench (sm_concurrency settings) (sm_warmup settings) False ws = Some bench_start"
    by (cases ws) (simp_all add: run_bench_def, simp add: bench_start_def)
  then show ?thesis by (simp add: smoke_main_def) (simp add: bench_start_def)
qed

theorem empty_run_never_resolves_witness:
  "smoke_main (smoke_settings_of [''SMOKE_WARMUP'' \<mapsto> ''0'']) [] [post_sample (Some (202, 3))] 10 = None"
proof -
  have "js_number_str ''0'' = Fin 0" by code_simp
  then have "sm_warmup (smoke_settings_of [''SMOKE_WARMUP'' \<mapsto> ''0'']) = Fin 0"
    by (simp add: smoke_settings_of_def config_number_def)
  with empty_run_never_resolves [of "smoke_settings_of [''SMOKE_WARMUP'' \<mapsto> ''0'']"] show ?thesis by simp
qed

text \<open>Without one accepted request there is no summary: the script fails on \<open>undefined\<close>. With some, its percentiles
  are the dashboard's, and it exits with 1 exactly when some request was not accepted.\<close>

theorem bench_summary_cases:
  "case bench_summary samples wallMs of
     Inl e \<Rightarrow> filter (\<lambda>s. sp_status s = 202) samples = []
   | Inr su \<Rightarrow>
       su_percentiles su = map (\<lambda>p. the (percentile (map sp_ms (filter (\<lambda>s. sp_status s = 202) samples)) p)) [50, 95, 99]
       \<and> (su_exitCode su = Some 1 \<longleftrightarrow> (\<exists>s \<in> set samples. sp_status s \<noteq> 202))"
proof -
  let ?ok = "filter (\<lambda>s. sp_status s = 202) samples"
  have nil: "percentile (map sp_ms ?ok) p = None \<longleftrightarrow> ?ok = []" for p by (simp add: percentile_def)
  have other: "length ?ok < length samples \<longleftrightarrow> (\<exists>s \<in> set samples. sp_status s \<noteq> 202)"
  proof (cases "\<exists>s \<in> set samples. sp_status s \<noteq> 202")
    case True
    with length_filter_less [where P = "\<lambda>s. sp_status s = 202"] show ?thesis by blast
  next
    case False
    then have "?ok = samples" by (intro filter_True) blast
    with False show ?thesis by simp
  qed
  show ?thesis
  proof (cases "?ok = []")
    case True
    then have "bench_percentile (sort_numbers (map sp_ms ?ok)) 50 = None"
      by (simp add: bench_percentile_def sort_numbers_def js_sort_def)
    with True show ?thesis by (simp add: bench_summary_def Let_def to_fixed_def bind_res_def)
  next
    case False
    then obtain a b d where "percentile (map sp_ms ?ok) 50 = Some a" "percentile (map sp_ms ?ok) 95 = Some b"
      "percentile (map sp_ms ?ok) 99 = Some d" using nil by fastforce
    moreover have "sort_numbers (map sp_ms ?ok) \<noteq> []"
      using False unfolding sort_numbers_def by (metis length_0_conv length_js_sort length_map)
    ultimately show ?thesis
      using False other
      by (auto simp: bench_summary_def Let_def to_fixed_def bind_res_def bench_percentile_sorted last_of_def)
  qed
qed

text \<open>What the script sends, the API takes: signed with the server's secret and within the tolerance, a request of the
  load script passes the signature guard and the validation, and is answered with 202 when the publish succeeds.\<close>

theorem bench_request_accepted:
  assumes "sg_toleranceSeconds g = Fin (of_int n)" and "\<bar>now div 1000 - sent div 1000\<bar> \<le> n"
    and "0 \<le> sent" and "sent div 1000 < 10 ^ 18" and "\<forall>ch \<in> set uuid. code ch < 128" and "uuid \<noteq> []" and "length uuid \<le> 255"
    and "\<And>event c. publish event c = Inr ()"
  shows "json_parse (snd (bench_request (sg_secret g) uuid sent)) = Some (bench_body uuid)
         \<and> post_orders (\<lambda>_. Inr ()) g meets publish rid now (fst (bench_request (sg_secret g) uuid sent))
              (snd (bench_request (sg_secret g) uuid sent)) (bench_body uuid) store
             = Inr (nullish store rid, ''accepted'')"
proof -
  let ?r = "bench_request (sg_secret g) uuid sent" and ?t = "nat (sent div 1000)"
  have t: "int_to_string (sent div 1000) = digits ?t" using assms(3) by (simp add: int_to_string_def)
  have "(of_nat ?t :: rat) < of_nat (10 ^ 18)" using assms(3,4) by (simp only: of_nat_less_iff) (simp add: nat_less_iff)
  then have small: "(of_nat ?t :: rat) < double_limit" by (simp add: double_limit_def)
  have "signature_canActivate g now (fst ?r) (Some (snd ?r))
      = (if \<bar>now div 1000 - int ?t\<bar> \<le> n then Inr True else Inl (HttpException 401 ''stale or invalid timestamp''))"
    by (rule honest_request_accepted [OF assms(1) small])
      (simp_all add: bench_request_def Let_def t expected_signature_def)
  then have guard: "signature_canActivate g now (fst ?r) (Some (snd ?r)) = Inr True"
    using assms(2,3) by (simp add: pos_imp_zdiv_nonneg_iff)
  have "code_points uuid \<le> 255" using assms(7) by (simp add: code_points_def) (metis le_trans length_filter_le)
  moreover have "code_points ''order.created'' \<le> 255" by code_simp
  ultimately have "meets OrderWebhookDto (bench_body uuid)"
    using assms(6) by (simp add: meets_def OrderWebhookDto_def bench_body_def MAX_ID_LENGTH_def)
  moreover have "\<exists>event. order_dto (bench_body uuid) = Some event" by (simp add: order_dto_def bench_body_def)
  ultimately have "post_orders (\<lambda>_. Inr ()) g meets publish rid now (fst ?r) (snd ?r) (bench_body uuid) store
      = Inr (nullish store rid, ''accepted'')"
    using guard assms(8) by (auto simp: post_orders_def ingestOrder_def currentCorrelationId_def Let_def)
  moreover have "json_parse (snd ?r) = Some (bench_body uuid)"
    using stringify_roundtrip [OF bench_body_representable [OF assms(5)]] by (simp add: bench_request_def Let_def)
  ultimately show ?thesis by blast
qed

end
